theory Spec2Isabelle
  imports Complex_Main "HOL-Library.Multiset"
begin

section \<open>Strings of the platform\<close>

text \<open>
  A JavaScript string is a sequence of UTF-16 code units. The model writes it as a
  \<^typ>\<open>string\<close>, one \<^typ>\<open>char\<close> per code unit, and covers the code units below
  256 (ASCII and Latin-1): the white-space test and the case maps below are those of
  ECMAScript on these code units. Text with a code unit of 256 or more is outside
  the model.
\<close>

abbreviation dq :: char where
  "dq \<equiv> CHR 0x22"

text \<open>\<open>WhiteSpace\<close> and \<open>LineTerminator\<close> of ECMAScript: what \<open>trim\<close> strips and
  what \<open>\s\<close> matches. Below 256 these are the tabulation, the line feed, the vertical
  tabulation, the form feed, the carriage return, the space and the no-break space.\<close>

definition isWhiteSpace :: "char \<Rightarrow> bool" where
  "isWhiteSpace c =
     (c \<in> set [CHR 0x09, CHR 0x0A, CHR 0x0B, CHR 0x0C, CHR 0x0D, CHR '' '', CHR 0xA0])"

text \<open>\<open>\d\<close> of a regular expression: the ten ASCII digits.\<close>

definition isDigit :: "char \<Rightarrow> bool" where
  "isDigit c = (c \<in> set ''0123456789'')"

text \<open>\<open>String.prototype.trim\<close>.\<close>

definition trim :: "string \<Rightarrow> string" where
  "trim s = rev (dropWhile isWhiteSpace (rev (dropWhile isWhiteSpace s)))"

section \<open>The line tokenizer\<close>

text \<open>
  \<^verbatim>\<open>
  const splitCSVLine = (line: string): string[] => {
    const result: string[] = [];
    let current = '';
    let inQuotes = false;
    for (let i = 0; i < line.length; i++) {
      const char = line[i];
      if (char === '"') { inQuotes = !inQuotes; }
      else if (char === ',' && !inQuotes) { result.push(current.trim()); current = ''; }
      else { current += char; }
    }
    result.push(current.trim());
    return result.map(val => val.replace(/^"|"$/g, '').replace(/""/g, '"'));
  };
  \<close>
  The loop is a recursion over the characters of the line that threads \<open>result\<close>,
  \<open>current\<close> and \<open>inQuotes\<close>.
\<close>

fun splitLoop :: "string \<Rightarrow> string list \<Rightarrow> string \<Rightarrow> bool \<Rightarrow> string list \<times> string" where
  "splitLoop [] result current inQuotes = (result, current)"
| "splitLoop (c # cs) result current inQuotes =
     (if c = dq then splitLoop cs result current (\<not> inQuotes)
      else if c = CHR '','' \<and> \<not> inQuotes then splitLoop cs (result @ [trim current]) [] inQuotes
      else splitLoop cs result (current @ [c]) inQuotes)"

text \<open>\<open>val.replace(/^"|"$/g, '')\<close>: the global replacement removes a quote at the
  start of the string and then, in what follows it, a quote at the end.\<close>

definition stripEnclosingQuotes :: "string \<Rightarrow> string" where
  "stripEnclosingQuotes val =
     (let rest = (case val of [] \<Rightarrow> [] | c # cs \<Rightarrow> if c = dq then cs else c # cs)
      in if rest \<noteq> [] \<and> last rest = dq then butlast rest else rest)"

text \<open>\<open>.replace(/""/g, '"')\<close>: left to right, each pair of quotes becomes one.\<close>

fun collapseDoubledQuotes :: "string \<Rightarrow> string" where
  "collapseDoubledQuotes (a # b # cs) =
     (if a = dq \<and> b = dq then dq # collapseDoubledQuotes cs
      else a # collapseDoubledQuotes (b # cs))"
| "collapseDoubledQuotes cs = cs"

definition splitCSVLine :: "string \<Rightarrow> string list" where
  "splitCSVLine line =
     (case splitLoop line [] [] False of
        (result, current) \<Rightarrow>
          map (\<lambda>val. collapseDoubledQuotes (stripEnclosingQuotes val))
            (result @ [trim current]))"

section \<open>The platform\<close>

text \<open>
  Three services of the JavaScript platform are not code of the repository and depend
  on the machine that runs it. They are parameters of the model:
  \<^item> \<open>localToUTC\<close>: the conversion \<open>UTC(t)\<close> of a local time value to a UTC time
    value, which the \<open>Date\<close> constructor applies (the time zone of the browser);
  \<^item> \<open>Date_parse_heuristic\<close>: what \<open>Date.parse\<close> returns on a string that is not in
    the format ECMAScript prescribes, which is left to the implementation; \<open>None\<close> is
    \<open>NaN\<close>;
  \<^item> \<open>parseFloat\<close>: the built-in \<open>parseFloat\<close>, which rounds to a double.
\<close>

datatype number = NaN | NegInfinity | Finite rat | PosInfinity

record platform =
  localToUTC :: "int \<Rightarrow> int"
  Date_parse_heuristic :: "string \<Rightarrow> int option"
  parseFloat :: "string \<Rightarrow> number"

section \<open>The date parser\<close>

subsection \<open>The \<open>Date\<close> constructor\<close>

text \<open>
  \<open>new Date(year, month, day, hour, minute, second).getTime()\<close>, following
  ECMAScript: \<open>MakeTime\<close>, \<open>MakeDay\<close>, \<open>MakeDate\<close>, the conversion to UTC and
  \<open>TimeClip\<close>. All arguments are integers here. A year from 0 to 99 is read by the
  constructor as 1900 plus the year. \<open>None\<close> is the time value \<open>NaN\<close>.
\<close>

definition MakeTime :: "int \<Rightarrow> int \<Rightarrow> int \<Rightarrow> int \<Rightarrow> int" where
  "MakeTime hour minute sec ms = hour * 3600000 + minute * 60000 + sec * 1000 + ms"

definition DayFromYear :: "int \<Rightarrow> int" where
  "DayFromYear y = 365 * (y - 1970) + (y - 1969) div 4 - (y - 1901) div 100 + (y - 1601) div 400"

definition InLeapYear :: "int \<Rightarrow> bool" where
  "InLeapYear y = (y mod 4 = 0 \<and> (y mod 100 \<noteq> 0 \<or> y mod 400 = 0))"

definition daysBeforeMonth :: "int \<Rightarrow> bool \<Rightarrow> int" where
  "daysBeforeMonth mn leap =
     [0, 31, 59, 90, 120, 151, 181, 212, 243, 273, 304, 334] ! nat mn
       + (if leap \<and> 2 \<le> mn then 1 else 0)"

definition MakeDay :: "int \<Rightarrow> int \<Rightarrow> int \<Rightarrow> int" where
  "MakeDay year month date =
     (let ym = year + month div 12; mn = month mod 12
      in DayFromYear ym + daysBeforeMonth mn (InLeapYear ym) + date - 1)"

definition MakeDate :: "int \<Rightarrow> int \<Rightarrow> int" where
  "MakeDate day time = day * 86400000 + time"

definition TimeClip :: "int \<Rightarrow> int option" where
  "TimeClip t = (if \<bar>t\<bar> > 8640000000000000 then None else Some t)"

definition newDate_getTime :: "platform \<Rightarrow> int \<Rightarrow> int \<Rightarrow> int \<Rightarrow> int \<Rightarrow> int \<Rightarrow> int \<Rightarrow> int option" where
  "newDate_getTime P year month day hour minute sec =
     (let yr = (if 0 \<le> year \<and> year \<le> 99 then 1900 + year else year)
      in TimeClip (localToUTC P (MakeDate (MakeDay yr month day) (MakeTime hour minute sec 0))))"

subsection \<open>Decimal numerals\<close>

text \<open>The value of a string of digits: what \<open>parseInt(s, 10)\<close> returns on it.\<close>

definition digitValue :: "char \<Rightarrow> int" where
  "digitValue c = int (of_char c) - 48"

definition parseInt10 :: "string \<Rightarrow> int" where
  "parseInt10 s = foldl (\<lambda>n c. 10 * n + digitValue c) 0 s"

subsection \<open>\<open>Date.parse\<close>\<close>

text \<open>
  ECMAScript prescribes what \<open>Date.parse\<close> returns on a string in its date-time
  format. The model has the part of it that is a complete calendar date,
  \<open>YYYY-MM-DD\<close>, of a day that exists: the result is the time value of that day at
  midnight UTC. On every other string \<open>Date.parse\<close> is the parameter of the
  platform.
\<close>

definition daysInMonth :: "int \<Rightarrow> int \<Rightarrow> int" where
  "daysInMonth y m =
     (if m = 2 then (if InLeapYear y then 29 else 28)
      else if m = 4 \<or> m = 6 \<or> m = 9 \<or> m = 11 then 30 else 31)"

definition isoCalendarDate :: "string \<Rightarrow> int option" where
  "isoCalendarDate s =
     (if length s = 10 \<and> list_all isDigit (take 4 s) \<and> s ! 4 = CHR ''-''
         \<and> list_all isDigit (take 2 (drop 5 s)) \<and> s ! 7 = CHR ''-''
         \<and> list_all isDigit (drop 8 s)
      then (let y = parseInt10 (take 4 s);
                m = parseInt10 (take 2 (drop 5 s));
                d = parseInt10 (drop 8 s)
            in if 1 \<le> m \<and> m \<le> 12 \<and> 1 \<le> d \<and> d \<le> daysInMonth y m
               then Some (MakeDay y (m - 1) d) else None)
      else None)"

definition Date_parse :: "platform \<Rightarrow> string \<Rightarrow> int option" where
  "Date_parse P s =
     (case isoCalendarDate s of
        Some day \<Rightarrow> TimeClip (MakeDate day (MakeTime 0 0 0 0))
      | None \<Rightarrow> Date_parse_heuristic P s)"

subsection \<open>The regular expression\<close>

text \<open>
  \<^verbatim>\<open>/^(\d{1,2})[\/.-](\d{1,2})[\/.-](\d{2,4})(?:\s+(\d{1,2}):(\d{1,2})(?::(\d{1,2}))?)?$/\<close>

  The expression is matched the way a backtracking engine does: every piece maps the
  rest of the input to the list of its possible matches, in the order the engine tries
  them (a greedy quantifier tries the longest run first, an optional group is tried
  before it is skipped), each with what is left of the input. The match is the first
  complete one. A capture group that took no part in the match is \<open>undefined\<close>,
  here \<open>None\<close>.
\<close>

text \<open>\<open>\d{lo,hi}\<close>\<close>

definition digitsBetween :: "nat \<Rightarrow> nat \<Rightarrow> string \<Rightarrow> (string \<times> string) list" where
  "digitsBetween lo hi s =
     [(take k s, drop k s). k \<leftarrow> rev [lo ..< Suc hi], k \<le> length s \<and> list_all isDigit (take k s)]"

text \<open>\<open>[\/.-]\<close>\<close>

definition isDateSeparator :: "char \<Rightarrow> bool" where
  "isDateSeparator c = (c \<in> set ''/.-'')"

definition dateSeparator :: "string \<Rightarrow> string list" where
  "dateSeparator s = (case s of [] \<Rightarrow> [] | c # cs \<Rightarrow> if isDateSeparator c then [cs] else [])"

text \<open>\<open>\s+\<close>\<close>

definition spaces1 :: "string \<Rightarrow> string list" where
  "spaces1 s = [drop k s. k \<leftarrow> rev [1 ..< Suc (length (takeWhile isWhiteSpace s))]]"

text \<open>\<open>:\<close>\<close>

definition colon :: "string \<Rightarrow> string list" where
  "colon s = (case s of [] \<Rightarrow> [] | c # cs \<Rightarrow> if c = CHR '':'' then [cs] else [])"

text \<open>\<open>(?::(\d{1,2}))?\<close>\<close>

definition secondsGroup :: "string \<Rightarrow> (string option \<times> string) list" where
  "secondsGroup s =
     [(Some ss, r). r0 \<leftarrow> colon s, (ss, r) \<leftarrow> digitsBetween 1 2 r0] @ [(None, s)]"

text \<open>\<open>(?:\s+(\d{1,2}):(\d{1,2})(?::(\d{1,2}))?)?\<close>\<close>

type_synonym timeGroups = "string option \<times> string option \<times> string option"

definition timeGroup :: "string \<Rightarrow> (timeGroups \<times> string) list" where
  "timeGroup s =
     [((Some hh, Some mi, ss), r).
        r0 \<leftarrow> spaces1 s, (hh, r1) \<leftarrow> digitsBetween 1 2 r0, r2 \<leftarrow> colon r1,
        (mi, r3) \<leftarrow> digitsBetween 1 2 r2, (ss, r) \<leftarrow> secondsGroup r3]
     @ [((None, None, None), s)]"

text \<open>The whole expression, anchored at both ends: the groups 1 to 3 and 4 to 6 of every
  complete match.\<close>

definition dmyRegex :: "string \<Rightarrow> (string \<times> string \<times> string \<times> timeGroups) list" where
  "dmyRegex d =
     [(g1, g2, g3, t).
        (g1, r1) \<leftarrow> digitsBetween 1 2 d, r2 \<leftarrow> dateSeparator r1,
        (g2, r3) \<leftarrow> digitsBetween 1 2 r2, r4 \<leftarrow> dateSeparator r3,
        (g3, r5) \<leftarrow> digitsBetween 2 4 r4, (t, r6) \<leftarrow> timeGroup r5, r6 = []]"

text \<open>\<open>d.match(dmyRegex)\<close>\<close>

definition match_dmyRegex :: "string \<Rightarrow> (string \<times> string \<times> string \<times> timeGroups) option" where
  "match_dmyRegex d = (case dmyRegex d of [] \<Rightarrow> None | m # _ \<Rightarrow> Some m)"

subsection \<open>\<open>parseDate\<close>\<close>

text \<open>
  \<^verbatim>\<open>
  export const parseDate = (dateStr: string): number => {
    const d = String(dateStr).trim();
    if (!d) return NaN;
    const dmyRegex = ...;
    const match = d.match(dmyRegex);
    if (match) {
      const day = parseInt(match[1], 10);
      const month = parseInt(match[2], 10) - 1; // Month is 0-indexed
      const yearPart = parseInt(match[3], 10);
      const year = yearPart < 100 ? yearPart + 2000 : yearPart;
      const hour = match[4] ? parseInt(match[4], 10) : 0;
      const minute = match[5] ? parseInt(match[5], 10) : 0;
      const second = match[6] ? parseInt(match[6], 10) : 0;
      if (month >= 0 && month <= 11 && day >= 1 && day <= 31) {
         const dateObj = new Date(year, month, day, hour, minute, second);
         if (!isNaN(dateObj.getTime())) { return dateObj.getTime(); }
      }
    }
    const timestamp = Date.parse(d);
    if (!isNaN(timestamp)) return timestamp;
    return NaN;
  };
  \<close>
  \<open>parseInt(s, 10)\<close> is only applied to capture groups, which hold digits and
  nothing else; on a string of digits it is the decimal value.
\<close>

text \<open>\<open>match[i] ? parseInt(match[i], 10) : 0\<close>: an undefined group and an empty one
  are both falsy.\<close>

definition groupOrZero :: "string option \<Rightarrow> int" where
  "groupOrZero g = (case g of None \<Rightarrow> 0 | Some s \<Rightarrow> if s = [] then 0 else parseInt10 s)"

definition parseDate :: "platform \<Rightarrow> string \<Rightarrow> int option" where
  "parseDate P dateStr =
     (let d = trim dateStr in
      if d = [] then None
      else
        let fromMatch =
          (case match_dmyRegex d of
             None \<Rightarrow> None
           | Some (g1, g2, g3, g4, g5, g6) \<Rightarrow>
               let day = parseInt10 g1;
                   month = parseInt10 g2 - 1;
                   yearPart = parseInt10 g3;
                   year = (if yearPart < 100 then yearPart + 2000 else yearPart);
                   hour = groupOrZero g4;
                   minute = groupOrZero g5;
                   sec = groupOrZero g6
               in if 0 \<le> month \<and> month \<le> 11 \<and> 1 \<le> day \<and> day \<le> 31
                  then newDate_getTime P year month day hour minute sec
                  else None)
        in case fromMatch of
             Some t \<Rightarrow> Some t
           | None \<Rightarrow> Date_parse P d)"

section \<open>Records and tables\<close>

text \<open>
  \<^verbatim>\<open>export interface LogEntry { [key: string]: string | number; }\<close>

  A \<open>LogEntry\<close> is a plain object. The model keeps its own properties as a list of
  pairs in the order in which \<open>Object.keys\<close> and \<open>Object.values\<close> enumerate them:
  first the keys that are array indices, in ascending numeric order, then the other
  keys in the order of their creation. The one place that creates entries,
  \<open>parseCSV\<close>, stores strings only, so the values are strings. Reading a key that the
  entry does not hold gives \<open>undefined\<close>, here \<open>None\<close> (the properties inherited
  from \<open>Object.prototype\<close> are not modelled: every key that the code reads comes
  from \<open>Object.keys\<close> of an entry built from the same header).
\<close>

type_synonym LogEntry = "(string \<times> string) list"

definition Object_keys :: "LogEntry \<Rightarrow> string list" where
  "Object_keys entry = map fst entry"

definition Object_values :: "LogEntry \<Rightarrow> string list" where
  "Object_values entry = map snd entry"

text \<open>\<open>entry[key]\<close>\<close>

definition getProp :: "LogEntry \<Rightarrow> string \<Rightarrow> string option" where
  "getProp entry k = map_of entry k"

text \<open>\<open>String(v)\<close> for a value that is a string or \<open>undefined\<close>.\<close>

definition String_of :: "string option \<Rightarrow> string" where
  "String_of v = (case v of None \<Rightarrow> ''undefined'' | Some s \<Rightarrow> s)"

text \<open>An array index is the canonical decimal numeral of an integer from 0 to
  \<open>2^32 - 2\<close>.\<close>

definition isArrayIndex :: "string \<Rightarrow> bool" where
  "isArrayIndex k =
     (k \<noteq> [] \<and> list_all isDigit k \<and> (k = ''0'' \<or> hd k \<noteq> CHR ''0'') \<and> parseInt10 k \<le> 4294967294)"

text \<open>
  \<open>entry[key] = value\<close> for a string \<open>value\<close>. Assigning to \<open>__proto__\<close> calls the
  setter inherited from \<open>Object.prototype\<close>, which ignores a value that is not an
  object: no property is created. An existing property keeps its place; a new one is
  placed as the enumeration order requires.
\<close>

definition setProp :: "LogEntry \<Rightarrow> string \<Rightarrow> string \<Rightarrow> LogEntry" where
  "setProp entry k v =
     (if k = ''__proto__'' then entry
      else if k \<in> set (map fst entry)
        then map (\<lambda>(k', v'). if k' = k then (k', v) else (k', v')) entry
      else if isArrayIndex k
        then takeWhile (\<lambda>(k', v'). isArrayIndex k' \<and> parseInt10 k' < parseInt10 k) entry
             @ (k, v)
             # dropWhile (\<lambda>(k', v'). isArrayIndex k' \<and> parseInt10 k' < parseInt10 k) entry
      else entry @ [(k, v)])"

section \<open>The tabular parser\<close>

text \<open>
  \<^verbatim>\<open>
  export const parseCSV = async (url: string): Promise<LogEntry[]> => {
    try {
      const response = await fetch(url);
      if (!response.ok) throw new Error('Failed to fetch data');
      const text = await response.text();
      const lines = text.split(/\r?\n/).filter(line => line.trim() !== '');
      if (lines.length < 2) return [];
      const headers = splitCSVLine(lines[0]);
      const data: LogEntry[] = [];
      for (let i = 1; i < lines.length; i++) {
        const currentLine = splitCSVLine(lines[i]);
        if (currentLine.length === headers.length) {
          const entry: LogEntry = {};
          headers.forEach((header, index) => {
            const key = header.trim();
            let value: string | number = currentLine[index];
            entry[key] = value;
          });
          data.push(entry);
        }
      }
      return data;
    } catch (error) {
      console.error("Error parsing CSV", error);
      return [];
    }
  };
  \<close>
  What \<open>fetch(url)\<close> does is the input of the model: the request fails (the promise
  of \<open>fetch\<close> rejects), or it gives a response with its \<open>ok\<close> flag and a body, and
  reading the body gives the text or fails (\<open>None\<close>).
\<close>

datatype fetchOutcome = FetchFails | Response bool "string option"

text \<open>What can be thrown inside the \<open>try\<close> block.\<close>

datatype exn = FetchRejected | FailedToFetchData | BodyRejected

text \<open>How the promise of an \<open>async\<close> function settles.\<close>

datatype 'a settled = Fulfilled 'a | Rejected exn

text \<open>\<open>text.split(/\r?\n/)\<close>: the text is cut at every line feed, and a carriage return
  right before the line feed belongs to the cut. The second argument is the piece
  being read.\<close>

fun splitLines :: "string \<Rightarrow> string \<Rightarrow> string list" where
  "splitLines [] piece = [piece]"
| "splitLines [c] piece = (if c = CHR 0x0A then [piece, []] else [piece @ [c]])"
| "splitLines (c # d # cs) piece =
     (if c = CHR 0x0D \<and> d = CHR 0x0A then piece # splitLines cs []
      else if c = CHR 0x0A then piece # splitLines (d # cs) []
      else splitLines (d # cs) (piece @ [c]))"

definition nonBlankLines :: "string \<Rightarrow> string list" where
  "nonBlankLines text = filter (\<lambda>line. trim line \<noteq> []) (splitLines text [])"

text \<open>The body of \<open>headers.forEach\<close>, from the empty object.\<close>

definition makeEntry :: "string list \<Rightarrow> string list \<Rightarrow> LogEntry" where
  "makeEntry headers currentLine =
     foldl (\<lambda>entry (header, index). setProp entry (trim header) (currentLine ! index))
       [] (zip headers [0 ..< length headers])"

text \<open>The \<open>for\<close> loop over the lines after the first; \<open>data\<close> is threaded.\<close>

fun rowsLoop :: "string list \<Rightarrow> string list \<Rightarrow> LogEntry list \<Rightarrow> LogEntry list" where
  "rowsLoop headers [] data = data"
| "rowsLoop headers (line # rest) data =
     (let currentLine = splitCSVLine line
      in if length currentLine = length headers
         then rowsLoop headers rest (data @ [makeEntry headers currentLine])
         else rowsLoop headers rest data)"

text \<open>The \<open>try\<close> block: \<open>Inl\<close> is a throw.\<close>

definition parseCSV_try :: "fetchOutcome \<Rightarrow> exn + LogEntry list" where
  "parseCSV_try outcome =
     (case outcome of
        FetchFails \<Rightarrow> Inl FetchRejected
      | Response ok body \<Rightarrow>
          if \<not> ok then Inl FailedToFetchData
          else (case body of
                  None \<Rightarrow> Inl BodyRejected
                | Some text \<Rightarrow>
                    let lines = nonBlankLines text
                    in if length lines < 2 then Inr []
                       else Inr (rowsLoop (splitCSVLine (hd lines)) (tl lines) [])))"

text \<open>The function with its \<open>catch\<close>: the settled promise and the lines written by
  \<open>console.error\<close>.\<close>

definition parseCSV :: "fetchOutcome \<Rightarrow> LogEntry list settled \<times> (string \<times> exn) list" where
  "parseCSV outcome =
     (case parseCSV_try outcome of
        Inr data \<Rightarrow> (Fulfilled data, [])
      | Inl error \<Rightarrow> (Fulfilled [], [(''Error parsing CSV'', error)]))"

section \<open>The column inferencer\<close>

text \<open>
  \<^verbatim>\<open>
  export interface ColumnDefinition {
    key: string; label: string; isNumeric?: boolean; isDate?: boolean;
  }
  \<close>
  \<open>identifyColumns\<close>, the only producer, sets the two optional flags.
\<close>

record ColumnDefinition =
  key :: string
  label :: string
  isNumeric :: bool
  isDate :: bool

text \<open>
  \<open>toLowerCase\<close> on a code unit below 256: the letters \<open>A\<close> to \<open>Z\<close> and the
  Latin-1 capitals (\<open>0xC0\<close> to \<open>0xDE\<close> without the multiplication sign \<open>0xD7\<close>)
  move up by 32.
\<close>

definition toLowerChar :: "char \<Rightarrow> char" where
  "toLowerChar c =
     (let n = (of_char c :: nat)
      in if (65 \<le> n \<and> n \<le> 90) \<or> (192 \<le> n \<and> n \<le> 222 \<and> n \<noteq> 215)
         then char_of (n + 32) else c)"

text \<open>
  \<open>toUpperCase\<close> on a string of one code unit below 256: the letters \<open>a\<close> to \<open>z\<close>
  and the Latin-1 small letters (\<open>0xE0\<close> to \<open>0xFE\<close> without the division sign
  \<open>0xF7\<close>) move down by 32, and the sharp s (\<open>0xDF\<close>) becomes \<open>SS\<close>. The capitals
  of the micro sign (\<open>0xB5\<close>) and of the y with diaeresis (\<open>0xFF\<close>) are code units above
  255, which the model does not have: it leaves these two letters as they are.
\<close>

definition toUpperCaseChar :: "char \<Rightarrow> string" where
  "toUpperCaseChar c =
     (let n = (of_char c :: nat)
      in if (97 \<le> n \<and> n \<le> 122) \<or> (224 \<le> n \<and> n \<le> 254 \<and> n \<noteq> 247)
           then [char_of (n - 32)]
         else if n = 223 then ''SS''
         else [c])"

definition toLowerCase :: "string \<Rightarrow> string" where
  "toLowerCase s = map toLowerChar s"

text \<open>\<open>s.includes(p)\<close>\<close>

fun String_includes :: "string \<Rightarrow> string \<Rightarrow> bool" where
  "String_includes [] p = (p = [])"
| "String_includes (c # cs) p = (take (length p) (c # cs) = p \<or> String_includes cs p)"

text \<open>
  \<^verbatim>\<open>
  export const identifyColumns = (data: LogEntry[]): ColumnDefinition[] => {
    if (data.length === 0) return [];
    const keys = Object.keys(data[0]);
    return keys.map(key => {
      let sampleValue = '';
      for (let i = 0; i < Math.min(data.length, 10); i++) {
          if (data[i][key]) { sampleValue = String(data[i][key]); break; }
      }
      const lowerKey = key.toLowerCase();
      const isDateKey = lowerKey.includes('date') || lowerKey.includes('timestamp')
                        || lowerKey.includes('time');
      let isDate = false;
      if (isDateKey) { isDate = true; }
      else if (sampleValue) {
          const parsed = parseDate(sampleValue);
          const hasDateSeparators = /[\/.-]/.test(sampleValue);
          isDate = !isNaN(parsed) && sampleValue.length > 5 && hasDateSeparators;
      }
      const isNumeric = !isDate && !isNaN(parseFloat(sampleValue.replace(/,/g, '')))
                        && /[\d]+/.test(sampleValue);
      return { key, label: key.charAt(0).toUpperCase() + key.slice(1), isDate, isNumeric };
    });
  };
  \<close>
\<close>

text \<open>The sampling loop, over the rows it may visit: the first value that is truthy
  (a string that is not empty), or the empty string.\<close>

fun sampleLoop :: "LogEntry list \<Rightarrow> string \<Rightarrow> string" where
  "sampleLoop [] k = []"
| "sampleLoop (row # rows) k =
     (case getProp row k of
        None \<Rightarrow> sampleLoop rows k
      | Some v \<Rightarrow> if v \<noteq> [] then v else sampleLoop rows k)"

definition identifyColumn :: "platform \<Rightarrow> LogEntry list \<Rightarrow> string \<Rightarrow> ColumnDefinition" where
  "identifyColumn P data k =
     (let sampleValue = sampleLoop (take (min (length data) 10) data) k;
          lowerKey = toLowerCase k;
          isDateKey = (String_includes lowerKey ''date'' \<or> String_includes lowerKey ''timestamp''
                       \<or> String_includes lowerKey ''time'');
          isDate =
            (if isDateKey then True
             else if sampleValue \<noteq> []
               then parseDate P sampleValue \<noteq> None \<and> length sampleValue > 5
                    \<and> list_ex isDateSeparator sampleValue
             else False);
          isNumeric =
            (\<not> isDate \<and> parseFloat P (filter (\<lambda>c. c \<noteq> CHR '','') sampleValue) \<noteq> NaN
             \<and> list_ex isDigit sampleValue)
      in \<lparr> key = k,
           label = (case k of [] \<Rightarrow> [] | c # cs \<Rightarrow> toUpperCaseChar c @ cs),
           isNumeric = isNumeric,
           isDate = isDate \<rparr>)"

definition identifyColumns :: "platform \<Rightarrow> LogEntry list \<Rightarrow> ColumnDefinition list" where
  "identifyColumns P data =
     (if data = [] then [] else map (identifyColumn P data) (Object_keys (hd data)))"

section \<open>The filter-column selector\<close>

text \<open>
  \<^verbatim>\<open>
  const filterableColumns = useMemo(() => {
    const startPriorities: Record<string, string[]> = { 'material': ['Material', 'Materials'] };
    const endPriorities: Record<string, string[]> = { 'worklog': ['Work Description'] };
    const blacklist: Record<string, string[]> = {
      'worklog': ['MA'], 'tealog': ['Biscuit', 'Biscuits'] };
    const startKeys = startPriorities[reportId] || [];
    const endKeys = endPriorities[reportId] || [];
    const blockedKeys = blacklist[reportId] || [];
    const matchKey = (col: ColumnDefinition, keys: string[]) =>
      keys.some(k => col.key.toLowerCase().trim() === k.toLowerCase()
                  || col.label.toLowerCase().trim() === k.toLowerCase());
    const startCols = columns.filter(col => matchKey(col, startKeys));
    const endCols = columns.filter(col => matchKey(col, endKeys));
    const autoCols = columns.filter(col => {
      if (startCols.some(p => p.key === col.key)) return false;
      if (endCols.some(p => p.key === col.key)) return false;
      if (matchKey(col, blockedKeys)) return false;
      if (col.isNumeric && col.label.toLowerCase().includes('amount')) return false;
      const uniqueValues = new Set(data.map(row => String(row[col.key])));
      return uniqueValues.size > 0 && uniqueValues.size < 20;
    });
    const availableSlots = Math.max(0, 4 - startCols.length - endCols.length);
    const selectedAutoCols = autoCols.slice(0, availableSlots);
    return [...startCols, ...selectedAutoCols, ...endCols];
  }, [columns, data, reportId]);
  \<close>
  The report identifier is one of the four identifiers of \<open>REPORTS\<close>
  (\<open>worklog\<close>, \<open>material\<close>, \<open>enquiry\<close>, \<open>tealog\<close>); a table that has no entry
  for it gives the empty list. The three tables are plain objects; the model reads
  them as association lists, which agrees with the code on these identifiers and on
  every string that does not name a property of \<open>Object.prototype\<close>.
\<close>

definition lookupKeys :: "(string \<times> string list) list \<Rightarrow> string \<Rightarrow> string list" where
  "lookupKeys table reportId = (case map_of table reportId of None \<Rightarrow> [] | Some ks \<Rightarrow> ks)"

definition startPriorities :: "(string \<times> string list) list" where
  "startPriorities = [(''material'', [''Material'', ''Materials''])]"

definition endPriorities :: "(string \<times> string list) list" where
  "endPriorities = [(''worklog'', [''Work Description''])]"

definition blacklist :: "(string \<times> string list) list" where
  "blacklist = [(''worklog'', [''MA'']), (''tealog'', [''Biscuit'', ''Biscuits''])]"

definition matchKey :: "ColumnDefinition \<Rightarrow> string list \<Rightarrow> bool" where
  "matchKey col keys =
     list_ex (\<lambda>k. trim (toLowerCase (key col)) = toLowerCase k
                 \<or> trim (toLowerCase (label col)) = toLowerCase k) keys"

definition startCols :: "ColumnDefinition list \<Rightarrow> string \<Rightarrow> ColumnDefinition list" where
  "startCols columns reportId = filter (\<lambda>col. matchKey col (lookupKeys startPriorities reportId)) columns"

definition endCols :: "ColumnDefinition list \<Rightarrow> string \<Rightarrow> ColumnDefinition list" where
  "endCols columns reportId = filter (\<lambda>col. matchKey col (lookupKeys endPriorities reportId)) columns"

text \<open>\<open>new Set(data.map(row => String(row[col.key]))).size\<close>\<close>

definition uniqueValuesSize :: "LogEntry list \<Rightarrow> ColumnDefinition \<Rightarrow> nat" where
  "uniqueValuesSize data col = length (remdups (map (\<lambda>row. String_of (getProp row (key col))) data))"

definition autoCols :: "ColumnDefinition list \<Rightarrow> LogEntry list \<Rightarrow> string \<Rightarrow> ColumnDefinition list" where
  "autoCols columns data reportId =
     filter (\<lambda>col.
        if list_ex (\<lambda>p. key p = key col) (startCols columns reportId) then False
        else if list_ex (\<lambda>p. key p = key col) (endCols columns reportId) then False
        else if matchKey col (lookupKeys blacklist reportId) then False
        else if isNumeric col \<and> String_includes (toLowerCase (label col)) ''amount'' then False
        else uniqueValuesSize data col > 0 \<and> uniqueValuesSize data col < 20) columns"

definition availableSlots :: "ColumnDefinition list \<Rightarrow> string \<Rightarrow> nat" where
  "availableSlots columns reportId =
     nat (max 0 (4 - int (length (startCols columns reportId)) - int (length (endCols columns reportId))))"

definition selectedAutoCols :: "ColumnDefinition list \<Rightarrow> LogEntry list \<Rightarrow> string \<Rightarrow> ColumnDefinition list" where
  "selectedAutoCols columns data reportId =
     take (availableSlots columns reportId) (autoCols columns data reportId)"

definition filterableColumns :: "ColumnDefinition list \<Rightarrow> LogEntry list \<Rightarrow> string \<Rightarrow> ColumnDefinition list" where
  "filterableColumns columns data reportId =
     startCols columns reportId @ selectedAutoCols columns data reportId @ endCols columns reportId"

section \<open>Search, sort and pages\<close>

text \<open>
  \<^verbatim>\<open>
  const [sortConfig, setSortConfig] =
    useState<{ key: string, direction: 'asc' | 'desc' } | null>(null);
  \<close>
\<close>

datatype direction = Asc | Desc

text \<open>The state of the \<open>DataTable\<close> component.\<close>

record tableState =
  searchTerm :: string
  entriesPerPage :: nat
  currentPage :: nat
  sortConfig :: "(string \<times> direction) option"

subsection \<open>Numbers the comparator returns\<close>

text \<open>
  The comparator returns a number, of which \<open>sort\<close> reads the sign. \<open>x - y\<close> on
  doubles: the difference of two finite doubles is zero only if they are equal and has
  the sign of the exact difference, so the model keeps the exact difference; an
  infinity minus itself is \<open>NaN\<close>.
\<close>

fun minus_number :: "number \<Rightarrow> number \<Rightarrow> number" where
  "minus_number NaN y = NaN"
| "minus_number x NaN = NaN"
| "minus_number (Finite a) (Finite b) = Finite (a - b)"
| "minus_number (Finite a) PosInfinity = NegInfinity"
| "minus_number (Finite a) NegInfinity = PosInfinity"
| "minus_number PosInfinity PosInfinity = NaN"
| "minus_number PosInfinity y = PosInfinity"
| "minus_number NegInfinity NegInfinity = NaN"
| "minus_number NegInfinity y = NegInfinity"

definition isNegative :: "number \<Rightarrow> bool" where
  "isNegative v = (case v of Finite a \<Rightarrow> a < 0 | NegInfinity \<Rightarrow> True | _ \<Rightarrow> False)"

definition isPositive :: "number \<Rightarrow> bool" where
  "isPositive v = (case v of Finite a \<Rightarrow> 0 < a | PosInfinity \<Rightarrow> True | _ \<Rightarrow> False)"

subsection \<open>Comparing values\<close>

text \<open>\<open>x < y\<close> on strings compares code units, the first difference deciding.\<close>

fun stringLess :: "string \<Rightarrow> string \<Rightarrow> bool" where
  "stringLess [] [] = False"
| "stringLess [] (y # ys) = True"
| "stringLess (x # xs) [] = False"
| "stringLess (x # xs) (y # ys) =
     ((of_char x :: nat) < of_char y \<or> (x = y \<and> stringLess xs ys))"

text \<open>\<open>valA < valB\<close> on the values of two entries: a comparison with \<open>undefined\<close> is
  false.\<close>

definition valueLess :: "string option \<Rightarrow> string option \<Rightarrow> bool" where
  "valueLess a b =
     (case a of None \<Rightarrow> False
      | Some x \<Rightarrow> (case b of None \<Rightarrow> False | Some y \<Rightarrow> stringLess x y))"

text \<open>\<open>String(v).replace(/[^0-9.-]+/g, "")\<close>\<close>

definition keepNumeric :: "string \<Rightarrow> string" where
  "keepNumeric s = filter (\<lambda>c. isDigit c \<or> c = CHR ''.'' \<or> c = CHR ''-'') s"

text \<open>
  \<^verbatim>\<open>
  filtered.sort((a, b) => {
    const valA = a[sortConfig.key];
    const valB = b[sortConfig.key];
    const colDef = columns.find(c => c.key === sortConfig.key);
    if (colDef?.isDate) {
        const dateA = parseDate(String(valA));
        const dateB = parseDate(String(valB));
        const validA = !isNaN(dateA);
        const validB = !isNaN(dateB);
        if (validA && validB) {
            return sortConfig.direction === 'asc' ? dateA - dateB : dateB - dateA;
        }
        if (validA && !validB) return -1;
        if (!validA && validB) return 1;
    }
    const numA = parseFloat(String(valA).replace(/[^0-9.-]+/g, ""));
    const numB = parseFloat(String(valB).replace(/[^0-9.-]+/g, ""));
    if (colDef?.isNumeric && !isNaN(numA) && !isNaN(numB)) {
      return sortConfig.direction === 'asc' ? numA - numB : numB - numA;
    }
    if (valA < valB) return sortConfig.direction === 'asc' ? -1 : 1;
    if (valA > valB) return sortConfig.direction === 'asc' ? 1 : -1;
    return 0;
  });
  \<close>
  The part after the date block is a function of its own in the model, so that the
  date block can fall through to it.
\<close>

definition compareUntyped ::
  "platform \<Rightarrow> ColumnDefinition option \<Rightarrow> direction \<Rightarrow> string option \<Rightarrow> string option \<Rightarrow> number" where
  "compareUntyped P colDef dir valA valB =
     (let numA = parseFloat P (keepNumeric (String_of valA));
          numB = parseFloat P (keepNumeric (String_of valB))
      in if (case colDef of None \<Rightarrow> False | Some c \<Rightarrow> isNumeric c) \<and> numA \<noteq> NaN \<and> numB \<noteq> NaN
           then (if dir = Asc then minus_number numA numB else minus_number numB numA)
         else if valueLess valA valB then (if dir = Asc then Finite (- 1) else Finite 1)
         else if valueLess valB valA then (if dir = Asc then Finite 1 else Finite (- 1))
         else Finite 0)"

definition compareEntries ::
  "platform \<Rightarrow> ColumnDefinition list \<Rightarrow> string \<times> direction \<Rightarrow> LogEntry \<Rightarrow> LogEntry \<Rightarrow> number" where
  "compareEntries P columns config a b =
     (case config of (sortKey, dir) \<Rightarrow>
        let valA = getProp a sortKey;
            valB = getProp b sortKey;
            colDef = find (\<lambda>c. key c = sortKey) columns
        in if (case colDef of None \<Rightarrow> False | Some c \<Rightarrow> isDate c)
           then (case (parseDate P (String_of valA), parseDate P (String_of valB)) of
                   (Some dateA, Some dateB) \<Rightarrow>
                     if dir = Asc then Finite (of_int (dateA - dateB))
                     else Finite (of_int (dateB - dateA))
                 | (Some dateA, None) \<Rightarrow> Finite (- 1)
                 | (None, Some dateB) \<Rightarrow> Finite 1
                 | (None, None) \<Rightarrow> compareUntyped P colDef dir valA valB)
           else compareUntyped P colDef dir valA valB)"

subsection \<open>\<open>Array.prototype.sort\<close>\<close>

text \<open>
  ECMAScript fixes what \<open>sort\<close> returns when the comparator orders the elements
  consistently: the elements in that order, equal elements in the order they had (the
  sort is stable). For another comparator the order is left to the platform; the
  result is a permutation of the elements in every case. The sort of the platform is
  therefore an argument \<open>Array_sort\<close> of the model of the data table.

  \<open>sortBy\<close> is the stable insertion sort: an element is placed before the first
  element of the sorted rest that it does not come after, where \<open>a\<close> comes after
  \<open>b\<close> if the comparator is positive on \<open>a\<close> and \<open>b\<close>. For a comparator that
  orders the elements consistently it returns the order that ECMAScript prescribes.
\<close>

type_synonym 'a sorter = "('a \<Rightarrow> 'a \<Rightarrow> number) \<Rightarrow> 'a list \<Rightarrow> 'a list"

fun insertBy :: "('a \<Rightarrow> 'a \<Rightarrow> number) \<Rightarrow> 'a \<Rightarrow> 'a list \<Rightarrow> 'a list" where
  "insertBy cmp x [] = [x]"
| "insertBy cmp x (y # ys) =
     (if isPositive (cmp x y) then y # insertBy cmp x ys else x # y # ys)"

definition sortBy :: "('a \<Rightarrow> 'a \<Rightarrow> number) \<Rightarrow> 'a list \<Rightarrow> 'a list" where
  "sortBy cmp xs = foldr (insertBy cmp) xs []"

subsection \<open>\<open>processedData\<close> and the visible page\<close>

text \<open>
  \<^verbatim>\<open>
  const processedData = useMemo(() => {
    let filtered = data.filter(item =>
      Object.values(item).some(val =>
        String(val).toLowerCase().includes(searchTerm.toLowerCase())));
    if (sortConfig) { filtered.sort((a, b) => { ... }); }
    return filtered;
  }, [data, searchTerm, sortConfig, columns]);
  const indexOfLastEntry = currentPage * entriesPerPage;
  const indexOfFirstEntry = indexOfLastEntry - entriesPerPage;
  const currentEntries = processedData.slice(indexOfFirstEntry, indexOfLastEntry);
  \<close>
\<close>

definition matchesSearch :: "string \<Rightarrow> LogEntry \<Rightarrow> bool" where
  "matchesSearch term item =
     list_ex (\<lambda>val. String_includes (toLowerCase val) (toLowerCase term)) (Object_values item)"

definition processedDataWith ::
  "LogEntry sorter \<Rightarrow> platform \<Rightarrow> LogEntry list \<Rightarrow> ColumnDefinition list \<Rightarrow> tableState
     \<Rightarrow> LogEntry list" where
  "processedDataWith Array_sort P data columns st =
     (let filtered = filter (matchesSearch (searchTerm st)) data
      in case sortConfig st of
           None \<Rightarrow> filtered
         | Some config \<Rightarrow> Array_sort (compareEntries P columns config) filtered)"

text \<open>\<open>processedData\<close> with the stable insertion sort.\<close>

definition processedData ::
  "platform \<Rightarrow> LogEntry list \<Rightarrow> ColumnDefinition list \<Rightarrow> tableState \<Rightarrow> LogEntry list" where
  "processedData P data columns st = processedDataWith sortBy P data columns st"

text \<open>\<open>currentEntries\<close>, from \<open>processedData\<close>. The page is at least 1 in the
  application; for the page 0 the slice is empty, as is the difference of natural
  numbers here.\<close>

definition currentEntries :: "LogEntry list \<Rightarrow> tableState \<Rightarrow> LogEntry list" where
  "currentEntries processed st =
     (let indexOfLastEntry = currentPage st * entriesPerPage st;
          indexOfFirstEntry = indexOfLastEntry - entriesPerPage st
      in drop indexOfFirstEntry (take indexOfLastEntry processed))"

section \<open>The PDF export\<close>

text \<open>
  \<^verbatim>\<open>
  export const downloadPDF = (title: string, columns: ColumnDefinition[], data: LogEntry[]) => {
    const { jsPDF } = window.jspdf;
    const doc = new jsPDF();
    doc.setFontSize(18);
    doc.text(title, 14, 22);
    doc.setFontSize(11);
    doc.setTextColor(100);
    doc.text(`Generated on ${new Date().toLocaleDateString()}`, 14, 30);
    const tableColumn = columns.map(col => col.label);
    const tableRows = data.map(row => columns.map(col => row[col.key]));
    doc.autoTable({ head: [tableColumn], body: tableRows, startY: 40, ... });
    doc.save(`${title.replace(/\s+/g, '_')}_Report.pdf`);
  };

  const handleDownload = () => { downloadPDF(title, columns, processedData); };
  \<close>
  The PDF library is a sink. The model records what it is given: the two lines of
  text, the head and the body of the table, and the name the document is saved under.
  The date of the day, as the platform writes it, is an argument.
\<close>

record pdfExport =
  textLines :: "string list"
  tableHead :: "string list list"
  tableBody :: "string option list list"
  savedAs :: string

text \<open>\<open>title.replace(/\s+/g, '_')\<close>: each run of white space, taken as long as it
  goes, becomes one underscore.\<close>

function replaceSpaceRuns :: "string \<Rightarrow> string" where
  "replaceSpaceRuns [] = []"
| "replaceSpaceRuns (c # cs) =
     (if isWhiteSpace c then CHR ''_'' # replaceSpaceRuns (dropWhile isWhiteSpace cs)
      else c # replaceSpaceRuns cs)"
  by pat_completeness auto
termination
  by (relation "measure length") (auto simp: length_dropWhile_le less_Suc_eq_le)

definition downloadPDF :: "string \<Rightarrow> string \<Rightarrow> ColumnDefinition list \<Rightarrow> LogEntry list \<Rightarrow> pdfExport" where
  "downloadPDF today title columns data =
     \<lparr> textLines = [title, ''Generated on '' @ today],
       tableHead = [map label columns],
       tableBody = map (\<lambda>row. map (\<lambda>col. getProp row (key col)) columns) data,
       savedAs = replaceSpaceRuns title @ ''_Report.pdf'' \<rparr>"

text \<open>\<open>handleDownload\<close>, from the title and the columns that the component is
  given and from its \<open>processedData\<close>.\<close>

definition handleDownload ::
  "string \<Rightarrow> string \<Rightarrow> ColumnDefinition list \<Rightarrow> LogEntry list \<Rightarrow> pdfExport" where
  "handleDownload today title columns processed = downloadPDF today title columns processed"

text \<open>
  \<^verbatim>\<open>
  const DataTable = ({ data, columns, loading, title, onRowClick }) => {
    ...
    const handleDownload = () => { downloadPDF(title, columns, processedData); };
    if (loading) { return <div>... Loading data...</div>; }
    if (data.length === 0) { return <div>... No data found. ...</div>; }
    return (<div> ... <button onClick={handleDownload}> Download PDF </button> ...
      {currentEntries.map((row, idx) => ( ... ))} ... </div>);
  };
  \<close>
  What the component shows: while the data is loading, and when it is given no record,
  neither the table nor the button; otherwise the entries of the visible page and the
  button \<open>Download PDF\<close>, which stands here for the document that a click on it
  produces.
\<close>

record tableView =
  visibleEntries :: "LogEntry list"
  downloadButton :: pdfExport

definition DataTable ::
  "LogEntry sorter \<Rightarrow> platform \<Rightarrow> string \<Rightarrow> LogEntry list \<Rightarrow> ColumnDefinition list \<Rightarrow> bool
     \<Rightarrow> string \<Rightarrow> tableState \<Rightarrow> tableView option" where
  "DataTable Array_sort P today data columns loading title st =
     (let processed = processedDataWith Array_sort P data columns st
      in if loading then None
         else if length data = 0 then None
         else Some \<lparr> visibleEntries = currentEntries processed st,
                      downloadButton = handleDownload today title columns processed \<rparr>)"

section \<open>The application\<close>

text \<open>
  \<^verbatim>\<open>
  let cols = identifyColumns(fetchedData);
  if (activeReport.id === 'worklog') {
      if (cols.length > 3) {
          cols = cols.filter((_, index) => index !== 2 && index !== 3);
      } else if (cols.length > 2) {
          cols = cols.filter((_, index) => index !== 2);
      }
  }
  else if (activeReport.id === 'material') {
      if (cols.length > 2) { cols.splice(2, 1); }
  }
  setColumns(cols);
  \<close>
\<close>

text \<open>\<open>cols.filter((_, index) => p(index))\<close>\<close>

definition filterByIndex :: "(nat \<Rightarrow> bool) \<Rightarrow> 'a list \<Rightarrow> 'a list" where
  "filterByIndex p cols = map fst (filter (\<lambda>(c, index). p index) (zip cols [0 ..< length cols]))"

text \<open>\<open>cols.splice(start, deleteCount)\<close>, for what it leaves in \<open>cols\<close>.\<close>

definition splice :: "nat \<Rightarrow> nat \<Rightarrow> 'a list \<Rightarrow> 'a list" where
  "splice start deleteCount cols = take start cols @ drop (start + deleteCount) cols"

definition reportColumns :: "string \<Rightarrow> ColumnDefinition list \<Rightarrow> ColumnDefinition list" where
  "reportColumns reportId cols =
     (if reportId = ''worklog''
        then (if length cols > 3 then filterByIndex (\<lambda>index. index \<noteq> 2 \<and> index \<noteq> 3) cols
              else if length cols > 2 then filterByIndex (\<lambda>index. index \<noteq> 2) cols
              else cols)
      else if reportId = ''material''
        then (if length cols > 2 then splice 2 1 cols else cols)
      else cols)"

text \<open>
  \<^verbatim>\<open>
  const fetchedData = await parseCSV(activeReport.url);
  setData(fetchedData);
  let cols = identifyColumns(fetchedData);
  ...
  setColumns(cols);
  \<close>
  The data and the columns that \<open>fetchData\<close> sets. \<open>parseCSV\<close> never rejects, as
  is proved below; were it to, nothing would be set.
\<close>

definition fetchData ::
  "platform \<Rightarrow> string \<Rightarrow> fetchOutcome \<Rightarrow> (LogEntry list \<times> ColumnDefinition list) option" where
  "fetchData P reportId outcome =
     (case fst (parseCSV outcome) of
        Rejected e \<Rightarrow> None
      | Fulfilled fetchedData \<Rightarrow>
          Some (fetchedData, reportColumns reportId (identifyColumns P fetchedData)))"

text \<open>
  \<^verbatim>\<open>
  const filteredData = useMemo(() => {
    return data.filter(item => {
      return Object.keys(filters).every(key => {
        if (!filters[key]) return true;
        return String(item[key]) === filters[key];
      });
    });
  }, [data, filters]);
  \<close>
  \<open>FilterState\<close> is an object from column keys to the selected values: the list
  of its properties, each key once. The filter bar sets the keys, which are keys of
  columns.
\<close>

type_synonym FilterState = "(string \<times> string) list"

definition filteredData :: "LogEntry list \<Rightarrow> FilterState \<Rightarrow> LogEntry list" where
  "filteredData data filters =
     filter (\<lambda>item.
        list_all (\<lambda>k. case map_of filters k of
                         None \<Rightarrow> True
                       | Some v \<Rightarrow> if v = [] then True else String_of (getProp item k) = v)
          (map fst filters)) data"

text \<open>
  \<^verbatim>\<open>
  const REPORTS: ReportConfig[] = [
    { id: 'worklog', title: 'Worklog Report', type: 'work', primaryColor: 'text-blue-600', url: ... },
    { id: 'material', title: 'Material Log Report', type: 'material', primaryColor: 'text-amber-600', url: ... },
    { id: 'enquiry', title: 'Site Enquiry Log', type: 'enquiry', primaryColor: 'text-purple-600', url: ... },
    { id: 'tealog', title: 'Tea Log Report', type: 'tea', primaryColor: 'text-emerald-600', url: ... }
  ];
  const activeReport = REPORTS.find(r => r.id === activeTab) || REPORTS[0];
  \<close>
  The fields of \<open>ReportConfig\<close> have the prefix \<open>report_\<close> here: \<open>id\<close> is a constant
  of the logic. The address of the sheet plays no part, the outcome of \<open>fetch\<close> being
  an argument of \<open>parseCSV\<close>, and is left out.
\<close>

record ReportConfig =
  report_id :: string
  report_title :: string
  report_type :: string
  report_primaryColor :: string

definition REPORTS :: "ReportConfig list" where
  "REPORTS =
     [\<lparr>report_id = ''worklog'', report_title = ''Worklog Report'', report_type = ''work'',
        report_primaryColor = ''text-blue-600''\<rparr>,
      \<lparr>report_id = ''material'', report_title = ''Material Log Report'', report_type = ''material'',
        report_primaryColor = ''text-amber-600''\<rparr>,
      \<lparr>report_id = ''enquiry'', report_title = ''Site Enquiry Log'', report_type = ''enquiry'',
        report_primaryColor = ''text-purple-600''\<rparr>,
      \<lparr>report_id = ''tealog'', report_title = ''Tea Log Report'', report_type = ''tea'',
        report_primaryColor = ''text-emerald-600''\<rparr>]"

definition activeReport :: "string \<Rightarrow> ReportConfig" where
  "activeReport activeTab =
     (case find (\<lambda>r. report_id r = activeTab) REPORTS of
        Some r \<Rightarrow> r
      | None \<Rightarrow> REPORTS ! 0)"

text \<open>
  \<^verbatim>\<open>
  <DataTable data={filteredData} columns={columns} loading={loading}
             title={activeReport.title} onRowClick={setSelectedEntry} />
  \<close>
  The data table of the application, from the state of \<open>App\<close> (the active tab, the
  data, the columns, the filters and \<open>loading\<close>) and the state of the table.
\<close>

definition App ::
  "LogEntry sorter \<Rightarrow> platform \<Rightarrow> string \<Rightarrow> string \<Rightarrow> LogEntry list \<Rightarrow> bool
     \<Rightarrow> ColumnDefinition list \<Rightarrow> FilterState \<Rightarrow> tableState \<Rightarrow> tableView option" where
  "App Array_sort P today activeTab data loading columns filters st =
     DataTable Array_sort P today (filteredData data filters) columns loading
       (report_title (activeReport activeTab)) st"

section \<open>Vocabulary of the statements\<close>

text \<open>
  The definitions of this section are not translations of code. They say, in the words
  of the documentation, what the theorems below compare the code with.
\<close>

subsection \<open>The shape of a day-first date\<close>

text \<open>A run of at least \<open>lo\<close> and at most \<open>hi\<close> digits.\<close>

definition digitRun :: "nat \<Rightarrow> nat \<Rightarrow> string \<Rightarrow> bool" where
  "digitRun lo hi g = (lo \<le> length g \<and> length g \<le> hi \<and> list_all isDigit g)"

text \<open>The optional time of day: nothing, or white space, hours, a colon, minutes and
  optionally a colon and seconds, each of one or two digits. The second argument
  holds the digits read (hours, minutes, seconds).\<close>

definition timeShape :: "string \<Rightarrow> timeGroups \<Rightarrow> bool" where
  "timeShape tm t =
     ((tm = [] \<and> t = (None, None, None)) \<or>
      (\<exists>ws hh mi. ws \<noteq> [] \<and> list_all isWhiteSpace ws \<and> digitRun 1 2 hh \<and> digitRun 1 2 mi \<and>
         ((tm = ws @ hh @ CHR '':'' # mi \<and> t = (Some hh, Some mi, None)) \<or>
          (\<exists>ss. digitRun 1 2 ss \<and> tm = ws @ hh @ CHR '':'' # mi @ CHR '':'' # ss
                \<and> t = (Some hh, Some mi, Some ss)))))"

text \<open>The whole string: day, separator, month, separator, year (two to four digits),
  time of day. The second argument holds the digits of the day, of the month and of
  the year, in this order, and the time.\<close>

definition dmyShape :: "string \<Rightarrow> string \<times> string \<times> string \<times> timeGroups \<Rightarrow> bool" where
  "dmyShape d m =
     (case m of (g1, g2, g3, t) \<Rightarrow>
        \<exists>s1 s2 tm. d = g1 @ s1 # g2 @ s2 # g3 @ tm \<and>
          digitRun 1 2 g1 \<and> isDateSeparator s1 \<and> digitRun 1 2 g2 \<and> isDateSeparator s2 \<and>
          digitRun 2 4 g3 \<and> timeShape tm t)"

text \<open>The year a string of digits stands for: a value below 100 counts from 2000.\<close>

definition yearOf :: "string \<Rightarrow> int" where
  "yearOf g3 = (if parseInt10 g3 < 100 then parseInt10 g3 + 2000 else parseInt10 g3)"

text \<open>\<open>dayFirstInstant P d ts\<close>: the string \<open>d\<close> has the shape of a day-first date
  whose month is from 1 to 12 and whose day is from 1 to 31, and \<open>ts\<close> is the time
  value of that local date and time on the platform \<open>P\<close>. Month and day are not
  checked against the length of the month: the day number is the day of the first of
  the month plus the day minus one.\<close>

definition dayFirstInstant :: "platform \<Rightarrow> string \<Rightarrow> int \<Rightarrow> bool" where
  "dayFirstInstant P d ts =
     (\<exists>g1 g2 g3 g4 g5 g6.
        dmyShape d (g1, g2, g3, g4, g5, g6) \<and>
        1 \<le> parseInt10 g2 \<and> parseInt10 g2 \<le> 12 \<and> 1 \<le> parseInt10 g1 \<and> parseInt10 g1 \<le> 31 \<and>
        TimeClip (localToUTC P
          (MakeDate (MakeDay (yearOf g3) (parseInt10 g2 - 1) (parseInt10 g1))
             (MakeTime (groupOrZero g4) (groupOrZero g5) (groupOrZero g6) 0))) = Some ts)"

subsection \<open>A platform for the examples\<close>

text \<open>
  The examples are evaluated on a platform whose time zone is UTC, whose \<open>Date.parse\<close>
  recognises nothing but the format that ECMAScript prescribes, and whose
  \<open>parseFloat\<close> reads a sign, digits and a fraction exactly. The numerals of the
  examples have no exponent and are doubles, so the built-in \<open>parseFloat\<close> returns
  the same values on them.
\<close>

definition decimalParseFloat :: "string \<Rightarrow> number" where
  "decimalParseFloat s =
     (let s1 = dropWhile isWhiteSpace s;
          neg = (s1 \<noteq> [] \<and> hd s1 = CHR ''-'');
          s2 = (if s1 \<noteq> [] \<and> (hd s1 = CHR ''-'' \<or> hd s1 = CHR ''+'') then tl s1 else s1);
          ip = takeWhile isDigit s2;
          r = dropWhile isDigit s2;
          fp = (if r \<noteq> [] \<and> hd r = CHR ''.'' then takeWhile isDigit (tl r) else [])
      in if ip = [] \<and> fp = [] then NaN
         else Finite ((if neg then - 1 else 1) *
                (of_int (parseInt10 ip) + of_int (parseInt10 fp) / 10 ^ length fp)))"

definition examplePlatform :: platform where
  "examplePlatform =
     \<lparr> localToUTC = (\<lambda>t. t),
       Date_parse_heuristic = (\<lambda>s. None),
       parseFloat = decimalParseFloat \<rparr>"

subsection \<open>Lines of a text\<close>

text \<open>
  \<open>cutAtLineEnds s pieces\<close>: the text \<open>s\<close> is the pieces in their order, with a line
  end between two neighbours, where a line end is a line feed or a carriage return
  followed by a line feed. No piece holds a line feed, and a piece before a line end
  that is a line feed alone does not end with a carriage return (that carriage return
  would belong to the line end).
\<close>

inductive cutAtLineEnds :: "string \<Rightarrow> string list \<Rightarrow> bool" where
  whole: "CHR 0x0A \<notin> set p \<Longrightarrow> cutAtLineEnds p [p]"
| lineFeed: "CHR 0x0A \<notin> set p \<Longrightarrow> p = [] \<or> last p \<noteq> CHR 0x0D \<Longrightarrow> cutAtLineEnds rest ps \<Longrightarrow>
     cutAtLineEnds (p @ CHR 0x0A # rest) (p # ps)"
| returnLineFeed: "CHR 0x0A \<notin> set p \<Longrightarrow> cutAtLineEnds rest ps \<Longrightarrow>
     cutAtLineEnds (p @ CHR 0x0D # CHR 0x0A # rest) (p # ps)"

text \<open>A blank line has nothing but white space.\<close>

definition blank :: "string \<Rightarrow> bool" where
  "blank line = list_all isWhiteSpace line"

text \<open>The lines that are left once the blank ones are dropped.\<close>

definition withoutBlanks :: "string list \<Rightarrow> string list" where
  "withoutBlanks pieces = filter (\<lambda>line. \<not> blank line) pieces"

subsection \<open>Names of columns\<close>

text \<open>A string contains a word, the case of the letters being ignored: some part of
  the string is the word up to the case of its letters.\<close>

definition containsIgnoringCase :: "string \<Rightarrow> string \<Rightarrow> bool" where
  "containsIgnoringCase s word =
     (\<exists>pre mid post. s = pre @ mid @ post \<and> toLowerCase mid = toLowerCase word)"

text \<open>Two strings are equal up to the case of their letters.\<close>

definition equalIgnoringCase :: "string \<Rightarrow> string \<Rightarrow> bool" where
  "equalIgnoringCase s word = (toLowerCase s = toLowerCase word)"

text \<open>A column is named by a word if its key or its label equals the word up to the
  case of the letters.\<close>

definition namedLike :: "ColumnDefinition \<Rightarrow> string \<Rightarrow> bool" where
  "namedLike col word = (equalIgnoringCase (key col) word \<or> equalIgnoringCase (label col) word)"

text \<open>The names of the columns have no white space around them. This is so for the
  columns that the application infers: the keys of a table are trimmed header
  fields.\<close>

definition trimmedNames :: "ColumnDefinition list \<Rightarrow> bool" where
  "trimmedNames columns =
     list_all (\<lambda>col. trim (key col) = key col \<and> trim (label col) = label col) columns"

text \<open>The distinct values of a column over a table, as strings.\<close>

definition columnValues :: "LogEntry list \<Rightarrow> ColumnDefinition \<Rightarrow> string set" where
  "columnValues data col = (\<lambda>row. String_of (getProp row (key col))) ` set data"

subsection \<open>White space replaced by underscores\<close>

text \<open>\<open>runsReplaced s r\<close>: \<open>r\<close> is \<open>s\<close> with every run of white space, taken as long
  as it goes, replaced by one underscore, and every other character kept.\<close>

inductive runsReplaced :: "string \<Rightarrow> string \<Rightarrow> bool" where
  nothing: "runsReplaced [] []"
| keep: "\<not> isWhiteSpace c \<Longrightarrow> runsReplaced s r \<Longrightarrow> runsReplaced (c # s) (c # r)"
| run: "w \<noteq> [] \<Longrightarrow> list_all isWhiteSpace w \<Longrightarrow> s = [] \<or> \<not> isWhiteSpace (hd s) \<Longrightarrow>
        runsReplaced s r \<Longrightarrow> runsReplaced (w @ s) (CHR ''_'' # r)"

subsection \<open>The records that match\<close>

text \<open>A record passes the filters if, for every filter with a selected value, its
  value under the key of the filter, as a string, is the selected value.\<close>

definition passesFilters :: "FilterState \<Rightarrow> LogEntry \<Rightarrow> bool" where
  "passesFilters filters item =
     (\<forall>(k, v) \<in> set filters. v \<noteq> [] \<longrightarrow> String_of (getProp item k) = v)"

text \<open>A record passes the search if one of its values contains the search term, the
  case of the letters being ignored.\<close>

definition passesSearch :: "string \<Rightarrow> LogEntry \<Rightarrow> bool" where
  "passesSearch term item = (\<exists>v \<in> set (Object_values item). containsIgnoringCase v term)"

text \<open>The records of a table that match the filters and the search term, in the order
  of the table.\<close>

definition matchingRecords :: "LogEntry list \<Rightarrow> FilterState \<Rightarrow> string \<Rightarrow> LogEntry list" where
  "matchingRecords data filters term =
     filter (\<lambda>item. passesFilters filters item \<and> passesSearch term item) data"

text \<open>The row of a record in the table of the document: its values under the keys of
  the columns, in the order of the columns.\<close>

definition rowOf :: "ColumnDefinition list \<Rightarrow> LogEntry \<Rightarrow> string option list" where
  "rowOf columns item = map (\<lambda>col. getProp item (key col)) columns"

text \<open>Records as the data table sorts them: as they are when no sort is configured,
  and otherwise as the sort of the platform returns them for the comparator of the
  table.\<close>

definition sortedRecords ::
  "LogEntry sorter \<Rightarrow> platform \<Rightarrow> ColumnDefinition list \<Rightarrow> (string \<times> direction) option
     \<Rightarrow> LogEntry list \<Rightarrow> LogEntry list" where
  "sortedRecords Array_sort P columns config records =
     (case config of
        None \<Rightarrow> records
      | Some c \<Rightarrow> Array_sort (compareEntries P columns c) records)"

subsection \<open>A table for the examples\<close>

text \<open>
  The text of a sheet with a header of three fields, three rows that fit it, an empty
  line and a row of two fields; the first line ends with a carriage return and a line
  feed, the others with a line feed:
  \<^verbatim>\<open>
  Date,Amount,Type
  01/02/2024,"1,000.50",A
  15/06/2024,200,B

  bad,abc,C
  x,y
  \<close>
  and the table that it holds.
\<close>

definition exampleCSV :: string where
  "exampleCSV =
     ''Date,Amount,Type'' @ [CHR 0x0D, CHR 0x0A]
     @ ''01/02/2024,'' @ dq # ''1,000.50'' @ dq # '',A'' @ [CHR 0x0A]
     @ ''15/06/2024,200,B'' @ [CHR 0x0A, CHR 0x0A]
     @ ''bad,abc,C'' @ [CHR 0x0A]
     @ ''x,y'' @ [CHR 0x0A]"

definition exampleTable :: "LogEntry list" where
  "exampleTable =
     [[(''Date'', ''01/02/2024''), (''Amount'', ''1,000.50''), (''Type'', ''A'')],
      [(''Date'', ''15/06/2024''), (''Amount'', ''200''), (''Type'', ''B'')],
      [(''Date'', ''bad''), (''Amount'', ''abc''), (''Type'', ''C'')]]"

text \<open>
  A sheet of the material report whose header names the material five times, in
  different letter cases, around a column \<open>Site\<close>:
  \<^verbatim>\<open>
  Material,material,Site,MATERIAL,Materials,materials
  sand,sand,A,sand,sand,sand
  \<close>
  with its table and the five columns that the application keeps for this report.
\<close>

definition materialCSV :: string where
  "materialCSV =
     ''Material,material,Site,MATERIAL,Materials,materials'' @ [CHR 0x0A]
     @ ''sand,sand,A,sand,sand,sand'' @ [CHR 0x0A]"

definition materialTable :: "LogEntry list" where
  "materialTable =
     [[(''Material'', ''sand''), (''material'', ''sand''), (''Site'', ''A''),
       (''MATERIAL'', ''sand''), (''Materials'', ''sand''), (''materials'', ''sand'')]]"

definition materialColumns :: "ColumnDefinition list" where
  "materialColumns =
     [\<lparr>key = ''Material'', label = ''Material'', isNumeric = False, isDate = False\<rparr>,
      \<lparr>key = ''material'', label = ''Material'', isNumeric = False, isDate = False\<rparr>,
      \<lparr>key = ''MATERIAL'', label = ''MATERIAL'', isNumeric = False, isDate = False\<rparr>,
      \<lparr>key = ''Materials'', label = ''Materials'', isNumeric = False, isDate = False\<rparr>,
      \<lparr>key = ''materials'', label = ''Materials'', isNumeric = False, isDate = False\<rparr>]"

text \<open>
  A sheet of the worklog report with two columns for the description of the work,
  the first of them before the column \<open>Site\<close>:
  \<^verbatim>\<open>
  Work Description,Site,Start,End,work description
  dig,A,8,17,fill
  \<close>
  with the table that is read from it and the columns that the application keeps.
\<close>

definition descriptionCSV :: string where
  "descriptionCSV = ''Work Description,Site,Start,End,work description'' @ [CHR 0x0A]
     @ ''dig,A,8,17,fill'' @ [CHR 0x0A]"

definition descriptionTable :: "LogEntry list" where
  "descriptionTable =
     [[(''Work Description'', ''dig''), (''Site'', ''A''), (''Start'', ''8''), (''End'', ''17''),
       (''work description'', ''fill'')]]"

definition descriptionColumns :: "ColumnDefinition list" where
  "descriptionColumns =
     [\<lparr>key = ''Work Description'', label = ''Work Description'', isNumeric = False, isDate = False\<rparr>,
      \<lparr>key = ''Site'', label = ''Site'', isNumeric = False, isDate = False\<rparr>,
      \<lparr>key = ''work description'', label = ''Work description'', isNumeric = False, isDate = False\<rparr>]"

text \<open>
  A sheet of the worklog report with a column \<open>MA\<close> of one value, a column
  \<open>Site\<close>, two columns that the application removes and the description of the work:
  \<^verbatim>\<open>
  MA,Site,Start,End,Work Description
  x,A,8,17,dig
  x,B,9,18,fill
  \<close>
  with the table that is read from it and the columns that the application keeps.
\<close>

definition worklogCSV :: string where
  "worklogCSV = ''MA,Site,Start,End,Work Description'' @ [CHR 0x0A] @ ''x,A,8,17,dig'' @ [CHR 0x0A]
     @ ''x,B,9,18,fill'' @ [CHR 0x0A]"

definition worklogTable :: "LogEntry list" where
  "worklogTable =
     [[(''MA'', ''x''), (''Site'', ''A''), (''Start'', ''8''), (''End'', ''17''), (''Work Description'', ''dig'')],
      [(''MA'', ''x''), (''Site'', ''B''), (''Start'', ''9''), (''End'', ''18''), (''Work Description'', ''fill'')]]"

definition worklogColumns :: "ColumnDefinition list" where
  "worklogColumns =
     [\<lparr>key = ''MA'', label = ''MA'', isNumeric = False, isDate = False\<rparr>,
      \<lparr>key = ''Site'', label = ''Site'', isNumeric = False, isDate = False\<rparr>,
      \<lparr>key = ''Work Description'', label = ''Work Description'', isNumeric = False, isDate = False\<rparr>]"

text \<open>The columns of the table of the examples, as \<open>identifyColumns\<close> infers them, and
  the state of the data table when it is sorted by one of them.\<close>

definition exampleColumns :: "ColumnDefinition list" where
  "exampleColumns =
     [\<lparr>key = ''Date'', label = ''Date'', isNumeric = False, isDate = True\<rparr>,
      \<lparr>key = ''Amount'', label = ''Amount'', isNumeric = True, isDate = False\<rparr>,
      \<lparr>key = ''Type'', label = ''Type'', isNumeric = False, isDate = False\<rparr>]"

definition sortedBy :: "string \<Rightarrow> direction \<Rightarrow> tableState" where
  "sortedBy k dir =
     \<lparr>searchTerm = [], entriesPerPage = 10, currentPage = 1, sortConfig = Some (k, dir)\<rparr>"


text \<open>A table of five records, the filter that selects the type \<open>A\<close>, and a state of
  the data table in which the user has searched for \<open>2024\<close>, sorts by \<open>Date\<close>,
  newest first, and looks at the first page of pages of one entry.\<close>

definition ledgerTable :: "LogEntry list" where
  "ledgerTable =
     [[(''Date'', ''01/02/2024''), (''Amount'', ''1,000.50''), (''Type'', ''A'')],
      [(''Date'', ''15/06/2024''), (''Amount'', ''200''), (''Type'', ''B'')],
      [(''Date'', ''bad''), (''Amount'', ''abc''), (''Type'', ''C'')],
      [(''Date'', ''20/03/2024''), (''Amount'', ''75''), (''Type'', ''A'')],
      [(''Date'', ''pending''), (''Amount'', ''10''), (''Type'', ''A'')]]"

definition ledgerFilters :: FilterState where
  "ledgerFilters = [(''Type'', ''A''), (''Amount'', [])]"

definition ledgerSearch :: tableState where
  "ledgerSearch =
     \<lparr>searchTerm = ''2024'', entriesPerPage = 1, currentPage = 1, sortConfig = Some (''Date'', Desc)\<rparr>"

section \<open>Properties of the line tokenizer\<close>

lemma set_trim_subset: "set (trim s) \<subseteq> set s"
proof -
  have "set (trim s) \<subseteq> set (rev (dropWhile isWhiteSpace s))"
    unfolding trim_def set_rev [of "dropWhile isWhiteSpace (rev (dropWhile isWhiteSpace s))"]
    by (rule subsetI) (erule set_dropWhileD)
  also have "\<dots> \<subseteq> set s"
    unfolding set_rev by (rule subsetI) (erule set_dropWhileD)
  finally show ?thesis .
qed

lemma splitLoop_no_quote:
  assumes "\<forall>f \<in> set result. dq \<notin> set f" and "dq \<notin> set current"
  shows "(\<forall>f \<in> set (fst (splitLoop line result current inQuotes)). dq \<notin> set f)
         \<and> dq \<notin> set (snd (splitLoop line result current inQuotes))"
  using assms
proof (induction line arbitrary: result current inQuotes)
  case Nil
  then show ?case by simp
next
  case (Cons c cs)
  have t: "dq \<notin> set (trim current)"
    using Cons.prems(2) set_trim_subset [of current] by blast
  show ?case
  proof (cases "c = dq")
    case True
    then show ?thesis
      using Cons.IH [OF Cons.prems, of "\<not> inQuotes"] by simp
  next
    case False
    note nq = this
    show ?thesis
    proof (cases "c = CHR '','' \<and> \<not> inQuotes")
      case True
      have r: "\<forall>f \<in> set (result @ [trim current]). dq \<notin> set f"
        using Cons.prems(1) t by simp
      have e: "dq \<notin> set ([] :: string)" by simp
      show ?thesis
        using Cons.IH [OF r e, of inQuotes] nq True by simp
    next
      case False
      have e: "dq \<notin> set (current @ [c])"
        using Cons.prems(2) nq by simp
      show ?thesis
        using Cons.IH [OF Cons.prems(1) e, of inQuotes] nq False by auto
    qed
  qed
qed

lemma stripEnclosingQuotes_id: "dq \<notin> set val \<Longrightarrow> stripEnclosingQuotes val = val"
proof -
  assume nq: "dq \<notin> set val"
  have rest: "(case val of [] \<Rightarrow> [] | c # cs \<Rightarrow> if c = dq then cs else c # cs) = val"
    using nq by (cases val) auto
  have "val \<noteq> [] \<longrightarrow> last val \<noteq> dq"
  proof
    assume "val \<noteq> []"
    then have "last val \<in> set val" by (rule last_in_set)
    with nq show "last val \<noteq> dq" by metis
  qed
  then have "\<not> (val \<noteq> [] \<and> last val = dq)"
    by blast
  then show ?thesis
    unfolding stripEnclosingQuotes_def rest Let_def by (simp only: if_False)
qed

lemma collapseDoubledQuotes_id: "dq \<notin> set val \<Longrightarrow> collapseDoubledQuotes val = val"
  by (induction val rule: collapseDoubledQuotes.induct) auto

text \<open>No field the tokenizer returns holds a quote character, whatever the line: the
  loop never appends a quote to \<open>current\<close>, so the two replacements of the final
  \<open>map\<close> find nothing to replace.\<close>

lemma splitCSVLine_fields_have_no_quote:
  "f \<in> set (splitCSVLine line) \<Longrightarrow> dq \<notin> set f"
proof -
  assume f: "f \<in> set (splitCSVLine line)"
  obtain result current where sl: "splitLoop line [] [] False = (result, current)"
    by (cases "splitLoop line [] [] False")
  have inv: "(\<forall>g \<in> set result. dq \<notin> set g) \<and> dq \<notin> set current"
    using splitLoop_no_quote [of "[]" "[]" line False] sl by simp
  then have "dq \<notin> set (trim current)"
    using set_trim_subset [of current] by blast
  with inv have all: "\<forall>g \<in> set (result @ [trim current]). dq \<notin> set g"
    by simp
  have "splitCSVLine line =
      map (\<lambda>val. collapseDoubledQuotes (stripEnclosingQuotes val)) (result @ [trim current])"
    by (simp add: splitCSVLine_def sl)
  with f obtain g where g: "g \<in> set (result @ [trim current])"
    and fg: "f = collapseDoubledQuotes (stripEnclosingQuotes g)"
    by (metis (no_types, lifting) imageE list.set_map)
  from all g have "dq \<notin> set g" by blast
  then show ?thesis
    using fg by (simp add: stripEnclosingQuotes_id collapseDoubledQuotes_id)
qed

lemma splitCSVLine_quoted_comma:
  "splitCSVLine (''a,'' @ dq # ''b,c'' @ dq # '',d'') = [''a'', ''b,c'', ''d'']"
  by (simp add: splitCSVLine_def trim_def isWhiteSpace_def stripEnclosingQuotes_def)

lemma splitCSVLine_trailing_comma:
  "splitCSVLine ''a,b,'' = [''a'', ''b'', '''']"
  by (simp add: splitCSVLine_def trim_def isWhiteSpace_def stripEnclosingQuotes_def)

text \<open>
  Claim C1. The tokenizer is claimed to collapse a doubled quote inside a quoted field
  to one literal quote, so that the line \<open>a,"b""c",d\<close> gives the fields \<open>a\<close>,
  \<open>b"c\<close> and \<open>d\<close>. On this line the code returns \<open>a\<close>, \<open>bc\<close> and \<open>d\<close>: each
  of the four quotes only toggles \<open>inQuotes\<close> and none reaches the field.
\<close>

theorem splitCSVLine_doubled_quote_dropped:
  "splitCSVLine (''a,'' @ dq # ''b'' @ dq # dq # ''c'' @ dq # '',d'') = [''a'', ''bc'', ''d'']"
  by (simp add: splitCSVLine_def trim_def isWhiteSpace_def stripEnclosingQuotes_def)

section \<open>Properties of the date parser\<close>

lemma digitsBetween_iff:
  "(g, r) \<in> set (digitsBetween lo hi s) \<longleftrightarrow> s = g @ r \<and> digitRun lo hi g"
proof
  assume "(g, r) \<in> set (digitsBetween lo hi s)"
  then obtain k where k: "lo \<le> k" "k \<le> hi" "k \<le> length s" "list_all isDigit (take k s)"
      "g = take k s" "r = drop k s"
    by (auto simp: digitsBetween_def split: if_splits)
  then show "s = g @ r \<and> digitRun lo hi g"
    by (simp add: digitRun_def)
next
  assume a: "s = g @ r \<and> digitRun lo hi g"
  then have "lo \<le> length g" "length g \<le> hi" "length g \<le> length s"
    "list_all isDigit (take (length g) s)" "g = take (length g) s" "r = drop (length g) s"
    by (simp_all add: digitRun_def)
  then show "(g, r) \<in> set (digitsBetween lo hi s)"
    unfolding digitsBetween_def by (auto intro!: bexI [of _ "length g"])
qed

lemma dateSeparator_iff:
  "r \<in> set (dateSeparator s) \<longleftrightarrow> (\<exists>c. s = c # r \<and> isDateSeparator c)"
  by (cases s) (auto simp: dateSeparator_def)

lemma colon_iff: "r \<in> set (colon s) \<longleftrightarrow> s = CHR '':'' # r"
  by (cases s) (auto simp: colon_def)

lemma spaces1_iff:
  "r \<in> set (spaces1 s) \<longleftrightarrow> (\<exists>ws. ws \<noteq> [] \<and> list_all isWhiteSpace ws \<and> s = ws @ r)"
proof
  assume "r \<in> set (spaces1 s)"
  then obtain k where k: "1 \<le> k" "k \<le> length (takeWhile isWhiteSpace s)" "r = drop k s"
    by (auto simp: spaces1_def)
  have "take k s = take k (takeWhile isWhiteSpace s)"
    using k(2) by (metis append_eq_conv_conj append_take_drop_id takeWhile_dropWhile_id take_add take_all min.absorb2 take_take min.commute)
  then have "list_all isWhiteSpace (take k s)"
    by (metis list_all_iff in_set_takeD set_takeWhileD)
  moreover have "take k s \<noteq> []"
    using k by (cases s) auto
  ultimately show "\<exists>ws. ws \<noteq> [] \<and> list_all isWhiteSpace ws \<and> s = ws @ r"
    using k(3) by (metis append_take_drop_id)
next
  assume "\<exists>ws. ws \<noteq> [] \<and> list_all isWhiteSpace ws \<and> s = ws @ r"
  then obtain ws where ws: "ws \<noteq> []" "list_all isWhiteSpace ws" "s = ws @ r" by blast
  have "length ws \<le> length (takeWhile isWhiteSpace s)"
    using ws(2,3) by (simp add: list_all_iff takeWhile_append2)
  moreover have "1 \<le> length ws" using ws(1) by (cases ws) auto
  moreover have "r = drop (length ws) s" using ws(3) by simp
  ultimately have "length ws \<in> set (rev [1 ..< Suc (length (takeWhile isWhiteSpace s))])"
    and "r = drop (length ws) s"
    by auto
  then show "r \<in> set (spaces1 s)"
    unfolding spaces1_def set_map by (rule_tac image_eqI)
qed

lemma in_concat_map:
  "y \<in> set (concat (map f xs)) \<longleftrightarrow> (\<exists>x. x \<in> set xs \<and> y \<in> set (f x))"
  by auto

lemma secondsGroup_iff:
  "(g, r) \<in> set (secondsGroup s) \<longleftrightarrow>
     (g = None \<and> r = s) \<or> (\<exists>ss. g = Some ss \<and> s = CHR '':'' # ss @ r \<and> digitRun 1 2 ss)"
  unfolding secondsGroup_def
  apply (simp only: set_append in_concat_map Un_iff set_map image_iff split_paired_Ex prod.case colon_iff digitsBetween_iff Bex_def)
  apply auto
  done

lemma timeGroup_iff:
  "(t, r) \<in> set (timeGroup s) \<longleftrightarrow>
     (t = (None, None, None) \<and> r = s) \<or>
     (\<exists>ws hh mi g. ws \<noteq> [] \<and> list_all isWhiteSpace ws \<and> digitRun 1 2 hh \<and> digitRun 1 2 mi \<and>
        t = (Some hh, Some mi, g) \<and>
        ((g = None \<and> s = ws @ hh @ CHR '':'' # mi @ r) \<or>
         (\<exists>ss. g = Some ss \<and> digitRun 1 2 ss \<and> s = ws @ hh @ CHR '':'' # mi @ CHR '':'' # ss @ r)))"
  unfolding timeGroup_def
  apply (simp only: set_append in_concat_map Un_iff set_map image_iff split_paired_Ex prod.case colon_iff digitsBetween_iff spaces1_iff secondsGroup_iff Bex_def)
  apply auto
  done

lemma dmyRegex_iff: "m \<in> set (dmyRegex d) \<longleftrightarrow> dmyShape d m"
  unfolding dmyRegex_def dmyShape_def timeShape_def
  apply (cases m)
  apply (simp only: set_append in_concat_map Un_iff set_map image_iff split_paired_Ex prod.case colon_iff digitsBetween_iff dateSeparator_iff timeGroup_iff Bex_def)
  apply (auto split: if_splits)
    apply (intro exI conjI; (rule refl | assumption))
   apply (intro exI conjI; (rule refl | assumption))
  apply (intro exI conjI; (rule refl | assumption))
  done

lemma run_split_unique:
  assumes "list_all P g" and "list_all P g'"
    and "r = [] \<or> \<not> P (hd r)" and "r' = [] \<or> \<not> P (hd r')"
    and "g @ r = g' @ r'"
  shows "g = g' \<and> r = r'"
proof -
  have tw: "takeWhile P (u @ v) = u" if "list_all P u" and "v = [] \<or> \<not> P (hd v)" for u v
  proof -
    have "takeWhile P v = []" using that(2) by (cases v) auto
    then show ?thesis using that(1) by (simp add: list_all_iff)
  qed
  have "g = takeWhile P (g @ r)" using tw [OF assms(1,3)] by simp
  also have "\<dots> = takeWhile P (g' @ r')" using assms(5) by simp
  also have "\<dots> = g'" using tw [OF assms(2,4)] .
  finally have "g = g'" .
  then show ?thesis using assms(5) by simp
qed

lemma separator_not_digit: "isDateSeparator c \<Longrightarrow> \<not> isDigit c"
  by (auto simp: isDateSeparator_def isDigit_def)

lemma colon_not_digit: "\<not> isDigit CHR '':''"
  by (simp add: isDigit_def)

lemma space_not_digit: "isWhiteSpace c \<Longrightarrow> \<not> isDigit c"
  by (auto simp: isWhiteSpace_def isDigit_def)

lemma digitRun_all: "digitRun lo hi g \<Longrightarrow> list_all isDigit g"
  by (simp add: digitRun_def)

lemma digitRun_hd: "digitRun (Suc n) hi g \<Longrightarrow> g \<noteq> [] \<and> isDigit (hd g)"
  by (cases g) (auto simp: digitRun_def)

lemma timeShape_stops: "timeShape tm t \<Longrightarrow> tm = [] \<or> \<not> isDigit (hd tm)"
proof -
  assume "timeShape tm t"
  then consider "tm = []" | ws rest where "ws \<noteq> []" "list_all isWhiteSpace ws" "tm = ws @ rest"
    unfolding timeShape_def by auto
  then show ?thesis
  proof cases
    case 1 then show ?thesis by simp
  next
    case 2
    then have "hd tm = hd ws" "isWhiteSpace (hd ws)"
      by (cases ws; simp)+
    then show ?thesis using space_not_digit by simp
  qed
qed

lemma timeShape_unique:
  assumes "timeShape tm t" and "timeShape tm t'"
  shows "t = t'"
proof (cases "tm = []")
  case True
  then show ?thesis using assms unfolding timeShape_def by auto
next
  case False
  have ex: "\<exists>ws hh mi g. ws \<noteq> [] \<and> list_all isWhiteSpace ws \<and> digitRun 1 2 hh \<and> digitRun 1 2 mi
      \<and> u = (Some hh, Some mi, g)
      \<and> tm = ws @ hh @ CHR '':'' # mi @ (case g of None \<Rightarrow> [] | Some ss \<Rightarrow> CHR '':'' # ss)"
    if "timeShape tm u" for u
  proof -
    from that False obtain ws hh mi where w: "ws \<noteq> []" "list_all isWhiteSpace ws"
        "digitRun 1 2 hh" "digitRun 1 2 mi"
        "(tm = ws @ hh @ CHR '':'' # mi \<and> u = (Some hh, Some mi, None)) \<or>
         (\<exists>ss. digitRun 1 2 ss \<and> tm = ws @ hh @ CHR '':'' # mi @ CHR '':'' # ss
               \<and> u = (Some hh, Some mi, Some ss))"
      unfolding timeShape_def by blast
    from w(5) show ?thesis
    proof
      assume "tm = ws @ hh @ CHR '':'' # mi \<and> u = (Some hh, Some mi, None)"
      then show ?thesis
        using w(1-4) by (intro exI [of _ ws] exI [of _ hh] exI [of _ mi] exI [of _ None]) simp
    next
      assume "\<exists>ss. digitRun 1 2 ss \<and> tm = ws @ hh @ CHR '':'' # mi @ CHR '':'' # ss
               \<and> u = (Some hh, Some mi, Some ss)"
      then obtain ss where "tm = ws @ hh @ CHR '':'' # mi @ CHR '':'' # ss"
          "u = (Some hh, Some mi, Some ss)" by blast
      then show ?thesis
        using w(1-4) by (intro exI [of _ ws] exI [of _ hh] exI [of _ mi] exI [of _ "Some ss"]) simp
    qed
  qed
  obtain ws hh mi g where a: "ws \<noteq> []" "list_all isWhiteSpace ws" "digitRun 1 2 hh" "digitRun 1 2 mi"
      "t = (Some hh, Some mi, g)"
      "tm = ws @ hh @ CHR '':'' # mi @ (case g of None \<Rightarrow> [] | Some ss \<Rightarrow> CHR '':'' # ss)"
    using ex [OF assms(1)] by blast
  obtain ws' hh' mi' g' where b: "ws' \<noteq> []" "list_all isWhiteSpace ws'" "digitRun 1 2 hh'" "digitRun 1 2 mi'"
      "t' = (Some hh', Some mi', g')"
      "tm = ws' @ hh' @ CHR '':'' # mi' @ (case g' of None \<Rightarrow> [] | Some ss \<Rightarrow> CHR '':'' # ss)"
    using ex [OF assms(2)] by blast
  define rest where "rest = (case g of None \<Rightarrow> [] | Some ss \<Rightarrow> CHR '':'' # ss)"
  define rest' where "rest' = (case g' of None \<Rightarrow> [] | Some ss \<Rightarrow> CHR '':'' # ss)"
  have tm: "tm = ws @ (hh @ CHR '':'' # mi @ rest)" using a(6) by (simp add: rest_def)
  have tm': "tm = ws' @ (hh' @ CHR '':'' # mi' @ rest')" using b(6) by (simp add: rest'_def)
  have h1: "hh @ CHR '':'' # mi @ rest = [] \<or> \<not> isWhiteSpace (hd (hh @ CHR '':'' # mi @ rest))"
    using digitRun_hd [of 0 2 hh] a(3) space_not_digit by (cases hh) auto
  have h1': "hh' @ CHR '':'' # mi' @ rest' = [] \<or> \<not> isWhiteSpace (hd (hh' @ CHR '':'' # mi' @ rest'))"
    using digitRun_hd [of 0 2 hh'] b(3) space_not_digit by (cases hh') auto
  have e1: "ws = ws' \<and> hh @ CHR '':'' # mi @ rest = hh' @ CHR '':'' # mi' @ rest'"
    using run_split_unique [OF a(2) b(2) h1 h1'] tm tm' by simp
  have e2: "hh = hh' \<and> CHR '':'' # mi @ rest = CHR '':'' # mi' @ rest'"
    using run_split_unique [of isDigit hh hh' "CHR '':'' # mi @ rest" "CHR '':'' # mi' @ rest'"]
      digitRun_all [OF a(3)] digitRun_all [OF b(3)] colon_not_digit e1 by simp
  have s: "rest = [] \<or> \<not> isDigit (hd rest)"
    using colon_not_digit by (cases g) (simp_all add: rest_def)
  have s': "rest' = [] \<or> \<not> isDigit (hd rest')"
    using colon_not_digit by (cases g') (simp_all add: rest'_def)
  have e3: "mi = mi' \<and> rest = rest'"
    using run_split_unique [OF digitRun_all [OF a(4)] digitRun_all [OF b(4)] s s'] e2 by simp
  have "g = g'"
    using e3 by (cases g; cases g') (simp_all add: rest_def rest'_def)
  then show ?thesis using a(5) b(5) e2 e3 by simp
qed

lemma dmyShape_unique:
  assumes "dmyShape d m" and "dmyShape d m'"
  shows "m = m'"
proof -
  obtain g1 g2 g3 t where m: "m = (g1, g2, g3, t)" by (cases m)
  obtain g1' g2' g3' t' where m': "m' = (g1', g2', g3', t')" by (cases m')
  obtain s1 s2 tm where a: "d = g1 @ s1 # g2 @ s2 # g3 @ tm" "digitRun 1 2 g1" "isDateSeparator s1"
      "digitRun 1 2 g2" "isDateSeparator s2" "digitRun 2 4 g3" "timeShape tm t"
    using assms(1) unfolding m dmyShape_def by auto
  obtain s1' s2' tm' where b: "d = g1' @ s1' # g2' @ s2' # g3' @ tm'" "digitRun 1 2 g1'"
      "isDateSeparator s1'" "digitRun 1 2 g2'" "isDateSeparator s2'" "digitRun 2 4 g3'" "timeShape tm' t'"
    using assms(2) unfolding m' dmyShape_def by auto
  have e1: "g1 = g1' \<and> s1 # g2 @ s2 # g3 @ tm = s1' # g2' @ s2' # g3' @ tm'"
    using run_split_unique [of isDigit g1 g1' "s1 # g2 @ s2 # g3 @ tm" "s1' # g2' @ s2' # g3' @ tm'"]
      digitRun_all [OF a(2)] digitRun_all [OF b(2)] separator_not_digit [OF a(3)]
      separator_not_digit [OF b(3)] a(1) b(1) by simp
  have e2: "g2 = g2' \<and> s2 # g3 @ tm = s2' # g3' @ tm'"
    using run_split_unique [of isDigit g2 g2' "s2 # g3 @ tm" "s2' # g3' @ tm'"]
      digitRun_all [OF a(4)] digitRun_all [OF b(4)] separator_not_digit [OF a(5)]
      separator_not_digit [OF b(5)] e1 by simp
  have e3: "g3 = g3' \<and> tm = tm'"
    using run_split_unique [OF digitRun_all [OF a(6)] digitRun_all [OF b(6)]
        timeShape_stops [OF a(7)] timeShape_stops [OF b(7)]] e2 by simp
  have "t = t'"
    using timeShape_unique [of tm t t'] a(7) b(7) e3 by simp
  then show ?thesis using m m' e1 e2 e3 by simp
qed

lemma match_dmyRegex_Some_iff: "match_dmyRegex d = Some m \<longleftrightarrow> dmyShape d m"
proof
  assume "match_dmyRegex d = Some m"
  then have "m \<in> set (dmyRegex d)"
    by (cases "dmyRegex d") (auto simp: match_dmyRegex_def)
  then show "dmyShape d m" by (simp add: dmyRegex_iff)
next
  assume s: "dmyShape d m"
  then have "m \<in> set (dmyRegex d)" by (simp add: dmyRegex_iff)
  then obtain m' ms where l: "dmyRegex d = m' # ms" by (cases "dmyRegex d") auto
  then have "m' \<in> set (dmyRegex d)" by simp
  then have "dmyShape d m'" by (simp add: dmyRegex_iff)
  then have "m' = m" using s dmyShape_unique by blast
  then show "match_dmyRegex d = Some m" using l by (simp add: match_dmyRegex_def)
qed

lemma match_dmyRegex_None_iff: "match_dmyRegex d = None \<longleftrightarrow> (\<forall>m. \<not> dmyShape d m)"
proof (cases "match_dmyRegex d")
  case None
  then have "\<not> dmyShape d m" for m
    using match_dmyRegex_Some_iff [of d m] by simp
  with None show ?thesis by simp
next
  case (Some m)
  then have "dmyShape d m" by (simp add: match_dmyRegex_Some_iff)
  then have "\<not> (\<forall>m. \<not> dmyShape d m)" by blast
  with Some show ?thesis by simp
qed

lemma foldl_digits_nonneg:
  "list_all isDigit g \<Longrightarrow> 0 \<le> n \<Longrightarrow> 0 \<le> foldl (\<lambda>n c. 10 * n + digitValue c) n g"
proof (induction g arbitrary: n)
  case Nil
  then show ?case by simp
next
  case (Cons c g)
  have "0 \<le> digitValue c"
    using Cons.prems(1) by (auto simp: isDigit_def digitValue_def)
  then have "0 \<le> 10 * n + digitValue c" using Cons.prems(2) by simp
  then show ?case using Cons.IH Cons.prems(1) by simp
qed

lemma parseInt10_nonneg: "list_all isDigit g \<Longrightarrow> 0 \<le> parseInt10 g"
  unfolding parseInt10_def by (rule foldl_digits_nonneg) simp_all

lemma newDate_getTime_yearOf:
  "list_all isDigit g3 \<Longrightarrow>
   newDate_getTime P (yearOf g3) month day hour minute sec =
     TimeClip (localToUTC P (MakeDate (MakeDay (yearOf g3) month day) (MakeTime hour minute sec 0)))"
  using parseInt10_nonneg [of g3] by (simp add: newDate_getTime_def yearOf_def)

lemma parseDate_blank: "trim s = [] \<Longrightarrow> parseDate P s = None"
  by (simp add: parseDate_def)

lemma parseDate_no_match:
  "trim s \<noteq> [] \<Longrightarrow> match_dmyRegex (trim s) = None \<Longrightarrow> parseDate P s = Date_parse P (trim s)"
  by (simp add: parseDate_def)

lemma parseDate_match:
  assumes "dmyShape (trim s) (g1, g2, g3, g4, g5, g6)"
  shows "parseDate P s =
     (if 1 \<le> parseInt10 g2 \<and> parseInt10 g2 \<le> 12 \<and> 1 \<le> parseInt10 g1 \<and> parseInt10 g1 \<le> 31
      then (case TimeClip (localToUTC P
                 (MakeDate (MakeDay (yearOf g3) (parseInt10 g2 - 1) (parseInt10 g1))
                    (MakeTime (groupOrZero g4) (groupOrZero g5) (groupOrZero g6) 0))) of
              Some t \<Rightarrow> Some t
            | None \<Rightarrow> Date_parse P (trim s))
      else Date_parse P (trim s))"
proof -
  have m: "match_dmyRegex (trim s) = Some (g1, g2, g3, g4, g5, g6)"
    using assms by (simp add: match_dmyRegex_Some_iff)
  have d3: "list_all isDigit g3"
    using assms by (auto simp: dmyShape_def digitRun_def)
  have ne: "trim s \<noteq> []"
    using assms by (auto simp: dmyShape_def digitRun_def)
  have nd: "newDate_getTime P (if parseInt10 g3 < 100 then parseInt10 g3 + 2000 else parseInt10 g3)
        mo da h mi se =
      TimeClip (localToUTC P (MakeDate (MakeDay (yearOf g3) mo da) (MakeTime h mi se 0)))"
    for mo da h mi se
    using newDate_getTime_yearOf [OF d3, of P mo da h mi se] by (simp only: yearOf_def)
  have v: "(0 \<le> parseInt10 g2 - 1 \<and> parseInt10 g2 - 1 \<le> 11 \<and> 1 \<le> parseInt10 g1 \<and> parseInt10 g1 \<le> 31)
      = (1 \<le> parseInt10 g2 \<and> parseInt10 g2 \<le> 12 \<and> 1 \<le> parseInt10 g1 \<and> parseInt10 g1 \<le> 31)"
    by auto
  have "parseDate P s =
      (case (if 0 \<le> parseInt10 g2 - 1 \<and> parseInt10 g2 - 1 \<le> 11 \<and> 1 \<le> parseInt10 g1 \<and> parseInt10 g1 \<le> 31
             then newDate_getTime P (if parseInt10 g3 < 100 then parseInt10 g3 + 2000 else parseInt10 g3)
                    (parseInt10 g2 - 1) (parseInt10 g1) (groupOrZero g4) (groupOrZero g5) (groupOrZero g6)
             else None) of
         Some t \<Rightarrow> Some t
       | None \<Rightarrow> Date_parse P (trim s))"
    unfolding parseDate_def Let_def m using ne by (simp only: if_False option.case prod.case)
  then show ?thesis
    unfolding nd v by (simp split: option.split)
qed

lemma example_dmy_shape:
  "trim ''03/04/2024'' = ''03/04/2024''"
  "dmyShape ''03/04/2024'' (''03'', ''04'', ''2024'', None, None, None)"
  "parseInt10 ''03'' = 3" "parseInt10 ''04'' = 4" "yearOf ''2024'' = 2024"
proof -
  show "trim ''03/04/2024'' = ''03/04/2024''" by code_simp
  have "match_dmyRegex ''03/04/2024'' = Some (''03'', ''04'', ''2024'', None, None, None)"
    by code_simp
  then show "dmyShape ''03/04/2024'' (''03'', ''04'', ''2024'', None, None, None)"
    by (simp only: match_dmyRegex_Some_iff)
  show "parseInt10 ''03'' = 3" "parseInt10 ''04'' = 4" "yearOf ''2024'' = 2024"
    by code_simp+
qed

lemma example_iso_no_match:
  "trim ''2024-03-04'' = ''2024-03-04''" "match_dmyRegex ''2024-03-04'' = None"
  by code_simp+

lemma example_iso_parse:
  "Date_parse P ''2024-03-04'' = Some (MakeDate (MakeDay 2024 2 4) (MakeTime 0 0 0 0))"
proof -
  have "isoCalendarDate ''2024-03-04'' = Some (MakeDay 2024 2 4)" by code_simp
  moreover have "TimeClip (MakeDate (MakeDay 2024 2 4) (MakeTime 0 0 0 0))
      = Some (MakeDate (MakeDay 2024 2 4) (MakeTime 0 0 0 0))"
    by code_simp
  ultimately show ?thesis by (simp add: Date_parse_def)
qed

lemma example_text_not_iso: "isoCalendarDate ''not a date'' = None"
  by code_simp

lemma example_text_no_match:
  "trim ''not a date'' = ''not a date''" "match_dmyRegex ''not a date'' = None"
  by code_simp+

text \<open>
  Claim C2, as amended. \<open>parseDate\<close> reads a date day-first. A string which, once
  trimmed, is a day of one or two digits, a separator \<open>/\<close>, \<open>.\<close> or \<open>-\<close>, a month
  of one or two digits, a separator and a year of two to four digits, with an
  optional time of day, whose month is from 1 to 12 and day from 1 to 31 and whose
  local date and time is a valid time value, gives that time value, before the
  platform parser is asked; a year value below 100 counts from 2000. A blank string
  gives not-a-date. Every other string gives what the platform parser returns on
  the trimmed string, a time value or not-a-date. So \<open>03/04/2024\<close> is the third of
  April 2024 (month index 3, day 3, local midnight); \<open>2024-03-04\<close> goes to the
  platform parser and is the fourth of March 2024 (month index 2, day 4, midnight
  UTC, as ECMAScript prescribes for this format); \<open>not a date\<close> goes to the
  platform parser and is not-a-date, the parser not recognising it.
\<close>

theorem parseDate_day_first:
  "(trim s = [] \<longrightarrow> parseDate P s = None) \<and>
   (\<forall>ts. dayFirstInstant P (trim s) ts \<longrightarrow> parseDate P s = Some ts) \<and>
   (trim s \<noteq> [] \<and> (\<forall>ts. \<not> dayFirstInstant P (trim s) ts) \<longrightarrow>
      parseDate P s = Date_parse P (trim s)) \<and>
   (\<forall>ts. TimeClip (localToUTC P (MakeDate (MakeDay 2024 3 3) (MakeTime 0 0 0 0))) = Some ts \<longrightarrow>
      parseDate P ''03/04/2024'' = Some ts) \<and>
   parseDate P ''2024-03-04'' = Some (MakeDate (MakeDay 2024 2 4) (MakeTime 0 0 0 0)) \<and>
   (Date_parse_heuristic P ''not a date'' = None \<longrightarrow> parseDate P ''not a date'' = None)"
proof (intro conjI allI impI)
  assume "trim s = []"
  then show "parseDate P s = None" by (rule parseDate_blank)
next
  fix ts
  assume "dayFirstInstant P (trim s) ts"
  then obtain g1 g2 g3 g4 g5 g6 where sh: "dmyShape (trim s) (g1, g2, g3, g4, g5, g6)"
    and v: "1 \<le> parseInt10 g2 \<and> parseInt10 g2 \<le> 12 \<and> 1 \<le> parseInt10 g1 \<and> parseInt10 g1 \<le> 31"
    and t: "TimeClip (localToUTC P
          (MakeDate (MakeDay (yearOf g3) (parseInt10 g2 - 1) (parseInt10 g1))
             (MakeTime (groupOrZero g4) (groupOrZero g5) (groupOrZero g6) 0))) = Some ts"
    unfolding dayFirstInstant_def by blast
  show "parseDate P s = Some ts"
    unfolding parseDate_match [OF sh] using v t by simp
next
  assume a: "trim s \<noteq> [] \<and> (\<forall>ts. \<not> dayFirstInstant P (trim s) ts)"
  show "parseDate P s = Date_parse P (trim s)"
  proof (cases "match_dmyRegex (trim s)")
    case None
    then show ?thesis using a by (simp add: parseDate_no_match)
  next
    case (Some m)
    obtain g1 g2 g3 g4 g5 g6 where m: "m = (g1, g2, g3, g4, g5, g6)"
      by (cases m) auto
    have sh: "dmyShape (trim s) (g1, g2, g3, g4, g5, g6)"
      using Some m by (simp add: match_dmyRegex_Some_iff)
    have no: "\<not> (1 \<le> parseInt10 g2 \<and> parseInt10 g2 \<le> 12 \<and> 1 \<le> parseInt10 g1 \<and> parseInt10 g1 \<le> 31) \<or>
        TimeClip (localToUTC P
          (MakeDate (MakeDay (yearOf g3) (parseInt10 g2 - 1) (parseInt10 g1))
             (MakeTime (groupOrZero g4) (groupOrZero g5) (groupOrZero g6) 0))) = None"
    proof (rule ccontr)
      assume "\<not> ?thesis"
      then obtain ts where "dayFirstInstant P (trim s) ts"
        unfolding dayFirstInstant_def using sh by (metis not_Some_eq)
      then show False using a by blast
    qed
    then show ?thesis
      unfolding parseDate_match [OF sh] by auto
  qed
next
  fix ts
  assume t: "TimeClip (localToUTC P (MakeDate (MakeDay 2024 3 3) (MakeTime 0 0 0 0))) = Some ts"
  have sh: "dmyShape (trim ''03/04/2024'') (''03'', ''04'', ''2024'', None, None, None)"
    by (simp only: example_dmy_shape)
  show "parseDate P ''03/04/2024'' = Some ts"
    unfolding parseDate_match [OF sh] using t
    by (simp add: example_dmy_shape groupOrZero_def)
next
  have "parseDate P ''2024-03-04'' = Date_parse P ''2024-03-04''"
    using parseDate_no_match [of "''2024-03-04''" P] by (simp add: example_iso_no_match)
  then show "parseDate P ''2024-03-04'' = Some (MakeDate (MakeDay 2024 2 4) (MakeTime 0 0 0 0))"
    by (simp only: example_iso_parse)
next
  assume "Date_parse_heuristic P ''not a date'' = None"
  then have "Date_parse P ''not a date'' = None"
    by (simp add: Date_parse_def example_text_not_iso)
  then show "parseDate P ''not a date'' = None"
    using parseDate_no_match [of "''not a date''" P] by (simp add: example_text_no_match)
qed

text \<open>On the platform of the examples: the third of April 2024, the fourth of March
  2024 at midnight UTC, and not-a-date for \<open>not a date\<close> and for a blank string.\<close>

theorem parseDate_day_first_witness:
  "parseDate examplePlatform ''03/04/2024'' = Some 1712102400000 \<and>
   parseDate examplePlatform ''2024-03-04'' = Some 1709510400000 \<and>
   parseDate examplePlatform ''not a date'' = None \<and>
   parseDate examplePlatform ''   '' = None"
proof -
  have c: "TimeClip (localToUTC examplePlatform (MakeDate (MakeDay 2024 3 3) (MakeTime 0 0 0 0)))
      = Some 1712102400000"
    by code_simp
  have b: "trim ''   '' = []" by code_simp
  have h: "Date_parse_heuristic examplePlatform ''not a date'' = None"
    by (simp add: examplePlatform_def)
  have v: "MakeDate (MakeDay 2024 2 4) (MakeTime 0 0 0 0) = 1709510400000"
    by code_simp
  note p = parseDate_day_first [of "''   ''" examplePlatform]
  from p c have "parseDate examplePlatform ''03/04/2024'' = Some 1712102400000" by blast
  moreover from p v have "parseDate examplePlatform ''2024-03-04'' = Some 1709510400000" by simp
  moreover from p h have "parseDate examplePlatform ''not a date'' = None" by blast
  moreover from p b have "parseDate examplePlatform ''   '' = None" by blast
  ultimately show ?thesis by blast
qed

text \<open>The claim as it was stated lets the year have two or four digits and sends every
  other string to the platform parser. A year of three digits is read day-first all
  the same: \<open>13/1/202\<close> is the thirteenth of January of the year 202, where the
  platform parser of the examples returns not-a-date.\<close>

theorem parseDate_three_digit_year:
  "parseDate examplePlatform ''13/1/202'' = Some (- 55791676800000) \<and>
   Date_parse examplePlatform ''13/1/202'' = None"
  by code_simp

section \<open>Properties of the tabular parser\<close>

text \<open>The loop over the rows keeps, in their order, the lines that have as many fields
  as the header, and nothing else.\<close>

lemma rowsLoop_filter_map:
  "rowsLoop headers lines data =
     data @ map (\<lambda>line. makeEntry headers (splitCSVLine line))
              (filter (\<lambda>line. length (splitCSVLine line) = length headers) lines)"
  by (induction lines arbitrary: data) (simp_all add: Let_def)

lemma parseCSV_never_rejects: "\<exists>data. fst (parseCSV outcome) = Fulfilled data"
  by (cases "parseCSV_try outcome") (simp_all add: parseCSV_def)

text \<open>The split of the code cuts the text at its line ends: it returns the one list of
  pieces that \<open>cutAtLineEnds\<close> allows, and every text has one.\<close>

lemma splitLines_whole:
  "CHR 0x0A \<notin> set p \<Longrightarrow> splitLines p piece = [piece @ p]"
  by (induction p piece rule: splitLines.induct) auto

lemma splitLines_lineFeed:
  "CHR 0x0A \<notin> set p \<Longrightarrow> p = [] \<or> last p \<noteq> CHR 0x0D \<Longrightarrow>
   splitLines (p @ CHR 0x0A # rest) piece = (piece @ p) # splitLines rest []"
proof (induction p arbitrary: piece)
  case Nil
  then show ?case by (cases rest) simp_all
next
  case (Cons c p)
  then have c: "c \<noteq> CHR 0x0A" and p: "CHR 0x0A \<notin> set p" by auto
  show ?case
  proof (cases p)
    case Nil
    then have "c \<noteq> CHR 0x0D" using Cons.prems(2) by simp
    then show ?thesis using Nil c Cons.IH [of "piece @ [c]"] by simp
  next
    case (Cons d p')
    then have "p = [] \<or> last p \<noteq> CHR 0x0D" using Cons.prems(2) by simp
    moreover have "d \<noteq> CHR 0x0A" using p Cons by auto
    ultimately show ?thesis
      using Cons c p Cons.IH [of "piece @ [c]"] by simp
  qed
qed

lemma splitLines_returnLineFeed:
  "CHR 0x0A \<notin> set p \<Longrightarrow>
   splitLines (p @ CHR 0x0D # CHR 0x0A # rest) piece = (piece @ p) # splitLines rest []"
proof (induction p arbitrary: piece)
  case Nil
  then show ?case by simp
next
  case (Cons c p)
  then have c: "c \<noteq> CHR 0x0A" and p: "CHR 0x0A \<notin> set p" by auto
  show ?case
  proof (cases p)
    case Nil
    then show ?thesis using c Cons.IH [of "piece @ [c]"] by simp
  next
    case (Cons d p')
    then have "d \<noteq> CHR 0x0A" using p by auto
    then show ?thesis
      using Cons c p Cons.IH [of "piece @ [c]"] by simp
  qed
qed

lemma cutAtLineEnds_splitLines: "cutAtLineEnds s pieces \<Longrightarrow> splitLines s [] = pieces"
  by (induction rule: cutAtLineEnds.induct)
     (simp_all add: splitLines_whole splitLines_lineFeed splitLines_returnLineFeed)

text \<open>The lines that the code drops are the blank ones.\<close>

lemma trim_Nil_iff: "trim line = [] \<longleftrightarrow> blank line"
proof -
  have "trim line = [] \<longleftrightarrow> dropWhile isWhiteSpace (rev (dropWhile isWhiteSpace line)) = []"
    by (simp add: trim_def)
  also have "\<dots> \<longleftrightarrow> (\<forall>c \<in> set (dropWhile isWhiteSpace line). isWhiteSpace c)"
    by (simp add: dropWhile_eq_Nil_conv)
  also have "\<dots> \<longleftrightarrow> dropWhile isWhiteSpace line = []"
  proof
    assume a: "\<forall>c \<in> set (dropWhile isWhiteSpace line). isWhiteSpace c"
    show "dropWhile isWhiteSpace line = []"
    proof (rule ccontr)
      assume n: "dropWhile isWhiteSpace line \<noteq> []"
      then have "\<not> isWhiteSpace (hd (dropWhile isWhiteSpace line))" by (rule hd_dropWhile)
      moreover have "hd (dropWhile isWhiteSpace line) \<in> set (dropWhile isWhiteSpace line)"
        using n by (rule hd_in_set)
      ultimately show False using a by blast
    qed
  next
    assume e: "dropWhile isWhiteSpace line = []"
    show "\<forall>c \<in> set (dropWhile isWhiteSpace line). isWhiteSpace c"
      unfolding e by simp
  qed
  also have "\<dots> \<longleftrightarrow> blank line"
    unfolding dropWhile_eq_Nil_conv blank_def list_all_iff ..
  finally show ?thesis .
qed

lemma nonBlankLines_cut:
  "cutAtLineEnds s pieces \<Longrightarrow> nonBlankLines s = withoutBlanks pieces"
  by (simp add: nonBlankLines_def withoutBlanks_def cutAtLineEnds_splitLines trim_Nil_iff)

lemma splitLines_cut_from:
  "CHR 0x0A \<notin> set piece \<Longrightarrow>
   (piece \<noteq> [] \<and> last piece = CHR 0x0D \<longrightarrow> s = [] \<or> hd s \<noteq> CHR 0x0A) \<Longrightarrow>
   cutAtLineEnds (piece @ s) (splitLines s piece)"
proof (induction s piece rule: splitLines.induct)
  case (1 piece)
  then show ?case by (simp add: cutAtLineEnds.whole)
next
  case (2 c piece)
  show ?case
  proof (cases "c = CHR 0x0A")
    case True
    have "cutAtLineEnds [] [[]]" by (simp add: cutAtLineEnds.whole)
    moreover have "piece = [] \<or> last piece \<noteq> CHR 0x0D" using "2.prems"(2) True by auto
    ultimately have "cutAtLineEnds (piece @ CHR 0x0A # []) (piece # [[]])"
      using "2.prems"(1) by (rule_tac cutAtLineEnds.lineFeed)
    then show ?thesis using True by simp
  next
    case False
    then have "CHR 0x0A \<notin> set (piece @ [c])" using "2.prems"(1) by auto
    then show ?thesis using False by (simp add: cutAtLineEnds.whole)
  qed
next
  case (3 c d cs piece)
  show ?case
  proof (cases "c = CHR 0x0D \<and> d = CHR 0x0A")
    case True
    have "cutAtLineEnds ([] @ cs) (splitLines cs [])"
      using "3.IH"(1) [OF True] by simp
    then have "cutAtLineEnds (piece @ CHR 0x0D # CHR 0x0A # cs) (piece # splitLines cs [])"
      using "3.prems"(1) by (simp add: cutAtLineEnds.returnLineFeed)
    then show ?thesis using True by simp
  next
    case False
    note ncr = this
    show ?thesis
    proof (cases "c = CHR 0x0A")
      case True
      have "cutAtLineEnds ([] @ d # cs) (splitLines (d # cs) [])"
        using "3.IH"(2) [OF ncr True] by simp
      moreover have "piece = [] \<or> last piece \<noteq> CHR 0x0D" using "3.prems"(2) True by auto
      ultimately have "cutAtLineEnds (piece @ CHR 0x0A # d # cs) (piece # splitLines (d # cs) [])"
        using "3.prems"(1) by (simp add: cutAtLineEnds.lineFeed)
      then show ?thesis using True ncr by simp
    next
      case False
      have a: "CHR 0x0A \<notin> set (piece @ [c])" using "3.prems"(1) False by auto
      have b: "piece @ [c] \<noteq> [] \<and> last (piece @ [c]) = CHR 0x0D \<longrightarrow> d # cs = [] \<or> hd (d # cs) \<noteq> CHR 0x0A"
        using ncr by simp
      have "cutAtLineEnds ((piece @ [c]) @ d # cs) (splitLines (d # cs) (piece @ [c]))"
        using "3.IH"(3) [OF ncr False a b] .
      then show ?thesis using False ncr by auto
    qed
  qed
qed

lemma splitLines_cut: "cutAtLineEnds s (splitLines s [])"
  using splitLines_cut_from [of "[]" s] by simp

text \<open>
  Claim C4. Cut the text at its line ends (a line feed, or a carriage return and a
  line feed) and drop the blank lines. When fewer than two lines are left,
  \<open>parseCSV\<close> returns the empty table and logs nothing. Otherwise the table holds
  one record for each line after the first that has as many fields as the header, in
  the order of the lines, and the other lines are dropped without a trace. When the
  request fails, when the response is not \<open>ok\<close> or when its body cannot be read, the
  failure is caught: the table is empty and one diagnostic is logged. Whatever
  happens, the promise is fulfilled: \<open>parseCSV\<close> never rejects.
\<close>

theorem parseCSV_contract:
  "(\<exists>pieces. cutAtLineEnds s pieces) \<and>
   (\<forall>pieces. cutAtLineEnds s pieces \<longrightarrow>
      (length (withoutBlanks pieces) < 2 \<longrightarrow>
         parseCSV (Response True (Some s)) = (Fulfilled [], [])) \<and>
      (2 \<le> length (withoutBlanks pieces) \<longrightarrow>
         parseCSV (Response True (Some s)) =
           (Fulfilled
              (map (\<lambda>line. makeEntry (splitCSVLine (hd (withoutBlanks pieces))) (splitCSVLine line))
                 (filter (\<lambda>line. length (splitCSVLine line)
                                  = length (splitCSVLine (hd (withoutBlanks pieces))))
                    (tl (withoutBlanks pieces)))),
            []))) \<and>
   parseCSV FetchFails = (Fulfilled [], [(''Error parsing CSV'', FetchRejected)]) \<and>
   parseCSV (Response False body) = (Fulfilled [], [(''Error parsing CSV'', FailedToFetchData)]) \<and>
   parseCSV (Response True None) = (Fulfilled [], [(''Error parsing CSV'', BodyRejected)]) \<and>
   (\<exists>data. fst (parseCSV outcome) = Fulfilled data)"
proof (intro conjI allI impI)
  show "\<exists>pieces. cutAtLineEnds s pieces"
    using splitLines_cut by blast
next
  fix pieces
  assume c: "cutAtLineEnds s pieces" and "length (withoutBlanks pieces) < 2"
  then show "parseCSV (Response True (Some s)) = (Fulfilled [], [])"
    by (simp add: parseCSV_def parseCSV_try_def nonBlankLines_cut)
next
  fix pieces
  assume c: "cutAtLineEnds s pieces" and "2 \<le> length (withoutBlanks pieces)"
  then have "\<not> length (nonBlankLines s) < 2" by (simp add: nonBlankLines_cut)
  then show "parseCSV (Response True (Some s)) =
           (Fulfilled
              (map (\<lambda>line. makeEntry (splitCSVLine (hd (withoutBlanks pieces))) (splitCSVLine line))
                 (filter (\<lambda>line. length (splitCSVLine line)
                                  = length (splitCSVLine (hd (withoutBlanks pieces))))
                    (tl (withoutBlanks pieces)))),
            [])"
    using nonBlankLines_cut [OF c]
    by (simp add: parseCSV_def parseCSV_try_def Let_def rowsLoop_filter_map)
next
  show "parseCSV FetchFails = (Fulfilled [], [(''Error parsing CSV'', FetchRejected)])"
    by (simp add: parseCSV_def parseCSV_try_def)
  show "parseCSV (Response False body) = (Fulfilled [], [(''Error parsing CSV'', FailedToFetchData)])"
    by (simp add: parseCSV_def parseCSV_try_def)
  show "parseCSV (Response True None) = (Fulfilled [], [(''Error parsing CSV'', BodyRejected)])"
    by (simp add: parseCSV_def parseCSV_try_def)
  show "\<exists>data. fst (parseCSV outcome) = Fulfilled data"
    by (rule parseCSV_never_rejects)
qed

lemma example_cut:
  "splitLines exampleCSV [] =
     [''Date,Amount,Type'', ''01/02/2024,'' @ dq # ''1,000.50'' @ dq # '',A'', ''15/06/2024,200,B'',
      [], ''bad,abc,C'', ''x,y'', []]"
  "withoutBlanks
     [''Date,Amount,Type'', ''01/02/2024,'' @ dq # ''1,000.50'' @ dq # '',A'', ''15/06/2024,200,B'',
      [], ''bad,abc,C'', ''x,y'', []] =
     [''Date,Amount,Type'', ''01/02/2024,'' @ dq # ''1,000.50'' @ dq # '',A'', ''15/06/2024,200,B'',
      ''bad,abc,C'', ''x,y'']"
  by code_simp+

lemma example_header_and_blanks:
  "splitLines (''Date,Amount,Type'' @ [CHR 0x0A, CHR 0xA0, CHR 0x0A]) [] =
     [''Date,Amount,Type'', [CHR 0xA0], []]"
  "withoutBlanks [''Date,Amount,Type'', [CHR 0xA0], []] = [''Date,Amount,Type'']"
  by code_simp+

lemma example_rows:
  "map (\<lambda>line. makeEntry (splitCSVLine ''Date,Amount,Type'') (splitCSVLine line))
     (filter (\<lambda>line. length (splitCSVLine line) = length (splitCSVLine ''Date,Amount,Type''))
        [''01/02/2024,'' @ dq # ''1,000.50'' @ dq # '',A'', ''15/06/2024,200,B'', ''bad,abc,C'', ''x,y''])
   = exampleTable"
  by code_simp

text \<open>A sheet that has its header, a line with a no-break space and an empty line gives
  the empty table; the sheet of the examples gives its three records, and loses its
  empty lines and the line of two fields.\<close>

theorem parseCSV_contract_witness:
  "cutAtLineEnds (''Date,Amount,Type'' @ [CHR 0x0A, CHR 0xA0, CHR 0x0A])
     [''Date,Amount,Type'', [CHR 0xA0], []] \<and>
   length (withoutBlanks [''Date,Amount,Type'', [CHR 0xA0], []]) < 2 \<and>
   parseCSV (Response True (Some (''Date,Amount,Type'' @ [CHR 0x0A, CHR 0xA0, CHR 0x0A])))
     = (Fulfilled [], []) \<and>
   cutAtLineEnds exampleCSV
     [''Date,Amount,Type'', ''01/02/2024,'' @ dq # ''1,000.50'' @ dq # '',A'', ''15/06/2024,200,B'',
      [], ''bad,abc,C'', ''x,y'', []] \<and>
   2 \<le> length (withoutBlanks
     [''Date,Amount,Type'', ''01/02/2024,'' @ dq # ''1,000.50'' @ dq # '',A'', ''15/06/2024,200,B'',
      [], ''bad,abc,C'', ''x,y'', []]) \<and>
   parseCSV (Response True (Some exampleCSV)) = (Fulfilled exampleTable, [])"
proof -
  let ?t = "''Date,Amount,Type'' @ [CHR 0x0A, CHR 0xA0, CHR 0x0A]"
  let ?p = "[''Date,Amount,Type'', [CHR 0xA0], []]"
  let ?q = "[''Date,Amount,Type'', ''01/02/2024,'' @ dq # ''1,000.50'' @ dq # '',A'', ''15/06/2024,200,B'',
      [], ''bad,abc,C'', ''x,y'', []]"
  have c1: "cutAtLineEnds ?t ?p"
    using splitLines_cut [of ?t] by (simp only: example_header_and_blanks)
  have l1: "length (withoutBlanks ?p) < 2"
    by (simp only: example_header_and_blanks) simp
  have c2: "cutAtLineEnds exampleCSV ?q"
    using splitLines_cut [of exampleCSV] by (simp only: example_cut)
  have l2: "2 \<le> length (withoutBlanks ?q)"
    by (simp only: example_cut) simp
  from parseCSV_contract [of ?t] c1 l1
  have r1: "parseCSV (Response True (Some ?t)) = (Fulfilled [], [])"
    by blast
  from parseCSV_contract [of exampleCSV] c2 l2
  have "parseCSV (Response True (Some exampleCSV)) =
           (Fulfilled
              (map (\<lambda>line. makeEntry (splitCSVLine (hd (withoutBlanks ?q))) (splitCSVLine line))
                 (filter (\<lambda>line. length (splitCSVLine line)
                                  = length (splitCSVLine (hd (withoutBlanks ?q))))
                    (tl (withoutBlanks ?q)))),
            [])"
    by blast
  then have r2: "parseCSV (Response True (Some exampleCSV)) = (Fulfilled exampleTable, [])"
    unfolding example_cut(2) list.sel by (simp only: example_rows)
  from c1 l1 r1 c2 l2 r2 show ?thesis by blast
qed

section \<open>Properties of the column inferencer\<close>

text \<open>\<open>includes\<close> finds the word exactly when the string is something, the word,
  and something.\<close>

lemma String_includes_iff: "String_includes s p \<longleftrightarrow> (\<exists>pre post. s = pre @ p @ post)"
proof (induction s)
  case Nil
  then show ?case by auto
next
  case (Cons c cs)
  show ?case
  proof
    assume "String_includes (c # cs) p"
    then consider "take (length p) (c # cs) = p" | "String_includes cs p" by auto
    then show "\<exists>pre post. c # cs = pre @ p @ post"
    proof cases
      case 1
      then have "c # cs = [] @ p @ drop (length p) (c # cs)"
        by (metis append_Nil append_take_drop_id)
      then show ?thesis by blast
    next
      case 2
      then obtain pre post where "cs = pre @ p @ post" using Cons.IH by blast
      then have "c # cs = (c # pre) @ p @ post" by simp
      then show ?thesis by blast
    qed
  next
    assume "\<exists>pre post. c # cs = pre @ p @ post"
    then obtain pre post where e: "c # cs = pre @ p @ post" by blast
    show "String_includes (c # cs) p"
    proof (cases pre)
      case Nil
      then have "take (length p) (c # cs) = p" using e by simp
      then show ?thesis by simp
    next
      case (Cons a pre')
      then have "cs = pre' @ p @ post" using e by simp
      then have "String_includes cs p" using Cons.IH by blast
      then show ?thesis by simp
    qed
  qed
qed

lemma containsIgnoringCase_includes:
  assumes "containsIgnoringCase s word" and "toLowerCase word = word"
  shows "String_includes (toLowerCase s) word"
proof -
  from assms(1) obtain pre mid post where "s = pre @ mid @ post" "toLowerCase mid = toLowerCase word"
    unfolding containsIgnoringCase_def by blast
  then have "toLowerCase s = toLowerCase pre @ word @ toLowerCase post"
    using assms(2) by (simp add: toLowerCase_def)
  then show ?thesis unfolding String_includes_iff by blast
qed

lemma identifyColumn_key: "key (identifyColumn P data k) = k"
  by (simp add: identifyColumn_def Let_def)

lemma identifyColumn_exclusive:
  "\<not> (isDate (identifyColumn P data k) \<and> isNumeric (identifyColumn P data k))"
  by (simp add: identifyColumn_def Let_def)

lemma identifyColumn_date_key:
  "String_includes (toLowerCase k) ''date'' \<or> String_includes (toLowerCase k) ''timestamp''
     \<or> String_includes (toLowerCase k) ''time''
   \<Longrightarrow> isDate (identifyColumn P data k)"
  by (simp add: identifyColumn_def Let_def)

lemma date_words_lower:
  "toLowerCase ''date'' = ''date''" "toLowerCase ''timestamp'' = ''timestamp''"
  "toLowerCase ''time'' = ''time''"
  by code_simp+

text \<open>
  Claim C5. No column that \<open>identifyColumns\<close> returns is both a date and a number:
  the number test runs only when the date test has failed. A column whose name
  contains \<open>date\<close>, \<open>timestamp\<close> or \<open>time\<close>, the case of the letters being
  ignored, is a date, whatever its sample value is.
\<close>

theorem identifyColumns_flags:
  "\<forall>col \<in> set (identifyColumns P data).
     \<not> (isDate col \<and> isNumeric col) \<and>
     (containsIgnoringCase (key col) ''date'' \<or> containsIgnoringCase (key col) ''timestamp''
        \<or> containsIgnoringCase (key col) ''time'' \<longrightarrow> isDate col)"
proof
  fix col
  assume "col \<in> set (identifyColumns P data)"
  then obtain k where c: "col = identifyColumn P data k"
    by (auto simp: identifyColumns_def split: if_splits)
  have "isDate col"
    if "containsIgnoringCase (key col) ''date'' \<or> containsIgnoringCase (key col) ''timestamp''
        \<or> containsIgnoringCase (key col) ''time''"
  proof -
    from that have "String_includes (toLowerCase k) ''date'' \<or> String_includes (toLowerCase k) ''timestamp''
        \<or> String_includes (toLowerCase k) ''time''"
      unfolding c identifyColumn_key
      using containsIgnoringCase_includes [of k] date_words_lower by blast
    then show ?thesis unfolding c by (rule identifyColumn_date_key)
  qed
  then show "\<not> (isDate col \<and> isNumeric col) \<and>
     (containsIgnoringCase (key col) ''date'' \<or> containsIgnoringCase (key col) ''timestamp''
        \<or> containsIgnoringCase (key col) ''time'' \<longrightarrow> isDate col)"
    using identifyColumn_exclusive [of P data k] c by blast
qed

lemma example_columns:
  "identifyColumns examplePlatform exampleTable =
     [\<lparr>key = ''Date'', label = ''Date'', isNumeric = False, isDate = True\<rparr>,
      \<lparr>key = ''Amount'', label = ''Amount'', isNumeric = True, isDate = False\<rparr>,
      \<lparr>key = ''Type'', label = ''Type'', isNumeric = False, isDate = False\<rparr>]"
  by code_simp

lemma example_columns_inferred:
  "identifyColumns examplePlatform exampleTable = exampleColumns"
  unfolding exampleColumns_def by (rule example_columns)

lemma example_overtime_column:
  "identifyColumns examplePlatform [[(''Overtime'', ''12'')]] =
     [\<lparr>key = ''Overtime'', label = ''Overtime'', isNumeric = False, isDate = True\<rparr>]"
  by code_simp

text \<open>A column named \<open>Overtime\<close> whose only value is \<open>12\<close> is a date and not a
  number.\<close>

theorem identifyColumns_flags_witness:
  "\<lparr>key = ''Overtime'', label = ''Overtime'', isNumeric = False, isDate = True\<rparr>
     \<in> set (identifyColumns examplePlatform [[(''Overtime'', ''12'')]]) \<and>
   containsIgnoringCase ''Overtime'' ''time'' \<and>
   isDate \<lparr>key = ''Overtime'', label = ''Overtime'', isNumeric = False, isDate = True\<rparr> \<and>
   \<not> isNumeric \<lparr>key = ''Overtime'', label = ''Overtime'', isNumeric = False, isDate = True\<rparr>"
proof -
  let ?c = "\<lparr>key = ''Overtime'', label = ''Overtime'', isNumeric = False, isDate = True\<rparr>"
  have m: "?c \<in> set (identifyColumns examplePlatform [[(''Overtime'', ''12'')]])"
    by (simp add: example_overtime_column)
  have "toLowerCase ''time'' = toLowerCase ''time''" by simp
  then have "''Overtime'' = ''Over'' @ ''time'' @ [] \<and> toLowerCase ''time'' = toLowerCase ''time''" by simp
  then have n: "containsIgnoringCase ''Overtime'' ''time''"
    unfolding containsIgnoringCase_def by blast
  from identifyColumns_flags [of examplePlatform "[[(''Overtime'', ''12'')]]"] m
  have "\<not> (isDate ?c \<and> isNumeric ?c) \<and>
     (containsIgnoringCase (key ?c) ''date'' \<or> containsIgnoringCase (key ?c) ''timestamp''
        \<or> containsIgnoringCase (key ?c) ''time'' \<longrightarrow> isDate ?c)"
    by blast
  with n have "isDate ?c \<and> \<not> isNumeric ?c" by simp
  with m n show ?thesis by blast
qed

section \<open>Properties of the filter-column selector\<close>

lemma uniqueValuesSize_card: "uniqueValuesSize data col = card (columnValues data col)"
  by (simp add: uniqueValuesSize_def columnValues_def length_remdups_card_conv)

lemma autoCols_subset: "set (autoCols columns data r) \<subseteq> set columns"
  by (auto simp: autoCols_def)

lemma selectedAutoCols_subset:
  "set (selectedAutoCols columns data r) \<subseteq> set (autoCols columns data r)"
  unfolding selectedAutoCols_def by (rule set_take_subset)

lemma autoCols_cardinality:
  "col \<in> set (autoCols columns data r) \<Longrightarrow>
   0 < card (columnValues data col) \<and> card (columnValues data col) < 20"
  by (auto simp: autoCols_def uniqueValuesSize_card split: if_splits)

lemma autoCols_not_forced_end:
  "col \<in> set (autoCols columns data r) \<Longrightarrow> col \<notin> set (endCols columns r)"
proof
  assume a: "col \<in> set (autoCols columns data r)" and e: "col \<in> set (endCols columns r)"
  from e have "list_ex (\<lambda>p. key p = key col) (endCols columns r)"
    unfolding list_ex_iff by blast
  with a show False by (auto simp: autoCols_def split: if_splits)
qed

lemma autoCols_not_blocked:
  "col \<in> set (autoCols columns data r) \<Longrightarrow> \<not> matchKey col (lookupKeys blacklist r)"
  by (auto simp: autoCols_def split: if_splits)

lemma length_filterableColumns:
  "length (filterableColumns columns data r) =
     length (startCols columns r)
     + min (4 - (length (startCols columns r) + length (endCols columns r)))
           (length (autoCols columns data r))
     + length (endCols columns r)"
proof -
  have "availableSlots columns r = 4 - (length (startCols columns r) + length (endCols columns r))"
    unfolding availableSlots_def by linarith
  then show ?thesis
    by (simp add: filterableColumns_def selectedAutoCols_def min.commute)
qed

text \<open>
  Claim C3, as amended. The selection is the forced-start columns, then the
  auto-selected columns, then the forced-end columns. The forced columns are all
  kept, so the selection has at most four columns when at most four columns are
  forced, and as many columns as are forced otherwise. The auto-selected columns are
  the first candidates, as many as the forced columns leave of the four places, and
  every candidate has more than 0 and fewer than 20 distinct values, as strings, over
  the whole table.
\<close>

theorem filterableColumns_composition:
  "filterableColumns columns data r =
     startCols columns r @ selectedAutoCols columns data r @ endCols columns r \<and>
   length (filterableColumns columns data r)
     \<le> max 4 (length (startCols columns r) + length (endCols columns r)) \<and>
   (length (startCols columns r) + length (endCols columns r) \<le> 4 \<longrightarrow>
      length (filterableColumns columns data r) \<le> 4) \<and>
   selectedAutoCols columns data r =
     take (4 - (length (startCols columns r) + length (endCols columns r)))
       (autoCols columns data r) \<and>
   (\<forall>col \<in> set (autoCols columns data r).
      0 < card (columnValues data col) \<and> card (columnValues data col) < 20)"
proof (intro conjI impI ballI)
  have "availableSlots columns r = 4 - (length (startCols columns r) + length (endCols columns r))"
    unfolding availableSlots_def by linarith
  then show "selectedAutoCols columns data r =
     take (4 - (length (startCols columns r) + length (endCols columns r)))
       (autoCols columns data r)"
    by (simp add: selectedAutoCols_def)
  show "filterableColumns columns data r =
     startCols columns r @ selectedAutoCols columns data r @ endCols columns r"
    by (simp add: filterableColumns_def)
  show "length (filterableColumns columns data r)
     \<le> max 4 (length (startCols columns r) + length (endCols columns r))"
    unfolding length_filterableColumns by simp
  show "length (filterableColumns columns data r) \<le> 4"
    if "length (startCols columns r) + length (endCols columns r) \<le> 4"
    using that unfolding length_filterableColumns by simp
  show "0 < card (columnValues data col)" "card (columnValues data col) < 20"
    if "col \<in> set (autoCols columns data r)" for col
    using that autoCols_cardinality [of col columns data r] by blast+
qed

lemma example_selection:
  "autoCols (identifyColumns examplePlatform exampleTable) exampleTable ''enquiry'' =
     [\<lparr>key = ''Date'', label = ''Date'', isNumeric = False, isDate = True\<rparr>,
      \<lparr>key = ''Type'', label = ''Type'', isNumeric = False, isDate = False\<rparr>]"
  "startCols (identifyColumns examplePlatform exampleTable) ''enquiry'' = []"
  "endCols (identifyColumns examplePlatform exampleTable) ''enquiry'' = []"
  by code_simp+

text \<open>On the table of the examples nothing is forced, and \<open>Type\<close> is a candidate
  with its three values.\<close>

theorem filterableColumns_composition_witness:
  "length (startCols (identifyColumns examplePlatform exampleTable) ''enquiry'')
     + length (endCols (identifyColumns examplePlatform exampleTable) ''enquiry'') \<le> 4 \<and>
   \<lparr>key = ''Type'', label = ''Type'', isNumeric = False, isDate = False\<rparr>
     \<in> set (autoCols (identifyColumns examplePlatform exampleTable) exampleTable ''enquiry'') \<and>
   length (filterableColumns (identifyColumns examplePlatform exampleTable) exampleTable ''enquiry'') \<le> 4 \<and>
   card (columnValues exampleTable \<lparr>key = ''Type'', label = ''Type'', isNumeric = False, isDate = False\<rparr>) < 20"
proof -
  let ?cols = "identifyColumns examplePlatform exampleTable"
  let ?c = "\<lparr>key = ''Type'', label = ''Type'', isNumeric = False, isDate = False\<rparr>"
  have a: "length (startCols ?cols ''enquiry'') + length (endCols ?cols ''enquiry'') \<le> 4"
    by (simp add: example_selection)
  have b: "?c \<in> set (autoCols ?cols exampleTable ''enquiry'')"
    by (simp add: example_selection)
  from filterableColumns_composition [of ?cols exampleTable "''enquiry''"] a b
  have "length (filterableColumns ?cols exampleTable ''enquiry'') \<le> 4 \<and>
        card (columnValues exampleTable ?c) < 20"
    by blast
  with a b show ?thesis by blast
qed

text \<open>The claim as it was stated allows four columns at most. The sheet of the material
  report that names the material five times gives five columns to the selector, all
  of them forced to the start, and all five are selected.\<close>

theorem filterableColumns_five_forced:
  "fetchData examplePlatform ''material'' (Response True (Some materialCSV))
     = Some (materialTable, materialColumns) \<and>
   length (filterableColumns materialColumns materialTable ''material'') = 5"
  by code_simp

subsection \<open>The worklog report\<close>

lemma worklog_keys:
  "lookupKeys startPriorities ''worklog'' = []"
  "lookupKeys endPriorities ''worklog'' = [''Work Description'']"
  "lookupKeys blacklist ''worklog'' = [''MA'']"
  by (simp_all add: lookupKeys_def startPriorities_def endPriorities_def blacklist_def)

lemma worklog_no_startCols: "startCols columns ''worklog'' = []"
  by (simp add: startCols_def worklog_keys matchKey_def)

lemma namedLike_matchKey:
  assumes "namedLike col word" and "trim (toLowerCase word) = toLowerCase word"
  shows "matchKey col [word]"
  using assms by (auto simp: namedLike_def equalIgnoringCase_def matchKey_def)

lemma trim_lower_words:
  "trim (toLowerCase ''MA'') = toLowerCase ''MA''"
  "trim (toLowerCase ''Work Description'') = toLowerCase ''Work Description''"
  by code_simp+

text \<open>White space and the case of letters: no letter becomes white space or comes
  from it, so trimming and lower-casing commute.\<close>

lemma isWhiteSpace_code:
  "isWhiteSpace c \<longleftrightarrow> (of_char c :: nat) \<in> {9, 10, 11, 12, 13, 32, 160}"
proof -
  have e: "c = d \<longleftrightarrow> (of_char c :: nat) = of_char d" for d
    by simp
  show ?thesis
    unfolding isWhiteSpace_def by (simp add: e del: of_char_eq_iff)
qed

lemma isWhiteSpace_toLowerChar: "isWhiteSpace (toLowerChar c) = isWhiteSpace c"
proof -
  have "(of_char c :: nat) < 256" by simp
  then show ?thesis
    unfolding isWhiteSpace_code toLowerChar_def Let_def by (auto simp: of_char_of)
qed

lemma toUpperCaseChar_no_space:
  "\<not> isWhiteSpace c \<Longrightarrow> x \<in> set (toUpperCaseChar c) \<Longrightarrow> \<not> isWhiteSpace x"
proof -
  assume a: "\<not> isWhiteSpace c" "x \<in> set (toUpperCaseChar c)"
  have "(of_char c :: nat) < 256" by simp
  with a show ?thesis
    unfolding isWhiteSpace_code toUpperCaseChar_def Let_def
    by (auto simp: of_char_of isWhiteSpace_def split: if_splits)
qed

lemma toUpperCaseChar_not_Nil: "toUpperCaseChar c \<noteq> []"
  by (simp add: toUpperCaseChar_def Let_def)

lemma trim_toLowerCase: "trim (toLowerCase s) = toLowerCase (trim s)"
proof -
  have c: "isWhiteSpace \<circ> toLowerChar = isWhiteSpace"
    by (rule ext) (simp add: isWhiteSpace_toLowerChar)
  show ?thesis
    by (simp add: trim_def toLowerCase_def dropWhile_map rev_map c)
qed

text \<open>A string is left as it is by \<open>trim\<close> exactly when it is empty or begins and
  ends with a character that is not white space; a trimmed string is such a string.\<close>

lemma trim_fixed:
  assumes "s = [] \<or> (\<not> isWhiteSpace (hd s) \<and> \<not> isWhiteSpace (last s))"
  shows "trim s = s"
proof (cases s)
  case Nil
  then show ?thesis by (simp add: trim_def)
next
  case (Cons c cs)
  with assms have h: "\<not> isWhiteSpace c" and l: "\<not> isWhiteSpace (last s)"
    by simp_all
  from h Cons have a: "dropWhile isWhiteSpace s = s"
    by simp
  from Cons have "hd (rev s) = last s"
    by (simp add: hd_rev)
  with l have "dropWhile isWhiteSpace (rev s) = rev s"
    by (simp add: dropWhile_eq_self_iff)
  with a show ?thesis
    by (simp add: trim_def)
qed

lemma trim_ends:
  "trim s = [] \<or> (\<not> isWhiteSpace (hd (trim s)) \<and> \<not> isWhiteSpace (last (trim s)))"
proof (cases "trim s = []")
  case True
  then show ?thesis by simp
next
  case False
  define t where "t = dropWhile isWhiteSpace s"
  define u where "u = dropWhile isWhiteSpace (rev t)"
  have ts: "trim s = rev u"
    by (simp add: trim_def t_def u_def)
  with False have u: "u \<noteq> []"
    by simp
  then have hu: "\<not> isWhiteSpace (hd u)"
    unfolding u_def by (rule hd_dropWhile)
  from u have t: "t \<noteq> []"
    by (auto simp: u_def)
  then have ht: "\<not> isWhiteSpace (hd t)"
    unfolding t_def by (rule hd_dropWhile)
  have "rev t = takeWhile isWhiteSpace (rev t) @ u"
    by (simp add: u_def)
  with u have "last (rev t) = last u"
    by (metis last_appendR)
  with t have "last u = hd t"
    by (simp add: last_rev)
  with ht hu u show ?thesis
    by (simp add: ts hd_rev last_rev)
qed

lemma trim_trim: "trim (trim s) = trim s"
  using trim_ends [of s] by (rule trim_fixed)

lemma trim_fixed_ends:
  assumes "trim s = s"
  shows "s = [] \<or> (\<not> isWhiteSpace (hd s) \<and> \<not> isWhiteSpace (last s))"
  using trim_ends [of s] assms by simp

text \<open>The keys of the rows that \<open>parseCSV\<close> returns are trimmed header fields, and
  the label of a column is its key with the first character in upper case: the names
  of the columns that \<open>fetchData\<close> keeps have no white space around them.\<close>

lemma setProp_keys: "set (map fst (setProp entry k v)) \<subseteq> insert k (set (map fst entry))"
proof -
  have m: "map fst (map (\<lambda>(k', v'). if k' = k then (k', v) else (k', v')) entry) = map fst entry"
    by (induction entry) auto
  have t: "set (map fst (takeWhile p entry)) \<subseteq> set (map fst entry)" for p
    by (auto dest: set_takeWhileD)
  have d: "set (map fst (dropWhile p entry)) \<subseteq> set (map fst entry)" for p
    by (auto dest: set_dropWhileD)
  let ?p = "\<lambda>(k', v'). isArrayIndex k' \<and> parseInt10 k' < parseInt10 k"
  have "set (map fst (takeWhile ?p entry @ (k, v) # dropWhile ?p entry))
          \<subseteq> insert k (set (map fst entry))"
    using t [of ?p] d [of ?p] by auto
  moreover have "set (map fst (entry @ [(k, v)])) \<subseteq> insert k (set (map fst entry))"
    by auto
  ultimately show ?thesis
    unfolding setProp_def by (simp only: m split: if_split) blast
qed

lemma makeEntry_keys_trimmed:
  assumes "k \<in> set (Object_keys (makeEntry headers currentLine))"
  shows "trim k = k"
proof -
  have "\<forall>k \<in> set (map fst (foldl (\<lambda>entry (header, index). setProp entry (trim header) (currentLine ! index)) entry hs)).
          trim k = k"
    if "\<forall>k \<in> set (map fst entry). trim k = k" for entry and hs :: "(string \<times> nat) list"
    using that
  proof (induction hs arbitrary: entry)
    case Nil
    then show ?case by simp
  next
    case (Cons h hs)
    obtain header index where h: "h = (header, index)"
      by (cases h)
    have "\<forall>k \<in> set (map fst (setProp entry (trim header) (currentLine ! index))). trim k = k"
    proof
      fix k
      assume "k \<in> set (map fst (setProp entry (trim header) (currentLine ! index)))"
      then have "k = trim header \<or> k \<in> set (map fst entry)"
        using setProp_keys [of entry "trim header" "currentLine ! index"] by blast
      then show "trim k = k"
        using Cons.prems trim_trim by blast
    qed
    from Cons.IH [OF this] show ?case
      by (simp add: h)
  qed
  from this [of "[]"] assms show ?thesis
    by (auto simp: makeEntry_def Object_keys_def)
qed

lemma parseCSV_keys_trimmed:
  assumes "fst (parseCSV outcome) = Fulfilled data" and "row \<in> set data"
    and "k \<in> set (Object_keys row)"
  shows "trim k = k"
proof -
  from assms(1,2) obtain headers currentLine where "row = makeEntry headers currentLine"
    by (auto simp: parseCSV_def parseCSV_try_def Let_def rowsLoop_filter_map
          split: fetchOutcome.splits if_splits option.splits sum.splits)
  with assms(3) show ?thesis
    using makeEntry_keys_trimmed by blast
qed

lemma identifyColumn_label:
  "label (identifyColumn P data k) = (case k of [] \<Rightarrow> [] | c # cs \<Rightarrow> toUpperCaseChar c @ cs)"
  by (simp add: identifyColumn_def Let_def)

lemma identifyColumn_trimmed:
  assumes "trim k = k"
  shows "trim (key (identifyColumn P data k)) = key (identifyColumn P data k)"
    and "trim (label (identifyColumn P data k)) = label (identifyColumn P data k)"
proof -
  show "trim (key (identifyColumn P data k)) = key (identifyColumn P data k)"
    using assms by (simp add: identifyColumn_key)
  show "trim (label (identifyColumn P data k)) = label (identifyColumn P data k)"
  proof (cases k)
    case Nil
    then show ?thesis
      by (simp add: identifyColumn_label trim_def)
  next
    case (Cons c cs)
    from trim_fixed_ends [OF assms] Cons
    have h: "\<not> isWhiteSpace c" and l: "\<not> isWhiteSpace (last (c # cs))"
      by simp_all
    obtain u us where u: "toUpperCaseChar c = u # us"
      using toUpperCaseChar_not_Nil [of c] by (cases "toUpperCaseChar c") auto
    have a: "\<not> isWhiteSpace u"
      using toUpperCaseChar_no_space [OF h, of u] u by simp
    have b: "\<not> isWhiteSpace (last (u # us @ cs))"
    proof (cases cs)
      case Nil
      have "last (u # us) \<in> set (toUpperCaseChar c)"
        unfolding u by (rule last_in_set) simp
      then show ?thesis
        using toUpperCaseChar_no_space [OF h] Nil by simp
    next
      case (Cons d ds)
      then show ?thesis
        using l by simp
    qed
    show ?thesis
      unfolding identifyColumn_label Cons list.case u
      by (rule trim_fixed) (use a b in simp)
  qed
qed

lemma reportColumns_subset: "set (reportColumns reportId cols) \<subseteq> set cols"
proof -
  have f: "set (filterByIndex p cols) \<subseteq> set cols" for p
    by (auto simp: filterByIndex_def dest: set_zip_leftD)
  have s: "set (splice a b cols) \<subseteq> set cols" for a b
    by (auto simp: splice_def dest: in_set_takeD in_set_dropD)
  show ?thesis
    using f s by (simp add: reportColumns_def)
qed

lemma fetchData_trimmedNames:
  assumes "fetchData P reportId outcome = Some (data, columns)"
  shows "trimmedNames columns"
proof -
  from assms have d: "fst (parseCSV outcome) = Fulfilled data"
    and c: "columns = reportColumns reportId (identifyColumns P data)"
    by (auto simp: fetchData_def split: settled.splits)
  have "trim (key col) = key col \<and> trim (label col) = label col" if "col \<in> set columns" for col
  proof -
    from that c have "col \<in> set (identifyColumns P data)"
      using reportColumns_subset by blast
    then obtain k where n: "data \<noteq> []" and k: "k \<in> set (Object_keys (hd data))"
      and col: "col = identifyColumn P data k"
      by (auto simp: identifyColumns_def split: if_splits)
    from n have "hd data \<in> set data"
      by simp
    with d k have "trim k = k"
      using parseCSV_keys_trimmed by blast
    then show ?thesis
      unfolding col using identifyColumn_trimmed by blast
  qed
  then show ?thesis
    by (simp add: trimmedNames_def list_all_iff)
qed

text \<open>On such names, the test \<open>matchKey\<close> of the selector is equality up to the
  case of the letters, and the forced-end columns of the worklog report are the
  columns named \<open>Work Description\<close>, in the order of the columns.\<close>

lemma trimmed_matchKey:
  assumes "trim (key col) = key col" and "trim (label col) = label col"
  shows "matchKey col [word] = namedLike col word"
  using assms by (simp add: matchKey_def namedLike_def equalIgnoringCase_def trim_toLowerCase)

lemma worklog_endCols:
  assumes "trimmedNames columns"
  shows "endCols columns ''worklog'' = filter (\<lambda>col. namedLike col ''Work Description'') columns"
  unfolding endCols_def worklog_keys
  by (rule filter_cong [OF refl])
     (use assms in \<open>simp add: trimmedNames_def list_all_iff trimmed_matchKey\<close>)

text \<open>
  Claim C6. For the worklog report, no auto-selected column is named \<open>MA\<close>, up to
  the case of the letters, by its key or by its label, whatever the number of its
  values; nor is one named \<open>Work Description\<close>. The names of the columns that the
  application infers from a sheet have no white space around them, and for columns
  with such names the selection is the auto-selected columns followed by exactly the
  columns named \<open>Work Description\<close>, in the order of the columns: in the
  selection, every column that comes after a column named \<open>Work Description\<close> is
  itself named \<open>Work Description\<close>, and when one column only has that name it is
  the last of the selection.
\<close>

theorem worklog_selection:
  "(\<forall>col \<in> set (selectedAutoCols columns data ''worklog'').
      \<not> namedLike col ''MA'' \<and> \<not> namedLike col ''Work Description'') \<and>
   (fetchData P ''worklog'' outcome = Some (data, columns) \<longrightarrow> trimmedNames columns) \<and>
   (trimmedNames columns \<longrightarrow>
      filterableColumns columns data ''worklog'' =
        selectedAutoCols columns data ''worklog''
        @ filter (\<lambda>col. namedLike col ''Work Description'') columns \<and>
      (\<forall>i j. i < j \<and> j < length (filterableColumns columns data ''worklog'') \<and>
             namedLike (filterableColumns columns data ''worklog'' ! i) ''Work Description'' \<longrightarrow>
             namedLike (filterableColumns columns data ''worklog'' ! j) ''Work Description'') \<and>
      (\<forall>col. filter (\<lambda>c. namedLike c ''Work Description'') columns = [col] \<longrightarrow>
             last (filterableColumns columns data ''worklog'') = col))"
proof -
  let ?auto = "selectedAutoCols columns data ''worklog''"
  let ?wd = "filter (\<lambda>col. namedLike col ''Work Description'') columns"
  let ?sel = "filterableColumns columns data ''worklog''"
  have 1: "\<not> namedLike col ''MA'' \<and> \<not> namedLike col ''Work Description''" if s: "col \<in> set ?auto" for col
  proof
    from s have a: "col \<in> set (autoCols columns data ''worklog'')"
      using selectedAutoCols_subset by blast
    then have c: "col \<in> set columns"
      using autoCols_subset by blast
    show "\<not> namedLike col ''MA''"
    proof
      assume "namedLike col ''MA''"
      then have "matchKey col [''MA'']"
        using namedLike_matchKey trim_lower_words(1) by blast
      then show False
        using autoCols_not_blocked [OF a] by (simp add: worklog_keys)
    qed
    show "\<not> namedLike col ''Work Description''"
    proof
      assume "namedLike col ''Work Description''"
      then have "matchKey col [''Work Description'']"
        using namedLike_matchKey trim_lower_words(2) by blast
      then have "col \<in> set (endCols columns ''worklog'')"
        using c by (simp add: endCols_def worklog_keys)
      then show False
        using autoCols_not_forced_end [OF a] by blast
    qed
  qed
  have 2: "trimmedNames columns" if "fetchData P ''worklog'' outcome = Some (data, columns)"
    using that by (rule fetchData_trimmedNames)
  have 3: "?sel = ?auto @ ?wd" if "trimmedNames columns"
    using worklog_endCols [OF that] by (simp add: filterableColumns_def worklog_no_startCols)
  have 4: "namedLike (?sel ! j) ''Work Description''"
    if t: "trimmedNames columns" and ij: "i < j" "j < length ?sel"
      and n: "namedLike (?sel ! i) ''Work Description''" for i j
  proof -
    note e = 3 [OF t]
    have "\<not> i < length ?auto"
    proof
      assume "i < length ?auto"
      then have "?sel ! i \<in> set ?auto"
        by (simp add: e nth_append)
      with 1 n show False
        by blast
    qed
    with ij have "\<not> j < length ?auto" and "j - length ?auto < length ?wd"
      using e by (simp_all add: less_diff_conv2)
    then have "?sel ! j = ?wd ! (j - length ?auto)" and "?wd ! (j - length ?auto) \<in> set ?wd"
      by (simp_all add: e nth_append del: set_filter)
    then show ?thesis
      by simp
  qed
  have 5: "last ?sel = col" if "trimmedNames columns" and "?wd = [col]" for col
    using 3 [OF that(1)] that(2) by simp
  from 1 2 3 4 5 show ?thesis
    by blast
qed


text \<open>The two sheets of the examples: the selection of the first is \<open>Site\<close>, then
  \<open>Work Description\<close>, the column \<open>MA\<close> being left out with its single value; in
  the second, the two columns of the description come after \<open>Site\<close>, although the
  first of them is the first column of the sheet.\<close>

lemma example_worklog_selection:
  "fetchData examplePlatform ''worklog'' (Response True (Some worklogCSV))
     = Some (worklogTable, worklogColumns)"
  "selectedAutoCols worklogColumns worklogTable ''worklog'' =
     [\<lparr>key = ''Site'', label = ''Site'', isNumeric = False, isDate = False\<rparr>]"
  "filter (\<lambda>col. namedLike col ''Work Description'') worklogColumns =
     [\<lparr>key = ''Work Description'', label = ''Work Description'', isNumeric = False, isDate = False\<rparr>]"
  "card (columnValues worklogTable \<lparr>key = ''MA'', label = ''MA'', isNumeric = False, isDate = False\<rparr>) = 1"
proof -
  show "fetchData examplePlatform ''worklog'' (Response True (Some worklogCSV))
     = Some (worklogTable, worklogColumns)"
    by code_simp
  show "selectedAutoCols worklogColumns worklogTable ''worklog'' =
     [\<lparr>key = ''Site'', label = ''Site'', isNumeric = False, isDate = False\<rparr>]"
    by code_simp
  show "filter (\<lambda>col. namedLike col ''Work Description'') worklogColumns =
     [\<lparr>key = ''Work Description'', label = ''Work Description'', isNumeric = False, isDate = False\<rparr>]"
    by code_simp
  have "uniqueValuesSize worklogTable \<lparr>key = ''MA'', label = ''MA'', isNumeric = False, isDate = False\<rparr> = 1"
    by code_simp
  then show "card (columnValues worklogTable \<lparr>key = ''MA'', label = ''MA'', isNumeric = False, isDate = False\<rparr>) = 1"
    by (simp only: uniqueValuesSize_card)
qed

lemma example_description_selection:
  "fetchData examplePlatform ''worklog'' (Response True (Some descriptionCSV))
     = Some (descriptionTable, descriptionColumns)"
  "selectedAutoCols descriptionColumns descriptionTable ''worklog'' =
     [\<lparr>key = ''Site'', label = ''Site'', isNumeric = False, isDate = False\<rparr>]"
  "filter (\<lambda>col. namedLike col ''Work Description'') descriptionColumns =
     [\<lparr>key = ''Work Description'', label = ''Work Description'', isNumeric = False, isDate = False\<rparr>,
      \<lparr>key = ''work description'', label = ''Work description'', isNumeric = False, isDate = False\<rparr>]"
  by code_simp+

text \<open>The test of the selector also ignores white space around the name of a column;
  no column inferred from a sheet has such a name.\<close>

lemma matchKey_ignores_outer_space:
  "matchKey \<lparr>key = '' Work Description'', label = '' Work Description'', isNumeric = False, isDate = False\<rparr>
     [''Work Description'']"
  by code_simp

theorem worklog_selection_witness:
  "fetchData examplePlatform ''worklog'' (Response True (Some worklogCSV))
     = Some (worklogTable, worklogColumns) \<and>
   trimmedNames worklogColumns \<and>
   card (columnValues worklogTable \<lparr>key = ''MA'', label = ''MA'', isNumeric = False, isDate = False\<rparr>) = 1 \<and>
   filterableColumns worklogColumns worklogTable ''worklog'' =
     [\<lparr>key = ''Site'', label = ''Site'', isNumeric = False, isDate = False\<rparr>,
      \<lparr>key = ''Work Description'', label = ''Work Description'', isNumeric = False, isDate = False\<rparr>] \<and>
   last (filterableColumns worklogColumns worklogTable ''worklog'') =
     \<lparr>key = ''Work Description'', label = ''Work Description'', isNumeric = False, isDate = False\<rparr> \<and>
   fetchData examplePlatform ''worklog'' (Response True (Some descriptionCSV))
     = Some (descriptionTable, descriptionColumns) \<and>
   trimmedNames descriptionColumns \<and>
   filterableColumns descriptionColumns descriptionTable ''worklog'' =
     [\<lparr>key = ''Site'', label = ''Site'', isNumeric = False, isDate = False\<rparr>,
      \<lparr>key = ''Work Description'', label = ''Work Description'', isNumeric = False, isDate = False\<rparr>,
      \<lparr>key = ''work description'', label = ''Work description'', isNumeric = False, isDate = False\<rparr>]"
proof -
  let ?site = "\<lparr>key = ''Site'', label = ''Site'', isNumeric = False, isDate = False\<rparr>"
  let ?wd = "\<lparr>key = ''Work Description'', label = ''Work Description'', isNumeric = False, isDate = False\<rparr>"
  note w = worklog_selection [of worklogColumns worklogTable examplePlatform "Response True (Some worklogCSV)"]
  note d = worklog_selection [of descriptionColumns descriptionTable examplePlatform
    "Response True (Some descriptionCSV)"]
  from w example_worklog_selection(1) have a: "trimmedNames worklogColumns"
    by blast
  with w have "filterableColumns worklogColumns worklogTable ''worklog'' =
     selectedAutoCols worklogColumns worklogTable ''worklog''
     @ filter (\<lambda>col. namedLike col ''Work Description'') worklogColumns"
    by blast
  then have b: "filterableColumns worklogColumns worklogTable ''worklog'' = [?site, ?wd]"
    by (simp only: example_worklog_selection append.simps)
  from w a example_worklog_selection(3)
  have c: "last (filterableColumns worklogColumns worklogTable ''worklog'') = ?wd"
    by blast
  from d example_description_selection(1) have e: "trimmedNames descriptionColumns"
    by blast
  with d have "filterableColumns descriptionColumns descriptionTable ''worklog'' =
     selectedAutoCols descriptionColumns descriptionTable ''worklog''
     @ filter (\<lambda>col. namedLike col ''Work Description'') descriptionColumns"
    by blast
  then have f: "filterableColumns descriptionColumns descriptionTable ''worklog'' =
     [?site, ?wd,
      \<lparr>key = ''work description'', label = ''Work description'', isNumeric = False, isDate = False\<rparr>]"
    by (simp only: example_description_selection append.simps)
  from a b c e f example_worklog_selection(1,4) example_description_selection(1)
  show ?thesis
    by blast
qed

section \<open>Properties of the sort\<close>

lemma set_insertBy: "set (insertBy cmp x ys) = insert x (set ys)"
  by (induction ys) auto

lemma set_sortBy: "set (sortBy cmp xs) = set xs"
  unfolding sortBy_def by (induction xs) (simp_all add: set_insertBy)

lemma length_insertBy: "length (insertBy cmp x ys) = Suc (length ys)"
  by (induction ys) auto

lemma length_sortBy: "length (sortBy cmp xs) = length xs"
  unfolding sortBy_def by (induction xs) (simp_all add: length_insertBy)

text \<open>If the comparator never puts a good element after a bad one, and always puts a
  bad element after a good one, the insertion keeps the good elements before the bad
  ones.\<close>

lemma insertBy_good_first:
  assumes gb: "\<And>a b. good a \<Longrightarrow> \<not> good b \<Longrightarrow> \<not> isPositive (cmp a b)"
    and bg: "\<And>a b. \<not> good a \<Longrightarrow> good b \<Longrightarrow> isPositive (cmp a b)"
    and s: "sorted_wrt (\<lambda>a b. good b \<longrightarrow> good a) ys"
  shows "sorted_wrt (\<lambda>a b. good b \<longrightarrow> good a) (insertBy cmp x ys)"
  using s
proof (induction ys)
  case Nil
  then show ?case by simp
next
  case (Cons y ys)
  show ?case
  proof (cases "isPositive (cmp x y)")
    case True
    then have "good x \<longrightarrow> good y" using gb by blast
    then show ?thesis
      using True Cons by (auto simp: set_insertBy)
  next
    case False
    then have "good y \<longrightarrow> good x" using bg by blast
    then show ?thesis
      using False Cons.prems by auto
  qed
qed

lemma sortBy_good_first:
  assumes "\<And>a b. good a \<Longrightarrow> \<not> good b \<Longrightarrow> \<not> isPositive (cmp a b)"
    and "\<And>a b. \<not> good a \<Longrightarrow> good b \<Longrightarrow> isPositive (cmp a b)"
  shows "sorted_wrt (\<lambda>a b. good b \<longrightarrow> good a) (sortBy cmp xs)"
  unfolding sortBy_def
proof (induction xs)
  case Nil
  then show ?case by simp
next
  case (Cons x xs)
  then show ?case
    using insertBy_good_first [of good cmp "foldr (insertBy cmp) xs []" x] assms by simp
qed

lemma compareEntries_date_valid_invalid:
  assumes "find (\<lambda>c. key c = k) columns = Some c" and "isDate c"
    and "parseDate P (String_of (getProp a k)) = Some ta"
    and "parseDate P (String_of (getProp b k)) = None"
  shows "compareEntries P columns (k, dir) a b = Finite (- 1)"
    and "compareEntries P columns (k, dir) b a = Finite 1"
  using assms by (simp_all add: compareEntries_def Let_def)

lemma compareEntries_date_both_valid:
  assumes "find (\<lambda>c. key c = k) columns = Some c" and "isDate c"
    and "parseDate P (String_of (getProp a k)) = Some ta"
    and "parseDate P (String_of (getProp b k)) = Some tb"
  shows "compareEntries P columns (k, Asc) a b = Finite (of_int (ta - tb))"
    and "compareEntries P columns (k, Desc) a b = Finite (of_int (tb - ta))"
  using assms by (simp_all add: compareEntries_def Let_def)

lemma compareEntries_date_both_invalid:
  assumes "find (\<lambda>c. key c = k) columns = Some c" and "isDate c"
    and "parseDate P (String_of (getProp a k)) = None"
    and "parseDate P (String_of (getProp b k)) = None"
  shows "compareEntries P columns (k, dir) a b =
           compareUntyped P (Some c) dir (getProp a k) (getProp b k)"
  using assms by (simp add: compareEntries_def Let_def)

lemma processedData_date_order:
  assumes c: "find (\<lambda>c. key c = k) columns = Some c" "isDate c"
    and st: "sortConfig st = Some (k, dir)"
  shows "sorted_wrt (\<lambda>a b. parseDate P (String_of (getProp b k)) \<noteq> None \<longrightarrow>
                            parseDate P (String_of (getProp a k)) \<noteq> None)
           (processedData P data columns st)"
proof -
  let ?good = "\<lambda>a. parseDate P (String_of (getProp a k)) \<noteq> None"
  have gb: "\<not> isPositive (compareEntries P columns (k, dir) a b)" if "?good a" "\<not> ?good b" for a b
    using that compareEntries_date_valid_invalid(1) [OF c, of P a _ b dir]
    by (auto simp: isPositive_def)
  have bg: "isPositive (compareEntries P columns (k, dir) a b)" if "\<not> ?good a" "?good b" for a b
    using that compareEntries_date_valid_invalid(2) [OF c, of P b _ a dir]
    by (auto simp: isPositive_def)
  show ?thesis
    unfolding processedData_def processedDataWith_def Let_def st option.case
    by (rule sortBy_good_first [of ?good]) (use gb bg in blast)+
qed

text \<open>
  Claim C7. Let the table be sorted on a key whose column definition is a date
  column. Of two records of which one has a value that \<open>parseDate\<close> reads and the
  other a value that it does not read, the comparator puts the second after the first,
  in both directions and in both orders of its arguments; when both values are read,
  the comparator returns the difference of the two time stamps, taken in the
  direction of the sort. In the sorted table no record with an unreadable value comes
  before a record with a readable value.
\<close>

theorem date_sort_invalid_last:
  "find (\<lambda>c. key c = k) columns = Some c \<and> isDate c \<longrightarrow>
     (\<forall>a b ta.
        parseDate P (String_of (getProp a k)) = Some ta \<and>
        parseDate P (String_of (getProp b k)) = None \<longrightarrow>
          compareEntries P columns (k, dir) a b = Finite (- 1) \<and>
          compareEntries P columns (k, dir) b a = Finite 1) \<and>
     (\<forall>a b ta tb.
        parseDate P (String_of (getProp a k)) = Some ta \<and>
        parseDate P (String_of (getProp b k)) = Some tb \<longrightarrow>
          compareEntries P columns (k, Asc) a b = Finite (of_int (ta - tb)) \<and>
          compareEntries P columns (k, Desc) a b = Finite (of_int (tb - ta))) \<and>
     (\<forall>st i j.
        sortConfig st = Some (k, dir) \<and> i < j \<and> j < length (processedData P data columns st) \<and>
        parseDate P (String_of (getProp (processedData P data columns st ! j) k)) \<noteq> None \<longrightarrow>
          parseDate P (String_of (getProp (processedData P data columns st ! i) k)) \<noteq> None)"
proof (intro impI conjI allI)
  fix a b ta
  assume c: "find (\<lambda>c. key c = k) columns = Some c \<and> isDate c"
    and v: "parseDate P (String_of (getProp a k)) = Some ta \<and>
        parseDate P (String_of (getProp b k)) = None"
  show "compareEntries P columns (k, dir) a b = Finite (- 1)"
    using compareEntries_date_valid_invalid(1) c v by blast
  show "compareEntries P columns (k, dir) b a = Finite 1"
    using compareEntries_date_valid_invalid(2) c v by blast
next
  fix a b ta tb
  assume c: "find (\<lambda>c. key c = k) columns = Some c \<and> isDate c"
    and v: "parseDate P (String_of (getProp a k)) = Some ta \<and>
        parseDate P (String_of (getProp b k)) = Some tb"
  show "compareEntries P columns (k, Asc) a b = Finite (of_int (ta - tb))"
    using compareEntries_date_both_valid(1) c v by blast
  show "compareEntries P columns (k, Desc) a b = Finite (of_int (tb - ta))"
    using compareEntries_date_both_valid(2) c v by blast
next
  fix st i j
  assume c: "find (\<lambda>c. key c = k) columns = Some c \<and> isDate c"
    and h: "sortConfig st = Some (k, dir) \<and> i < j \<and> j < length (processedData P data columns st) \<and>
        parseDate P (String_of (getProp (processedData P data columns st ! j) k)) \<noteq> None"
  have "sorted_wrt (\<lambda>a b. parseDate P (String_of (getProp b k)) \<noteq> None \<longrightarrow>
                            parseDate P (String_of (getProp a k)) \<noteq> None)
           (processedData P data columns st)"
    using processedData_date_order c h by blast
  then show "parseDate P (String_of (getProp (processedData P data columns st ! i) k)) \<noteq> None"
    using h sorted_wrt_nth_less by blast
qed

lemma example_date_column:
  "find (\<lambda>c. key c = ''Date'') exampleColumns
     = Some \<lparr>key = ''Date'', label = ''Date'', isNumeric = False, isDate = True\<rparr>"
  by (simp add: exampleColumns_def)

lemma example_sorted_by_date:
  "processedData examplePlatform exampleTable exampleColumns (sortedBy ''Date'' Asc) =
     [[(''Date'', ''01/02/2024''), (''Amount'', ''1,000.50''), (''Type'', ''A'')],
      [(''Date'', ''15/06/2024''), (''Amount'', ''200''), (''Type'', ''B'')],
      [(''Date'', ''bad''), (''Amount'', ''abc''), (''Type'', ''C'')]]"
  "processedData examplePlatform exampleTable exampleColumns (sortedBy ''Date'' Desc) =
     [[(''Date'', ''15/06/2024''), (''Amount'', ''200''), (''Type'', ''B'')],
      [(''Date'', ''01/02/2024''), (''Amount'', ''1,000.50''), (''Type'', ''A'')],
      [(''Date'', ''bad''), (''Amount'', ''abc''), (''Type'', ''C'')]]"
  by code_simp+

lemma example_dates:
  "parseDate examplePlatform (String_of (getProp [(''Date'', ''01/02/2024''), (''Amount'', ''1,000.50''), (''Type'', ''A'')] ''Date''))
     = Some 1706745600000"
  "parseDate examplePlatform (String_of (getProp [(''Date'', ''bad''), (''Amount'', ''abc''), (''Type'', ''C'')] ''Date''))
     = None"
  by code_simp+

text \<open>The table of the examples, sorted by \<open>Date\<close>: the record whose date is
  \<open>bad\<close> is the last one in both directions.\<close>

theorem date_sort_invalid_last_witness:
  "find (\<lambda>c. key c = ''Date'') exampleColumns
     = Some \<lparr>key = ''Date'', label = ''Date'', isNumeric = False, isDate = True\<rparr> \<and>
   compareEntries examplePlatform exampleColumns (''Date'', Desc)
     [(''Date'', ''01/02/2024''), (''Amount'', ''1,000.50''), (''Type'', ''A'')]
     [(''Date'', ''bad''), (''Amount'', ''abc''), (''Type'', ''C'')] = Finite (- 1) \<and>
   compareEntries examplePlatform exampleColumns (''Date'', Asc)
     [(''Date'', ''01/02/2024''), (''Amount'', ''1,000.50''), (''Type'', ''A'')]
     [(''Date'', ''bad''), (''Amount'', ''abc''), (''Type'', ''C'')] = Finite (- 1) \<and>
   last (processedData examplePlatform exampleTable exampleColumns (sortedBy ''Date'' Asc))
     = [(''Date'', ''bad''), (''Amount'', ''abc''), (''Type'', ''C'')] \<and>
   last (processedData examplePlatform exampleTable exampleColumns (sortedBy ''Date'' Desc))
     = [(''Date'', ''bad''), (''Amount'', ''abc''), (''Type'', ''C'')]"
proof -
  let ?c = "\<lparr>key = ''Date'', label = ''Date'', isNumeric = False, isDate = True\<rparr>"
  let ?a = "[(''Date'', ''01/02/2024''), (''Amount'', ''1,000.50''), (''Type'', ''A'')]"
  let ?b = "[(''Date'', ''bad''), (''Amount'', ''abc''), (''Type'', ''C'')]"
  have h: "find (\<lambda>c. key c = ''Date'') exampleColumns = Some ?c \<and> isDate ?c"
    by (simp add: example_date_column)
  have v: "parseDate examplePlatform (String_of (getProp ?a ''Date'')) = Some 1706745600000 \<and>
      parseDate examplePlatform (String_of (getProp ?b ''Date'')) = None"
    by (simp only: example_dates)
  from date_sort_invalid_last [of "''Date''" exampleColumns ?c examplePlatform Desc] h v
  have d: "compareEntries examplePlatform exampleColumns (''Date'', Desc) ?a ?b = Finite (- 1)"
    by blast
  from date_sort_invalid_last [of "''Date''" exampleColumns ?c examplePlatform Asc] h v
  have a: "compareEntries examplePlatform exampleColumns (''Date'', Asc) ?a ?b = Finite (- 1)"
    by blast
  have l: "last (processedData examplePlatform exampleTable exampleColumns (sortedBy ''Date'' Asc)) = ?b"
    "last (processedData examplePlatform exampleTable exampleColumns (sortedBy ''Date'' Desc)) = ?b"
    by (simp_all add: example_sorted_by_date)
  from h d a l show ?thesis by blast
qed

text \<open>
  Claim C10. When a date column is sorted and neither of the two values is read as a
  date, the comparator does not return zero by construction. It goes on to the code
  after the date block: if the column is also numeric and both values, stripped to
  digits, points and minus signs, are read by \<open>parseFloat\<close>, it returns their
  difference in the direction of the sort; otherwise it compares the raw values as
  strings, in the direction of the sort.
\<close>

theorem date_sort_both_invalid:
  "find (\<lambda>c. key c = k) columns = Some c \<and> isDate c \<and>
   parseDate P (String_of (getProp a k)) = None \<and>
   parseDate P (String_of (getProp b k)) = None \<longrightarrow>
     compareEntries P columns (k, dir) a b =
       (if isNumeric c \<and> parseFloat P (keepNumeric (String_of (getProp a k))) \<noteq> NaN
           \<and> parseFloat P (keepNumeric (String_of (getProp b k))) \<noteq> NaN
        then (if dir = Asc
              then minus_number (parseFloat P (keepNumeric (String_of (getProp a k))))
                     (parseFloat P (keepNumeric (String_of (getProp b k))))
              else minus_number (parseFloat P (keepNumeric (String_of (getProp b k))))
                     (parseFloat P (keepNumeric (String_of (getProp a k)))))
        else if valueLess (getProp a k) (getProp b k)
          then (if dir = Asc then Finite (- 1) else Finite 1)
        else if valueLess (getProp b k) (getProp a k)
          then (if dir = Asc then Finite 1 else Finite (- 1))
        else Finite 0)"
proof
  assume h: "find (\<lambda>c. key c = k) columns = Some c \<and> isDate c \<and>
   parseDate P (String_of (getProp a k)) = None \<and>
   parseDate P (String_of (getProp b k)) = None"
  then have "compareEntries P columns (k, dir) a b =
           compareUntyped P (Some c) dir (getProp a k) (getProp b k)"
    using compareEntries_date_both_invalid by blast
  then show "compareEntries P columns (k, dir) a b =
       (if isNumeric c \<and> parseFloat P (keepNumeric (String_of (getProp a k))) \<noteq> NaN
           \<and> parseFloat P (keepNumeric (String_of (getProp b k))) \<noteq> NaN
        then (if dir = Asc
              then minus_number (parseFloat P (keepNumeric (String_of (getProp a k))))
                     (parseFloat P (keepNumeric (String_of (getProp b k))))
              else minus_number (parseFloat P (keepNumeric (String_of (getProp b k))))
                     (parseFloat P (keepNumeric (String_of (getProp a k)))))
        else if valueLess (getProp a k) (getProp b k)
          then (if dir = Asc then Finite (- 1) else Finite 1)
        else if valueLess (getProp b k) (getProp a k)
          then (if dir = Asc then Finite 1 else Finite (- 1))
        else Finite 0)"
    by (simp add: compareUntyped_def Let_def)
qed

lemma example_unparseable:
  "parseDate examplePlatform (String_of (getProp [(''Date'', ''worse'')] ''Date'')) = None"
  "parseDate examplePlatform (String_of (getProp [(''Date'', ''bad'')] ''Date'')) = None"
  "valueLess (getProp [(''Date'', ''worse'')] ''Date'') (getProp [(''Date'', ''bad'')] ''Date'') = False"
  "valueLess (getProp [(''Date'', ''bad'')] ''Date'') (getProp [(''Date'', ''worse'')] ''Date'') = True"
  "processedData examplePlatform [[(''Date'', ''worse'')], [(''Date'', ''bad'')]] exampleColumns
     (sortedBy ''Date'' Asc) = [[(''Date'', ''bad'')], [(''Date'', ''worse'')]]"
  by code_simp+

text \<open>Two records whose dates are \<open>worse\<close> and \<open>bad\<close>: the comparator is positive
  on them, and the ascending sort exchanges them.\<close>

theorem date_sort_both_invalid_witness:
  "find (\<lambda>c. key c = ''Date'') exampleColumns
     = Some \<lparr>key = ''Date'', label = ''Date'', isNumeric = False, isDate = True\<rparr> \<and>
   parseDate examplePlatform (String_of (getProp [(''Date'', ''worse'')] ''Date'')) = None \<and>
   parseDate examplePlatform (String_of (getProp [(''Date'', ''bad'')] ''Date'')) = None \<and>
   compareEntries examplePlatform exampleColumns (''Date'', Asc)
     [(''Date'', ''worse'')] [(''Date'', ''bad'')] = Finite 1 \<and>
   processedData examplePlatform [[(''Date'', ''worse'')], [(''Date'', ''bad'')]] exampleColumns
     (sortedBy ''Date'' Asc) = [[(''Date'', ''bad'')], [(''Date'', ''worse'')]]"
proof -
  let ?c = "\<lparr>key = ''Date'', label = ''Date'', isNumeric = False, isDate = True\<rparr>"
  have h: "find (\<lambda>c. key c = ''Date'') exampleColumns = Some ?c \<and> isDate ?c \<and>
      parseDate examplePlatform (String_of (getProp [(''Date'', ''worse'')] ''Date'')) = None \<and>
      parseDate examplePlatform (String_of (getProp [(''Date'', ''bad'')] ''Date'')) = None"
    by (simp add: example_date_column example_unparseable)
  have "compareEntries examplePlatform exampleColumns (''Date'', Asc)
     [(''Date'', ''worse'')] [(''Date'', ''bad'')] = Finite 1"
    using date_sort_both_invalid [of "''Date''" exampleColumns ?c examplePlatform
        "[(''Date'', ''worse'')]" "[(''Date'', ''bad'')]" Asc] h
    by (simp add: example_unparseable)
  with h example_unparseable(5) show ?thesis by blast
qed

section \<open>Properties of the PDF export\<close>

text \<open>The replacement of the code replaces the runs of white space, and nothing
  else; it is the only result that does.\<close>

lemma replaceSpaceRuns_runsReplaced: "runsReplaced s (replaceSpaceRuns s)"
proof (induction s rule: replaceSpaceRuns.induct)
  case 1
  show ?case by (simp add: runsReplaced.nothing)
next
  case (2 c cs)
  show ?case
  proof (cases "isWhiteSpace c")
    case True
    let ?w = "c # takeWhile isWhiteSpace cs"
    let ?s = "dropWhile isWhiteSpace cs"
    have w: "?w \<noteq> []" "list_all isWhiteSpace ?w"
      using True by (simp_all add: list_all_iff) (meson set_takeWhileD)
    have s: "?s = [] \<or> \<not> isWhiteSpace (hd ?s)"
      using hd_dropWhile [of isWhiteSpace cs] by blast
    have "runsReplaced (?w @ ?s) (CHR ''_'' # replaceSpaceRuns ?s)"
      using w s "2.IH"(1) [OF True] by (rule runsReplaced.run)
    then show ?thesis using True by simp
  next
    case False
    then show ?thesis
      using "2.IH"(2) by (simp add: runsReplaced.keep)
  qed
qed

lemma runsReplaced_replaceSpaceRuns:
  assumes "runsReplaced s r"
  shows "r = replaceSpaceRuns s"
  using assms
proof (induction rule: runsReplaced.induct)
  case nothing
  show ?case by simp
next
  case (keep c s r)
  then show ?case by simp
next
  case (run w s r)
  from run(1) obtain c cs where w: "w = c # cs"
    by (cases w) auto
  from run(2) w have c: "isWhiteSpace c" and cs: "\<forall>x \<in> set cs. isWhiteSpace x"
    by (simp_all add: list_all_iff)
  from run(3) have "dropWhile isWhiteSpace s = s"
    by (simp add: dropWhile_eq_self_iff)
  with cs have "dropWhile isWhiteSpace (cs @ s) = s"
    by (simp add: dropWhile_append)
  with c run.IH show ?case
    by (simp add: w)
qed

text \<open>The filter of the application keeps the records that pass the filters, and
  the search of the data table those that pass the search.\<close>

lemma passesFilters_iff:
  "passesFilters filters item \<longleftrightarrow>
     (\<forall>k v. (k, v) \<in> set filters \<longrightarrow> v \<noteq> [] \<longrightarrow> String_of (getProp item k) = v)"
  unfolding passesFilters_def by (simp add: Ball_def)

lemma filteredData_passes:
  assumes "distinct (map fst filters)"
  shows "filteredData data filters = filter (passesFilters filters) data"
proof -
  have e: "list_all (\<lambda>k. case map_of filters k of
                         None \<Rightarrow> True
                       | Some v \<Rightarrow> if v = [] then True else String_of (getProp item k) = v)
          (map fst filters) = passesFilters filters item" for item
  proof
    assume "list_all (\<lambda>k. case map_of filters k of
                         None \<Rightarrow> True
                       | Some v \<Rightarrow> if v = [] then True else String_of (getProp item k) = v)
          (map fst filters)"
    then have a: "\<forall>k \<in> set (map fst filters). case map_of filters k of
                         None \<Rightarrow> True
                       | Some v \<Rightarrow> if v = [] then True else String_of (getProp item k) = v"
      by (simp only: list_all_iff)
    have "String_of (getProp item k) = v" if kv: "(k, v) \<in> set filters" and v: "v \<noteq> []" for k v
    proof -
      from assms kv have m: "map_of filters k = Some v"
        by (rule map_of_is_SomeI)
      from kv have "fst (k, v) \<in> fst ` set filters"
        by (rule imageI)
      then have k: "k \<in> set (map fst filters)"
        by simp
      from a k have "case map_of filters k of
                         None \<Rightarrow> True
                       | Some v \<Rightarrow> if v = [] then True else String_of (getProp item k) = v"
        by (rule bspec)
      then have "if v = [] then True else String_of (getProp item k) = v"
        by (simp only: m option.case)
      with v show ?thesis
        by (simp only: if_False)
    qed
    then show "passesFilters filters item"
      unfolding passesFilters_iff by (intro allI impI)
  next
    assume p: "passesFilters filters item"
    have c: "case map_of filters k of
              None \<Rightarrow> True
            | Some v \<Rightarrow> if v = [] then True else String_of (getProp item k) = v" for k
    proof (cases "map_of filters k")
      case None
      show ?thesis
        by (simp only: None option.case)
    next
      case (Some v)
      then have kv: "(k, v) \<in> set filters"
        by (rule map_of_SomeD)
      note q = p [unfolded passesFilters_iff, rule_format]
      have "if v = [] then True else String_of (getProp item k) = v"
      proof (cases "v = []")
        case True
        then show ?thesis by simp
      next
        case False
        from q [OF kv False] False show ?thesis by simp
      qed
      then show ?thesis
        by (simp only: Some option.case)
    qed
    show "list_all (\<lambda>k. case map_of filters k of
                         None \<Rightarrow> True
                       | Some v \<Rightarrow> if v = [] then True else String_of (getProp item k) = v)
          (map fst filters)"
      unfolding list_all_iff by (intro ballI) (rule c)
  qed
  show ?thesis
    unfolding filteredData_def e by (rule refl)
qed

lemma includes_containsIgnoringCase:
  "String_includes (toLowerCase v) (toLowerCase word) = containsIgnoringCase v word"
proof
  assume "String_includes (toLowerCase v) (toLowerCase word)"
  then obtain pre post where "toLowerCase v = pre @ toLowerCase word @ post"
    unfolding String_includes_iff by blast
  then have e: "map toLowerChar v = pre @ map toLowerChar word @ post"
    by (simp add: toLowerCase_def)
  define a where "a = take (length pre) v"
  define b where "b = take (length word) (drop (length pre) v)"
  define c where "c = drop (length word) (drop (length pre) v)"
  have v: "v = a @ b @ c"
    by (simp add: a_def b_def c_def del: drop_drop)
  have "map toLowerChar b = take (length word) (drop (length pre) (map toLowerChar v))"
    by (simp add: b_def take_map drop_map)
  also have "\<dots> = map toLowerChar word"
    unfolding e by simp
  finally have "toLowerCase b = toLowerCase word"
    by (simp add: toLowerCase_def)
  with v show "containsIgnoringCase v word"
    unfolding containsIgnoringCase_def by blast
next
  assume "containsIgnoringCase v word"
  then obtain pre mid post where "v = pre @ mid @ post" "toLowerCase mid = toLowerCase word"
    unfolding containsIgnoringCase_def by blast
  then have "toLowerCase v = toLowerCase pre @ toLowerCase word @ toLowerCase post"
    by (simp add: toLowerCase_def)
  then show "String_includes (toLowerCase v) (toLowerCase word)"
    unfolding String_includes_iff by blast
qed

lemma matchesSearch_passes: "matchesSearch term item = passesSearch term item"
  by (simp add: matchesSearch_def passesSearch_def list_ex_iff includes_containsIgnoringCase)

lemma matchingRecords_code:
  assumes "distinct (map fst filters)"
  shows "matchingRecords data filters term = filter (matchesSearch term) (filteredData data filters)"
proof -
  have "filter (matchesSearch term) (filter (passesFilters filters) data) =
      filter (\<lambda>item. passesFilters filters item \<and> matchesSearch term item) data"
    by (rule filter_filter)
  then show ?thesis
    unfolding matchingRecords_def filteredData_passes [OF assms] matchesSearch_passes
    by (rule sym)
qed

lemma processedDataWith_matching:
  assumes "distinct (map fst filters)"
  shows "processedDataWith Array_sort P (filteredData data filters) columns st =
     sortedRecords Array_sort P columns (sortConfig st) (matchingRecords data filters (searchTerm st))"
  unfolding processedDataWith_def sortedRecords_def matchingRecords_code [OF assms] Let_def
  by (rule refl)

text \<open>The stable insertion sort returns a permutation.\<close>

lemma mset_insertBy: "mset (insertBy cmp x xs) = add_mset x (mset xs)"
  by (induction xs) simp_all

lemma mset_sortBy: "mset (sortBy cmp xs) = mset xs"
  unfolding sortBy_def by (induction xs) (simp_all add: mset_insertBy)

text \<open>The document, and what the data table of the application shows.\<close>

lemma downloadPDF_document:
  "textLines (downloadPDF today title columns rows) = [title, ''Generated on '' @ today]"
  "tableHead (downloadPDF today title columns rows) = [map label columns]"
  "tableBody (downloadPDF today title columns rows) = map (rowOf columns) rows"
  "savedAs (downloadPDF today title columns rows) = replaceSpaceRuns title @ ''_Report.pdf''"
  by (simp_all add: downloadPDF_def rowOf_def [abs_def])

lemma App_view:
  assumes "distinct (map fst filters)"
  shows "App Array_sort P today activeTab data loading columns filters st =
     (if loading \<or> (\<forall>item \<in> set data. \<not> passesFilters filters item) then None
      else Some \<lparr> visibleEntries =
                    currentEntries (sortedRecords Array_sort P columns (sortConfig st)
                      (matchingRecords data filters (searchTerm st))) st,
                  downloadButton =
                    downloadPDF today (report_title (activeReport activeTab)) columns
                      (sortedRecords Array_sort P columns (sortConfig st)
                        (matchingRecords data filters (searchTerm st))) \<rparr>)"
proof -
  have "filteredData data filters = [] \<longleftrightarrow> (\<forall>item \<in> set data. \<not> passesFilters filters item)"
    unfolding filteredData_passes [OF assms] by (rule filter_empty_conv)
  then have l: "length (filteredData data filters) = 0 \<longleftrightarrow>
      (\<forall>item \<in> set data. \<not> passesFilters filters item)"
    by simp
  show ?thesis
    unfolding App_def DataTable_def Let_def handleDownload_def processedDataWith_matching [OF assms] l
    by simp
qed

text \<open>
  Claim C8. In the application the button \<open>Download PDF\<close> is shown unless the data
  is loading or no record passes the filters. The document that it produces has the
  title of the active report as its first line, one head row with the labels of the
  columns, and one body row for each record that passes the filters and the search,
  with the values of the record in the order of the columns: the rows are those of
  the matching records in the order in which the data table sorts them and, whenever
  the sort of the platform returns a permutation, they are as a multiset the rows of
  the matching records. These are all the matching records and not the visible page,
  which is a slice of them; the page and the page size do not change the document.
  The document is saved under the title with every run of white space replaced by one
  underscore, followed by \<open>_Report.pdf\<close>. The title is one of the four titles of
  the reports; \<open>downloadPDF\<close> does the same for every title, columns and rows.
\<close>

theorem export_all_rows:
  "(distinct (map fst filters) \<longrightarrow>
      (App Array_sort P today activeTab data loading columns filters st = None \<longleftrightarrow>
         loading \<or> (\<forall>item \<in> set data. \<not> passesFilters filters item)) \<and>
      (\<forall>view. App Array_sort P today activeTab data loading columns filters st = Some view \<longrightarrow>
         textLines (downloadButton view) ! 0 = report_title (activeReport activeTab) \<and>
         tableHead (downloadButton view) = [map label columns] \<and>
         tableBody (downloadButton view) =
           map (rowOf columns)
             (sortedRecords Array_sort P columns (sortConfig st)
                (matchingRecords data filters (searchTerm st))) \<and>
         ((\<forall>cmp xs. mset (Array_sort cmp xs) = mset xs) \<longrightarrow>
            mset (tableBody (downloadButton view)) =
              image_mset (rowOf columns) (mset (matchingRecords data filters (searchTerm st)))) \<and>
         visibleEntries view =
           drop (currentPage st * entriesPerPage st - entriesPerPage st)
             (take (currentPage st * entriesPerPage st)
                (sortedRecords Array_sort P columns (sortConfig st)
                   (matchingRecords data filters (searchTerm st)))) \<and>
         (\<exists>view'. App Array_sort P today activeTab data loading columns filters
                     (st\<lparr>currentPage := page, entriesPerPage := n\<rparr>) = Some view' \<and>
                  downloadButton view' = downloadButton view) \<and>
         (\<forall>name. runsReplaced (report_title (activeReport activeTab)) name \<longrightarrow>
            savedAs (downloadButton view) = name @ ''_Report.pdf''))) \<and>
   report_title (activeReport activeTab) \<in>
     {''Worklog Report'', ''Material Log Report'', ''Site Enquiry Log'', ''Tea Log Report''} \<and>
   textLines (downloadPDF today title columns rows) ! 0 = title \<and>
   tableHead (downloadPDF today title columns rows) = [map label columns] \<and>
   tableBody (downloadPDF today title columns rows) = map (rowOf columns) rows \<and>
   (\<exists>name. runsReplaced title name) \<and>
   (\<forall>name. runsReplaced title name \<longrightarrow>
      savedAs (downloadPDF today title columns rows) = name @ ''_Report.pdf'')"
proof -
  let ?title = "report_title (activeReport activeTab)"
  let ?rows = "sortedRecords Array_sort P columns (sortConfig st)
                 (matchingRecords data filters (searchTerm st))"
  have name: "savedAs (downloadPDF today t columns r) = name @ ''_Report.pdf''"
    if "runsReplaced t name" for t r name
    unfolding downloadPDF_document runsReplaced_replaceSpaceRuns [OF that] by (rule refl)
  have 1: "App Array_sort P today activeTab data loading columns filters st = None \<longleftrightarrow>
         loading \<or> (\<forall>item \<in> set data. \<not> passesFilters filters item)"
    if d: "distinct (map fst filters)"
    unfolding App_view [OF d] by simp
  have 2: "textLines (downloadButton view) ! 0 = report_title (activeReport activeTab) \<and>
         tableHead (downloadButton view) = [map label columns] \<and>
         tableBody (downloadButton view) =
           map (rowOf columns)
             (sortedRecords Array_sort P columns (sortConfig st)
                (matchingRecords data filters (searchTerm st))) \<and>
         ((\<forall>cmp xs. mset (Array_sort cmp xs) = mset xs) \<longrightarrow>
            mset (tableBody (downloadButton view)) =
              image_mset (rowOf columns) (mset (matchingRecords data filters (searchTerm st)))) \<and>
         visibleEntries view =
           drop (currentPage st * entriesPerPage st - entriesPerPage st)
             (take (currentPage st * entriesPerPage st)
                (sortedRecords Array_sort P columns (sortConfig st)
                   (matchingRecords data filters (searchTerm st)))) \<and>
         (\<exists>view'. App Array_sort P today activeTab data loading columns filters
                     (st\<lparr>currentPage := page, entriesPerPage := n\<rparr>) = Some view' \<and>
                  downloadButton view' = downloadButton view) \<and>
         (\<forall>name. runsReplaced (report_title (activeReport activeTab)) name \<longrightarrow>
            savedAs (downloadButton view) = name @ ''_Report.pdf'')"
    if d: "distinct (map fst filters)"
      and v: "App Array_sort P today activeTab data loading columns filters st = Some view" for view
  proof -
    from v have c: "\<not> (loading \<or> (\<forall>item \<in> set data. \<not> passesFilters filters item))"
      unfolding App_view [OF d] by (simp split: if_splits)
    with v have w: "view = \<lparr> visibleEntries = currentEntries ?rows st,
                  downloadButton = downloadPDF today ?title columns ?rows \<rparr>"
      unfolding App_view [OF d] by simp
    have b: "downloadButton view = downloadPDF today ?title columns ?rows"
      and e: "visibleEntries view = currentEntries ?rows st"
      unfolding w by simp_all
    have m: "mset (tableBody (downloadButton view)) =
        image_mset (rowOf columns) (mset (matchingRecords data filters (searchTerm st)))"
      if "\<forall>cmp xs. mset (Array_sort cmp xs) = mset xs"
      using that unfolding b downloadPDF_document
      by (cases "sortConfig st") (simp_all add: sortedRecords_def)
    have p: "\<exists>view'. App Array_sort P today activeTab data loading columns filters
                     (st\<lparr>currentPage := page, entriesPerPage := n\<rparr>) = Some view' \<and>
                  downloadButton view' = downloadButton view"
      using c unfolding App_view [OF d] b by simp
    have s: "\<forall>name. runsReplaced ?title name \<longrightarrow>
        savedAs (downloadButton view) = name @ ''_Report.pdf''"
      unfolding b using name by blast
    have t: "textLines (downloadButton view) ! 0 = ?title"
      "tableHead (downloadButton view) = [map label columns]"
      "tableBody (downloadButton view) = map (rowOf columns) ?rows"
      unfolding b by (simp_all add: downloadPDF_document)
    have u: "visibleEntries view =
        drop (currentPage st * entriesPerPage st - entriesPerPage st)
          (take (currentPage st * entriesPerPage st) ?rows)"
      unfolding e by (simp add: currentEntries_def Let_def)
    from t m u p s show ?thesis
      by (intro conjI impI) assumption+
  qed
  have 3: "?title \<in> {''Worklog Report'', ''Material Log Report'', ''Site Enquiry Log'', ''Tea Log Report''}"
    by (simp add: activeReport_def REPORTS_def)
  have 4: "\<exists>name. runsReplaced title name"
    using replaceSpaceRuns_runsReplaced by blast
  have 5: "textLines (downloadPDF today title columns rows) ! 0 = title"
    "tableHead (downloadPDF today title columns rows) = [map label columns]"
    "tableBody (downloadPDF today title columns rows) = map (rowOf columns) rows"
    by (simp_all add: downloadPDF_document)
  have 6: "\<forall>name. runsReplaced title name \<longrightarrow>
      savedAs (downloadPDF today title columns rows) = name @ ''_Report.pdf''"
    using name by blast
  have 7: "(App Array_sort P today activeTab data loading columns filters st = None \<longleftrightarrow>
         loading \<or> (\<forall>item \<in> set data. \<not> passesFilters filters item)) \<and>
      (\<forall>view. App Array_sort P today activeTab data loading columns filters st = Some view \<longrightarrow>
         textLines (downloadButton view) ! 0 = report_title (activeReport activeTab) \<and>
         tableHead (downloadButton view) = [map label columns] \<and>
         tableBody (downloadButton view) =
           map (rowOf columns)
             (sortedRecords Array_sort P columns (sortConfig st)
                (matchingRecords data filters (searchTerm st))) \<and>
         ((\<forall>cmp xs. mset (Array_sort cmp xs) = mset xs) \<longrightarrow>
            mset (tableBody (downloadButton view)) =
              image_mset (rowOf columns) (mset (matchingRecords data filters (searchTerm st)))) \<and>
         visibleEntries view =
           drop (currentPage st * entriesPerPage st - entriesPerPage st)
             (take (currentPage st * entriesPerPage st)
                (sortedRecords Array_sort P columns (sortConfig st)
                   (matchingRecords data filters (searchTerm st)))) \<and>
         (\<exists>view'. App Array_sort P today activeTab data loading columns filters
                     (st\<lparr>currentPage := page, entriesPerPage := n\<rparr>) = Some view' \<and>
                  downloadButton view' = downloadButton view) \<and>
         (\<forall>name. runsReplaced (report_title (activeReport activeTab)) name \<longrightarrow>
            savedAs (downloadButton view) = name @ ''_Report.pdf''))"
    if d: "distinct (map fst filters)"
  proof (rule conjI)
    show "App Array_sort P today activeTab data loading columns filters st = None \<longleftrightarrow>
         loading \<or> (\<forall>item \<in> set data. \<not> passesFilters filters item)"
      by (rule 1 [OF d])
  next
    show "\<forall>view. App Array_sort P today activeTab data loading columns filters st = Some view \<longrightarrow>
         textLines (downloadButton view) ! 0 = report_title (activeReport activeTab) \<and>
         tableHead (downloadButton view) = [map label columns] \<and>
         tableBody (downloadButton view) =
           map (rowOf columns)
             (sortedRecords Array_sort P columns (sortConfig st)
                (matchingRecords data filters (searchTerm st))) \<and>
         ((\<forall>cmp xs. mset (Array_sort cmp xs) = mset xs) \<longrightarrow>
            mset (tableBody (downloadButton view)) =
              image_mset (rowOf columns) (mset (matchingRecords data filters (searchTerm st)))) \<and>
         visibleEntries view =
           drop (currentPage st * entriesPerPage st - entriesPerPage st)
             (take (currentPage st * entriesPerPage st)
                (sortedRecords Array_sort P columns (sortConfig st)
                   (matchingRecords data filters (searchTerm st)))) \<and>
         (\<exists>view'. App Array_sort P today activeTab data loading columns filters
                     (st\<lparr>currentPage := page, entriesPerPage := n\<rparr>) = Some view' \<and>
                  downloadButton view' = downloadButton view) \<and>
         (\<forall>name. runsReplaced (report_title (activeReport activeTab)) name \<longrightarrow>
            savedAs (downloadButton view) = name @ ''_Report.pdf'')"
    proof (intro allI impI)
      fix view
      assume v: "App Array_sort P today activeTab data loading columns filters st = Some view"
      show "textLines (downloadButton view) ! 0 = report_title (activeReport activeTab) \<and>
         tableHead (downloadButton view) = [map label columns] \<and>
         tableBody (downloadButton view) =
           map (rowOf columns)
             (sortedRecords Array_sort P columns (sortConfig st)
                (matchingRecords data filters (searchTerm st))) \<and>
         ((\<forall>cmp xs. mset (Array_sort cmp xs) = mset xs) \<longrightarrow>
            mset (tableBody (downloadButton view)) =
              image_mset (rowOf columns) (mset (matchingRecords data filters (searchTerm st)))) \<and>
         visibleEntries view =
           drop (currentPage st * entriesPerPage st - entriesPerPage st)
             (take (currentPage st * entriesPerPage st)
                (sortedRecords Array_sort P columns (sortConfig st)
                   (matchingRecords data filters (searchTerm st)))) \<and>
         (\<exists>view'. App Array_sort P today activeTab data loading columns filters
                     (st\<lparr>currentPage := page, entriesPerPage := n\<rparr>) = Some view' \<and>
                  downloadButton view' = downloadButton view) \<and>
         (\<forall>name. runsReplaced (report_title (activeReport activeTab)) name \<longrightarrow>
            savedAs (downloadButton view) = name @ ''_Report.pdf'')"
        by (rule 2 [OF d v])
    qed
  qed
  have 8: "distinct (map fst filters) \<longrightarrow>
      (App Array_sort P today activeTab data loading columns filters st = None \<longleftrightarrow>
         loading \<or> (\<forall>item \<in> set data. \<not> passesFilters filters item)) \<and>
      (\<forall>view. App Array_sort P today activeTab data loading columns filters st = Some view \<longrightarrow>
         textLines (downloadButton view) ! 0 = report_title (activeReport activeTab) \<and>
         tableHead (downloadButton view) = [map label columns] \<and>
         tableBody (downloadButton view) =
           map (rowOf columns)
             (sortedRecords Array_sort P columns (sortConfig st)
                (matchingRecords data filters (searchTerm st))) \<and>
         ((\<forall>cmp xs. mset (Array_sort cmp xs) = mset xs) \<longrightarrow>
            mset (tableBody (downloadButton view)) =
              image_mset (rowOf columns) (mset (matchingRecords data filters (searchTerm st)))) \<and>
         visibleEntries view =
           drop (currentPage st * entriesPerPage st - entriesPerPage st)
             (take (currentPage st * entriesPerPage st)
                (sortedRecords Array_sort P columns (sortConfig st)
                   (matchingRecords data filters (searchTerm st)))) \<and>
         (\<exists>view'. App Array_sort P today activeTab data loading columns filters
                     (st\<lparr>currentPage := page, entriesPerPage := n\<rparr>) = Some view' \<and>
                  downloadButton view' = downloadButton view) \<and>
         (\<forall>name. runsReplaced (report_title (activeReport activeTab)) name \<longrightarrow>
            savedAs (downloadButton view) = name @ ''_Report.pdf''))"
    by (rule impI) (rule 7)
  show ?thesis
    by (rule conjI [OF 8 conjI [OF 3 conjI [OF 5(1) conjI [OF 5(2) conjI [OF 5(3) conjI [OF 4 6]]]]]])
qed

text \<open>The table of five records, filtered for the type \<open>A\<close>, searched for
  \<open>2024\<close> and sorted by date, newest first, on pages of one entry: two of the
  three records of type \<open>A\<close> match the search, the page shows the newer of them, the
  document has both, and the worklog report is saved as
  \<open>Worklog_Report_Report.pdf\<close>.\<close>

lemma example_export:
  "distinct (map fst ledgerFilters)"
  "App sortBy examplePlatform ''3/11/2026'' ''worklog'' ledgerTable False exampleColumns ledgerFilters ledgerSearch
     = Some \<lparr>visibleEntries = [[(''Date'', ''20/03/2024''), (''Amount'', ''75''), (''Type'', ''A'')]],
            downloadButton =
            \<lparr>textLines = [''Worklog Report'', ''Generated on 3/11/2026''],
              tableHead = [[''Date'', ''Amount'', ''Type'']],
              tableBody = [[Some ''20/03/2024'', Some ''75'', Some ''A''],
                           [Some ''01/02/2024'', Some ''1,000.50'', Some ''A'']],
              savedAs = ''Worklog_Report_Report.pdf''\<rparr>\<rparr>"
  "filter (matchesSearch (searchTerm ledgerSearch)) (filteredData ledgerTable ledgerFilters) =
     [[(''Date'', ''01/02/2024''), (''Amount'', ''1,000.50''), (''Type'', ''A'')],
      [(''Date'', ''20/03/2024''), (''Amount'', ''75''), (''Type'', ''A'')]]"
  "replaceSpaceRuns ''Worklog Report'' = ''Worklog_Report''"
  by code_simp+

theorem export_all_rows_witness:
  "App sortBy examplePlatform ''3/11/2026'' ''worklog'' ledgerTable False exampleColumns ledgerFilters ledgerSearch
     = Some \<lparr>visibleEntries = [[(''Date'', ''20/03/2024''), (''Amount'', ''75''), (''Type'', ''A'')]],
            downloadButton =
            \<lparr>textLines = [''Worklog Report'', ''Generated on 3/11/2026''],
              tableHead = [[''Date'', ''Amount'', ''Type'']],
              tableBody = [[Some ''20/03/2024'', Some ''75'', Some ''A''],
                           [Some ''01/02/2024'', Some ''1,000.50'', Some ''A'']],
              savedAs = ''Worklog_Report_Report.pdf''\<rparr>\<rparr> \<and>
   matchingRecords ledgerTable ledgerFilters (searchTerm ledgerSearch) =
     [[(''Date'', ''01/02/2024''), (''Amount'', ''1,000.50''), (''Type'', ''A'')],
      [(''Date'', ''20/03/2024''), (''Amount'', ''75''), (''Type'', ''A'')]] \<and>
   map (rowOf exampleColumns)
     (sortedRecords sortBy examplePlatform exampleColumns (sortConfig ledgerSearch)
       (matchingRecords ledgerTable ledgerFilters (searchTerm ledgerSearch))) =
     [[Some ''20/03/2024'', Some ''75'', Some ''A''],
      [Some ''01/02/2024'', Some ''1,000.50'', Some ''A'']] \<and>
   mset [[Some ''20/03/2024'', Some ''75'', Some ''A''],
         [Some ''01/02/2024'', Some ''1,000.50'', Some ''A'']] =
     image_mset (rowOf exampleColumns)
       (mset (matchingRecords ledgerTable ledgerFilters (searchTerm ledgerSearch))) \<and>
   [[(''Date'', ''20/03/2024''), (''Amount'', ''75''), (''Type'', ''A'')]] =
     drop (currentPage ledgerSearch * entriesPerPage ledgerSearch - entriesPerPage ledgerSearch)
       (take (currentPage ledgerSearch * entriesPerPage ledgerSearch)
          (sortedRecords sortBy examplePlatform exampleColumns (sortConfig ledgerSearch)
       (matchingRecords ledgerTable ledgerFilters (searchTerm ledgerSearch)))) \<and>
   runsReplaced ''Worklog Report'' ''Worklog_Report'' \<and>
   ''Worklog_Report_Report.pdf'' = ''Worklog_Report'' @ ''_Report.pdf''"
proof -
  let ?view = "\<lparr>visibleEntries = [[(''Date'', ''20/03/2024''), (''Amount'', ''75''), (''Type'', ''A'')]],
            downloadButton =
            \<lparr>textLines = [''Worklog Report'', ''Generated on 3/11/2026''],
              tableHead = [[''Date'', ''Amount'', ''Type'']],
              tableBody = [[Some ''20/03/2024'', Some ''75'', Some ''A''],
                           [Some ''01/02/2024'', Some ''1,000.50'', Some ''A'']],
              savedAs = ''Worklog_Report_Report.pdf''\<rparr>\<rparr>"
  note e = export_all_rows [of ledgerFilters sortBy examplePlatform "''3/11/2026''" "''worklog''"
      ledgerTable False exampleColumns ledgerSearch 2 1 "''Worklog Report''" "[]"]
  note v = example_export(2)
  note f = e [THEN conjunct1, rule_format, OF example_export(1), THEN conjunct2, rule_format, OF v]
  have m: "matchingRecords ledgerTable ledgerFilters (searchTerm ledgerSearch) =
     [[(''Date'', ''01/02/2024''), (''Amount'', ''1,000.50''), (''Type'', ''A'')],
      [(''Date'', ''20/03/2024''), (''Amount'', ''75''), (''Type'', ''A'')]]"
    unfolding matchingRecords_code [OF example_export(1)] by (rule example_export(3))
  have t: "report_title (activeReport ''worklog'') = ''Worklog Report''"
    by code_simp
  have r: "runsReplaced ''Worklog Report'' ''Worklog_Report''"
    using replaceSpaceRuns_runsReplaced [of "''Worklog Report''"]
    by (simp only: example_export(4))
  from f have "tableBody (downloadButton ?view) = map (rowOf exampleColumns)
     (sortedRecords sortBy examplePlatform exampleColumns (sortConfig ledgerSearch)
       (matchingRecords ledgerTable ledgerFilters (searchTerm ledgerSearch)))"
    by (elim conjE)
  then have b: "map (rowOf exampleColumns)
     (sortedRecords sortBy examplePlatform exampleColumns (sortConfig ledgerSearch)
       (matchingRecords ledgerTable ledgerFilters (searchTerm ledgerSearch))) =
     [[Some ''20/03/2024'', Some ''75'', Some ''A''],
      [Some ''01/02/2024'', Some ''1,000.50'', Some ''A'']]"
    by (simp only: tableView.select_convs pdfExport.select_convs)
  from f have "(\<forall>cmp (xs :: LogEntry list). mset (sortBy cmp xs) = mset xs) \<longrightarrow>
      mset (tableBody (downloadButton ?view)) =
        image_mset (rowOf exampleColumns)
          (mset (matchingRecords ledgerTable ledgerFilters (searchTerm ledgerSearch)))"
    by (elim conjE)
  moreover have "\<forall>cmp (xs :: LogEntry list). mset (sortBy cmp xs) = mset xs"
    by (simp only: mset_sortBy simp_thms)
  ultimately have "mset (tableBody (downloadButton ?view)) =
        image_mset (rowOf exampleColumns)
          (mset (matchingRecords ledgerTable ledgerFilters (searchTerm ledgerSearch)))"
    by (rule mp)
  then have c: "mset [[Some ''20/03/2024'', Some ''75'', Some ''A''],
         [Some ''01/02/2024'', Some ''1,000.50'', Some ''A'']] =
     image_mset (rowOf exampleColumns)
       (mset (matchingRecords ledgerTable ledgerFilters (searchTerm ledgerSearch)))"
    by (simp only: tableView.select_convs pdfExport.select_convs)
  from f have "visibleEntries ?view =
     drop (currentPage ledgerSearch * entriesPerPage ledgerSearch - entriesPerPage ledgerSearch)
       (take (currentPage ledgerSearch * entriesPerPage ledgerSearch)
          (sortedRecords sortBy examplePlatform exampleColumns (sortConfig ledgerSearch)
       (matchingRecords ledgerTable ledgerFilters (searchTerm ledgerSearch))))"
    by (elim conjE)
  then have p: "[[(''Date'', ''20/03/2024''), (''Amount'', ''75''), (''Type'', ''A'')]] =
     drop (currentPage ledgerSearch * entriesPerPage ledgerSearch - entriesPerPage ledgerSearch)
       (take (currentPage ledgerSearch * entriesPerPage ledgerSearch)
          (sortedRecords sortBy examplePlatform exampleColumns (sortConfig ledgerSearch)
       (matchingRecords ledgerTable ledgerFilters (searchTerm ledgerSearch))))"
    by (simp only: tableView.select_convs pdfExport.select_convs)
  from f have "\<forall>name. runsReplaced (report_title (activeReport ''worklog'')) name \<longrightarrow>
      savedAs (downloadButton ?view) = name @ ''_Report.pdf''"
    by (elim conjE)
  then have "runsReplaced ''Worklog Report'' ''Worklog_Report'' \<longrightarrow>
      savedAs (downloadButton ?view) = ''Worklog_Report'' @ ''_Report.pdf''"
    unfolding t by (rule spec)
  then have "savedAs (downloadButton ?view) = ''Worklog_Report'' @ ''_Report.pdf''"
    using r by (rule mp)
  then have n: "''Worklog_Report_Report.pdf'' = ''Worklog_Report'' @ ''_Report.pdf''"
    by (simp only: tableView.select_convs pdfExport.select_convs)
  show ?thesis
    by (rule conjI [OF v conjI [OF m conjI [OF b conjI [OF c conjI [OF p conjI [OF r n]]]]]])
qed

section \<open>Properties of the application\<close>

text \<open>A filter on the index keeps the elements at the indices that pass.\<close>

lemma filterByIndex_nths: "filterByIndex p cols = nths cols {i. p i}"
  by (simp add: filterByIndex_def nths_def case_prod_unfold)

lemma nths_drop_two:
  assumes "2 \<le> length cols" and "\<And>i. i < 2 \<Longrightarrow> i \<in> A"
  shows "nths cols A = take 2 cols @ nths (drop 2 cols) {j. j + 2 \<in> A}"
proof -
  have l: "length (take 2 cols) = 2" using assms(1) by simp
  have "nths cols A = nths (take 2 cols @ drop 2 cols) A" by simp
  also have "\<dots> = nths (take 2 cols) A @ nths (drop 2 cols) {j. j + length (take 2 cols) \<in> A}"
    by (rule nths_append)
  also have "nths (take 2 cols) A = take 2 cols"
    by (rule nths_all) (use assms(2) l in simp)
  finally show ?thesis unfolding l .
qed

lemma filterByIndex_not_2_3:
  assumes "2 \<le> length cols"
  shows "filterByIndex (\<lambda>index. index \<noteq> 2 \<and> index \<noteq> 3) cols = take 2 cols @ drop 4 cols"
proof -
  have s: "{j. j + 2 \<in> {i. i \<noteq> 2 \<and> i \<noteq> (3::nat)}} = {j. 2 \<le> j}" by auto
  have "nths (drop 2 cols) {j. 2 \<le> j} = drop 2 (drop 2 cols)"
    by (simp add: drop_eq_nths)
  then show ?thesis
    unfolding filterByIndex_nths
    using nths_drop_two [OF assms, of "{i. i \<noteq> 2 \<and> i \<noteq> 3}"] s by simp
qed

lemma filterByIndex_not_2:
  assumes "2 \<le> length cols"
  shows "filterByIndex (\<lambda>index. index \<noteq> 2) cols = take 2 cols @ drop 3 cols"
proof -
  have s: "{j. j + 2 \<in> {i. i \<noteq> (2::nat)}} = {j. 1 \<le> j}" by auto
  have "nths (drop 2 cols) {j. 1 \<le> j} = drop 1 (drop 2 cols)"
    by (simp only: drop_eq_nths)
  also have "\<dots> = drop 3 cols" by (simp add: eval_nat_numeral)
  finally have d: "nths (drop 2 cols) {j. 1 \<le> j} = drop 3 cols" .
  have "nths cols {i. i \<noteq> 2} = take 2 cols @ nths (drop 2 cols) {j. j + 2 \<in> {i. i \<noteq> 2}}"
    by (rule nths_drop_two [OF assms]) simp
  then show ?thesis
    unfolding filterByIndex_nths s d .
qed

text \<open>
  Claim C9. After the columns are inferred, the application removes columns by their
  position. For the worklog report the columns at the indices 2 and 3 are removed when
  there are more than three columns, and the column at index 2 when there are exactly
  three. For the material report the column at index 2 is removed when there are more
  than two columns. Every other report, and a shorter list of columns, keeps all the
  columns. The columns that \<open>fetchData\<close> sets are the inferred columns after this
  removal.
\<close>

theorem reportColumns_removal:
  "(3 < length cols \<longrightarrow> reportColumns ''worklog'' cols = take 2 cols @ drop 4 cols) \<and>
   (length cols = 3 \<longrightarrow> reportColumns ''worklog'' cols = take 2 cols) \<and>
   (length cols < 3 \<longrightarrow> reportColumns ''worklog'' cols = cols) \<and>
   (2 < length cols \<longrightarrow> reportColumns ''material'' cols = take 2 cols @ drop 3 cols) \<and>
   (length cols \<le> 2 \<longrightarrow> reportColumns ''material'' cols = cols) \<and>
   (r \<noteq> ''worklog'' \<and> r \<noteq> ''material'' \<longrightarrow> reportColumns r cols = cols) \<and>
   (\<forall>data columns. fetchData P r outcome = Some (data, columns) \<longrightarrow>
      columns = reportColumns r (identifyColumns P data))"
proof (intro conjI impI allI)
  assume "3 < length cols"
  then show "reportColumns ''worklog'' cols = take 2 cols @ drop 4 cols"
    by (simp add: reportColumns_def filterByIndex_not_2_3)
next
  assume "length cols = 3"
  then show "reportColumns ''worklog'' cols = take 2 cols"
    by (simp add: reportColumns_def filterByIndex_not_2)
next
  assume "length cols < 3"
  then show "reportColumns ''worklog'' cols = cols"
    by (simp add: reportColumns_def)
next
  assume "2 < length cols"
  then show "reportColumns ''material'' cols = take 2 cols @ drop 3 cols"
    by (simp add: reportColumns_def splice_def)
next
  assume "length cols \<le> 2"
  then show "reportColumns ''material'' cols = cols"
    by (simp add: reportColumns_def)
next
  assume "r \<noteq> ''worklog'' \<and> r \<noteq> ''material''"
  then show "reportColumns r cols = cols"
    by (simp add: reportColumns_def)
next
  fix data columns
  assume "fetchData P r outcome = Some (data, columns)"
  then show "columns = reportColumns r (identifyColumns P data)"
    by (auto simp: fetchData_def split: settled.splits)
qed

lemma example_fetch:
  "fetchData examplePlatform ''worklog'' (Response True (Some exampleCSV))
     = Some (exampleTable, [\<lparr>key = ''Date'', label = ''Date'', isNumeric = False, isDate = True\<rparr>,
                            \<lparr>key = ''Amount'', label = ''Amount'', isNumeric = True, isDate = False\<rparr>])"
  by code_simp

text \<open>Three columns lose the third one for the worklog and the material reports and
  none for the tea log; five columns lose the third and the fourth for the worklog.\<close>

theorem reportColumns_removal_witness:
  "length exampleColumns = 3 \<and>
   reportColumns ''worklog'' exampleColumns
     = [\<lparr>key = ''Date'', label = ''Date'', isNumeric = False, isDate = True\<rparr>,
        \<lparr>key = ''Amount'', label = ''Amount'', isNumeric = True, isDate = False\<rparr>] \<and>
   2 < length exampleColumns \<and>
   reportColumns ''material'' exampleColumns
     = [\<lparr>key = ''Date'', label = ''Date'', isNumeric = False, isDate = True\<rparr>,
        \<lparr>key = ''Amount'', label = ''Amount'', isNumeric = True, isDate = False\<rparr>] \<and>
   reportColumns ''tealog'' exampleColumns = exampleColumns \<and>
   3 < length materialColumns \<and>
   reportColumns ''worklog'' materialColumns
     = [\<lparr>key = ''Material'', label = ''Material'', isNumeric = False, isDate = False\<rparr>,
        \<lparr>key = ''material'', label = ''Material'', isNumeric = False, isDate = False\<rparr>,
        \<lparr>key = ''materials'', label = ''Materials'', isNumeric = False, isDate = False\<rparr>] \<and>
   fetchData examplePlatform ''worklog'' (Response True (Some exampleCSV))
     = Some (exampleTable, [\<lparr>key = ''Date'', label = ''Date'', isNumeric = False, isDate = True\<rparr>,
                            \<lparr>key = ''Amount'', label = ''Amount'', isNumeric = True, isDate = False\<rparr>])"
proof -
  have l: "length exampleColumns = 3" "2 < length exampleColumns"
    by (simp_all add: exampleColumns_def)
  have n: "''tealog'' \<noteq> ''worklog'' \<and> ''tealog'' \<noteq> ''material''" by simp
  note r = reportColumns_removal [of exampleColumns "''tealog''" examplePlatform FetchFails]
  from r l have "reportColumns ''worklog'' exampleColumns = take 2 exampleColumns" by blast
  then have w: "reportColumns ''worklog'' exampleColumns
     = [\<lparr>key = ''Date'', label = ''Date'', isNumeric = False, isDate = True\<rparr>,
        \<lparr>key = ''Amount'', label = ''Amount'', isNumeric = True, isDate = False\<rparr>]"
    by (simp add: exampleColumns_def)
  from r l have "reportColumns ''material'' exampleColumns = take 2 exampleColumns @ drop 3 exampleColumns"
    by blast
  then have m: "reportColumns ''material'' exampleColumns
     = [\<lparr>key = ''Date'', label = ''Date'', isNumeric = False, isDate = True\<rparr>,
        \<lparr>key = ''Amount'', label = ''Amount'', isNumeric = True, isDate = False\<rparr>]"
    by (simp add: exampleColumns_def)
  from r n have t: "reportColumns ''tealog'' exampleColumns = exampleColumns" by blast
  have l4: "3 < length materialColumns" by (simp add: materialColumns_def)
  from reportColumns_removal [of materialColumns "''tealog''" examplePlatform FetchFails] l4
  have "reportColumns ''worklog'' materialColumns = take 2 materialColumns @ drop 4 materialColumns"
    by blast
  then have w4: "reportColumns ''worklog'' materialColumns
     = [\<lparr>key = ''Material'', label = ''Material'', isNumeric = False, isDate = False\<rparr>,
        \<lparr>key = ''material'', label = ''Material'', isNumeric = False, isDate = False\<rparr>,
        \<lparr>key = ''materials'', label = ''Materials'', isNumeric = False, isDate = False\<rparr>]"
    by (simp add: materialColumns_def)
  from l w m t l4 w4 example_fetch show ?thesis by blast
qed

end
